(* ===== verification/Apls_Prelude.thy ===== *)
theory Apls_Prelude
  imports Main "HOL-Library.Word"
begin

text \<open>
  Vocabulary shared by every component: the machine integers of the Rust sources, the
  \<open>Result\<close> type as a sum with its early-return bind (the \<open>?\<close> operator), checked integer
  arithmetic, little-endian byte encodings, byte slices and UTF-8, and the description of
  the compilation target. The lemmas are collected in \<open>result_simps\<close> (success and failure
  of a bind), \<open>checked_simps\<close> (checked arithmetic) and \<open>bytes_simps\<close> (lengths and
  round trips of byte encodings).
\<close>

unbundle bit_operations_syntax

named_theorems result_simps \<open>inversion of early-return binds\<close>
named_theorems checked_simps \<open>checked arithmetic in terms of natural numbers\<close>
named_theorems bytes_simps \<open>lengths and round trips of byte encodings\<close>

section \<open>Machine integers\<close>

type_synonym u8 = "8 word"
type_synonym u16 = "16 word"
type_synonym u32 = "32 word"
type_synonym u64 = "64 word"
type_synonym bytes = "8 word list"

section \<open>Results with early return\<close>

type_synonym ('a, 'e) result = "'e + 'a"

abbreviation Ok :: "'a \<Rightarrow> ('a, 'e) result" where "Ok x \<equiv> Inr x"
abbreviation Err :: "'e \<Rightarrow> ('a, 'e) result" where "Err e \<equiv> Inl e"

text \<open>\<open>bindE m f\<close> is \<open>let x = m?; f(x)\<close>.\<close>

definition bindE :: "('a, 'e) result \<Rightarrow> ('a \<Rightarrow> ('b, 'e) result) \<Rightarrow> ('b, 'e) result" where
  "bindE m f = (case m of Inl e \<Rightarrow> Inl e | Inr x \<Rightarrow> f x)"

text \<open>\<open>ok_or\<close> and \<open>map_err\<close> of the standard library.\<close>

definition ok_or :: "'a option \<Rightarrow> 'e \<Rightarrow> ('a, 'e) result" where
  "ok_or x e = (case x of None \<Rightarrow> Inl e | Some y \<Rightarrow> Inr y)"

definition map_err :: "('e \<Rightarrow> 'f) \<Rightarrow> ('a, 'e) result \<Rightarrow> ('a, 'f) result" where
  "map_err f m = (case m of Inl e \<Rightarrow> Inl (f e) | Inr x \<Rightarrow> Inr x)"

lemma bindE_simps [simp]:
  "bindE (Inl e) f = Inl e"
  "bindE (Inr x) f = f x"
  by (simp_all add: bindE_def)

lemma ok_or_simps [simp]:
  "ok_or None e = Inl e"
  "ok_or (Some x) e = Inr x"
  by (simp_all add: ok_or_def)

lemma map_err_simps [simp]:
  "map_err f (Inl e) = Inl (f e)"
  "map_err f (Inr x) = Inr x"
  by (simp_all add: map_err_def)

lemma bindE_Inr_iff [result_simps]:
  "bindE m f = Inr y \<longleftrightarrow> (\<exists>x. m = Inr x \<and> f x = Inr y)"
  by (cases m) auto

lemma bindE_Inl_iff [result_simps]:
  "bindE m f = Inl e \<longleftrightarrow> m = Inl e \<or> (\<exists>x. m = Inr x \<and> f x = Inl e)"
  by (cases m) auto

lemma ok_or_Inr_iff [result_simps]: "ok_or x e = Inr y \<longleftrightarrow> x = Some y"
  by (cases x) auto

lemma ok_or_Inl_iff [result_simps]: "ok_or x e = Inl e' \<longleftrightarrow> x = None \<and> e' = e"
  by (cases x) auto

lemma map_err_Inr_iff [result_simps]: "map_err f m = Inr y \<longleftrightarrow> m = Inr y"
  by (cases m) auto

lemma map_err_Inl_iff [result_simps]: "map_err f m = Inl e \<longleftrightarrow> (\<exists>e'. m = Inl e' \<and> e = f e')"
  by (cases m) auto

lemma if_err_Inr_iff [result_simps]: "(if c then Inl e else m) = Inr y \<longleftrightarrow> \<not> c \<and> m = Inr y"
  by auto

lemma not_Inl_unit_iff: "(\<nexists>e. r = Inl e) \<longleftrightarrow> r = Inr (() :: unit)"
  by (cases r) auto

text \<open>The outcome of code that may panic.\<close>

datatype 'a outcome = Returned 'a | Panicked

section \<open>Checked arithmetic\<close>

lemma unat_bound: "unat (w :: 'a::len word) < 2 ^ LENGTH('a)"
  by simp

definition checked_add :: "'a::len word \<Rightarrow> 'a word \<Rightarrow> 'a word option" where
  "checked_add a b = (if unat a + unat b < 2 ^ LENGTH('a) then Some (a + b) else None)"

definition checked_sub :: "'a::len word \<Rightarrow> 'a word \<Rightarrow> 'a word option" where
  "checked_sub a b = (if b \<le> a then Some (a - b) else None)"

lemma checked_add_Some_iff [checked_simps]:
  fixes a b c :: "'a::len word"
  shows "checked_add a b = Some c \<longleftrightarrow> unat a + unat b = unat c"
proof -
  have "unat a + unat b < 2 ^ LENGTH('a) \<Longrightarrow> unat (a + b) = unat a + unat b"
    by (simp add: unat_word_ariths)
  then show ?thesis
    using unat_bound [of c] by (auto simp: checked_add_def word_unat_eq_iff)
qed

lemma checked_add_None_iff [checked_simps]:
  "checked_add a b = None \<longleftrightarrow> 2 ^ LENGTH('a) \<le> unat a + unat (b :: 'a::len word)"
  by (simp add: checked_add_def not_less)

lemma checked_sub_Some_iff [checked_simps]:
  fixes a b c :: "'a::len word"
  shows "checked_sub a b = Some c \<longleftrightarrow> unat a = unat b + unat c"
proof (cases "b \<le> a")
  case True
  then have "unat (a - b) = unat a - unat b" and "unat b \<le> unat a"
    by (simp_all add: unat_sub word_le_nat_alt)
  with True show ?thesis by (auto simp: checked_sub_def word_unat_eq_iff)
next
  case False
  then show ?thesis by (auto simp: checked_sub_def word_le_nat_alt)
qed

lemma checked_sub_None_iff [checked_simps]: "checked_sub a b = None \<longleftrightarrow> a < b"
  by (auto simp: checked_sub_def)

lemma checked_add_fits:
  fixes a b :: "'a::len word"
  assumes "unat a + unat b < 2 ^ LENGTH('a)"
  obtains c where "checked_add a b = Some c" and "unat c = unat a + unat b"
proof (rule that)
  show "checked_add a b = Some (a + b)" and "unat (a + b) = unat a + unat b"
    using assms by (simp_all add: checked_add_def unat_word_ariths)
qed

lemma checked_sub_fits:
  fixes a b :: "'a::len word"
  assumes "unat b \<le> unat a"
  obtains c where "checked_sub a b = Some c" and "unat c = unat a - unat b"
proof (rule that)
  show "checked_sub a b = Some (a - b)" and "unat (a - b) = unat a - unat b"
    using assms by (simp_all add: checked_sub_def unat_sub word_le_nat_alt)
qed

text \<open>Widening conversions (\<open>u64::from\<close>, \<open>as u64\<close>) keep the value.\<close>

lemma unat_ucast_widen:
  assumes "LENGTH('a::len) \<le> LENGTH('b::len)"
  shows "unat (ucast (w :: 'a word) :: 'b word) = unat w"
  using order_less_le_trans [OF unat_bound [of w] power_increasing [OF assms]]
  by (simp add: unsigned_ucast_eq take_bit_nat_eq_self)

lemma unat_u32_to_u64 [simp]: "unat (ucast (w :: u32) :: u64) = unat w"
  by (rule unat_ucast_widen) simp

lemma unat_u16_to_u64 [simp]: "unat (ucast (w :: u16) :: u64) = unat w"
  by (rule unat_ucast_widen) simp

lemma unat_u32_bound: "unat (w :: u32) < 4294967296"
  using unat_bound [of w] by simp

lemma unat_u64_bound: "unat (w :: u64) < 18446744073709551616"
  using unat_bound [of w] by simp

section \<open>Slices of a buffer\<close>

text \<open>\<open>slice bs a b\<close> is \<open>bs[a..b]\<close> where that does not panic; \<open>get_range\<close> is the total
  \<open>bs.get(a..b)\<close>, and \<open>copy_at\<close> is \<open>out[i..i + n].copy_from_slice(bs)\<close> for a source of
  \<open>n\<close> bytes inside the destination.\<close>

definition slice :: "'a list \<Rightarrow> nat \<Rightarrow> nat \<Rightarrow> 'a list" where
  "slice bs a b = take (b - a) (drop a bs)"

definition get_range :: "'a list \<Rightarrow> nat \<Rightarrow> nat \<Rightarrow> 'a list option" where
  "get_range bs a b = (if a \<le> b \<and> b \<le> length bs then Some (slice bs a b) else None)"

definition copy_at :: "nat \<Rightarrow> 'a list \<Rightarrow> 'a list \<Rightarrow> 'a list" where
  "copy_at i bs out = take i out @ bs @ drop (i + length bs) out"

lemma length_slice [bytes_simps]: "length (slice bs a b) = min (b - a) (length bs - a)"
  by (simp add: slice_def min.commute)

lemma slice_all: "slice bs 0 (length bs) = bs"
  by (simp add: slice_def)

lemma slice_append_left: "b \<le> length xs \<Longrightarrow> slice (xs @ ys) a b = slice xs a b"
  by (cases "a \<le> b") (auto simp: slice_def)

lemma slice_append_right:
  "length xs = a \<Longrightarrow> slice (xs @ ys) (a + c) (a + b) = slice ys c b"
  by (auto simp: slice_def)

lemma slice_join:
  assumes "a \<le> b" and "b \<le> c"
  shows "slice bs a b @ slice bs b c = slice bs a c"
proof -
  have "take (b - a + (c - b)) (drop a bs) =
      take (b - a) (drop a bs) @ take (c - b) (drop (b - a) (drop a bs))"
    by (rule take_add)
  with assms show ?thesis by (simp add: slice_def)
qed

lemma length_copy_at [bytes_simps]:
  "i + length bs \<le> length out \<Longrightarrow> length (copy_at i bs out) = length out"
  by (simp add: copy_at_def)

lemma copy_at_prefix:
  "length pre = i \<Longrightarrow> length bs \<le> n \<Longrightarrow>
    copy_at i bs (pre @ replicate n z) = pre @ bs @ replicate (n - length bs) z"
  by (simp add: copy_at_def)

section \<open>Little-endian encodings\<close>

text \<open>\<open>le_bytes n w\<close> is \<open>w.to_le_bytes()\<close> for an integer of \<open>n\<close> bytes, \<open>of_le_bytes\<close> is
  \<open>from_le_bytes\<close>.\<close>

primrec le_bytes :: "nat \<Rightarrow> 'a::len word \<Rightarrow> bytes" where
  "le_bytes 0 w = []"
| "le_bytes (Suc n) w = ucast w # le_bytes n (drop_bit 8 w)"

primrec of_le_bytes :: "bytes \<Rightarrow> 'a::len word" where
  "of_le_bytes [] = 0"
| "of_le_bytes (b # bs) = ucast b OR push_bit 8 (of_le_bytes bs)"

lemma length_le_bytes [simp, bytes_simps]: "length (le_bytes n w) = n"
  by (induction n arbitrary: w) auto

lemma of_le_bytes_le_bytes_take:
  fixes w :: "'a::len word"
  shows "of_le_bytes (le_bytes n w) = take_bit (8 * n) w"
proof (induction n arbitrary: w)
  case 0
  then show ?case by simp
next
  case (Suc n)
  have "ucast (ucast w :: u8) OR push_bit 8 (take_bit (8 * n) (drop_bit 8 w)) = take_bit (8 * Suc n) w"
    by (rule bit_word_eqI) (auto simp: bit_simps)
  then show ?case by (simp add: Suc)
qed

lemma of_le_bytes_le_bytes:
  "LENGTH('a) \<le> 8 * n \<Longrightarrow> of_le_bytes (le_bytes n w) = (w :: 'a::len word)"
  by (simp add: of_le_bytes_le_bytes_take take_bit_word_eq_self)

lemma le_bytes_take_bit:
  "8 * n \<le> m \<Longrightarrow> le_bytes n (take_bit m w) = le_bytes n (w :: 'a::len word)"
proof (induction n arbitrary: m w)
  case 0
  then show ?case by simp
next
  case (Suc n)
  have "ucast (take_bit m w) = (ucast w :: u8)"
    using Suc.prems by (intro bit_word_eqI) (auto simp: bit_simps)
  moreover have "le_bytes n (take_bit (m - 8) (drop_bit 8 w)) = le_bytes n (drop_bit 8 w)"
    using Suc.prems by (intro Suc.IH) simp
  ultimately show ?case by (simp add: drop_bit_take_bit)
qed

lemma le_bytes_of_le_bytes:
  "8 * length bs \<le> LENGTH('a) \<Longrightarrow> le_bytes (length bs) (of_le_bytes bs :: 'a::len word) = bs"
proof (induction bs)
  case Nil
  then show ?case by simp
next
  case (Cons b bs)
  let ?w = "of_le_bytes bs :: 'a word"
  have low: "ucast (ucast b OR push_bit 8 ?w :: 'a word) = b"
    using Cons.prems by (intro bit_word_eqI) (auto simp: bit_simps)
  have "drop_bit 8 (ucast b OR push_bit 8 ?w :: 'a word) = take_bit (LENGTH('a) - 8) ?w"
    by (rule bit_word_eqI) (auto simp: bit_simps dest: bit_imp_le_length)
  then have high: "le_bytes (length bs) (drop_bit 8 (ucast b OR push_bit 8 ?w :: 'a word)) =
      le_bytes (length bs) ?w"
    using Cons.prems by (simp add: le_bytes_take_bit)
  show ?case using Cons low high by simp
qed

section \<open>Strings\<close>

text \<open>A \<open>String\<close> or \<open>&str\<close> is the HOL \<open>string\<close> of its UTF-8 bytes, one \<open>char\<close> per byte;
  \<open>as_bytes\<close> reads the bytes and \<open>from_utf8\<close> is \<open>String::from_utf8\<close>, with the byte
  ranges of well-formed UTF-8 (no overlong forms, no surrogates, at most U+10FFFF).\<close>

definition byte_of_char :: "char \<Rightarrow> u8" where
  "byte_of_char c = word_of_nat (of_char c)"

definition char_of_byte :: "u8 \<Rightarrow> char" where
  "char_of_byte b = char_of (unat b)"

definition as_bytes :: "string \<Rightarrow> bytes" where
  "as_bytes s = map byte_of_char s"

definition utf8_cont :: "u8 \<Rightarrow> bool" where
  "utf8_cont b \<longleftrightarrow> 0x80 \<le> b \<and> b \<le> 0xBF"

definition utf8_second3 :: "u8 \<Rightarrow> u8 \<Rightarrow> bool" where
  "utf8_second3 b0 b1 \<longleftrightarrow>
     (if b0 = 0xE0 then 0xA0 \<le> b1 \<and> b1 \<le> 0xBF
      else if b0 = 0xED then 0x80 \<le> b1 \<and> b1 \<le> 0x9F
      else 0xE1 \<le> b0 \<and> b0 \<le> 0xEF \<and> utf8_cont b1)"

definition utf8_second4 :: "u8 \<Rightarrow> u8 \<Rightarrow> bool" where
  "utf8_second4 b0 b1 \<longleftrightarrow>
     (if b0 = 0xF0 then 0x90 \<le> b1 \<and> b1 \<le> 0xBF
      else if b0 = 0xF4 then 0x80 \<le> b1 \<and> b1 \<le> 0x8F
      else 0xF1 \<le> b0 \<and> b0 \<le> 0xF3 \<and> utf8_cont b1)"

fun utf8_valid :: "bytes \<Rightarrow> bool" where
  "utf8_valid [] = True"
| "utf8_valid (b0 # r0) =
     (if b0 < 0x80 then utf8_valid r0
      else (case r0 of
        [] \<Rightarrow> False
      | b1 # r1 \<Rightarrow>
         (if 0xC2 \<le> b0 \<and> b0 \<le> 0xDF then utf8_cont b1 \<and> utf8_valid r1
          else (case r1 of
            [] \<Rightarrow> False
          | b2 # r2 \<Rightarrow>
             (if utf8_second3 b0 b1 then utf8_cont b2 \<and> utf8_valid r2
              else (case r2 of
                [] \<Rightarrow> False
              | b3 # r3 \<Rightarrow> utf8_second4 b0 b1 \<and> utf8_cont b2 \<and> utf8_cont b3 \<and> utf8_valid r3))))))"

definition from_utf8 :: "bytes \<Rightarrow> string option" where
  "from_utf8 bs = (if utf8_valid bs then Some (map char_of_byte bs) else None)"

text \<open>A HOL \<open>string\<close> is a Rust string when its bytes are UTF-8.\<close>

definition is_str :: "string \<Rightarrow> bool" where
  "is_str s \<longleftrightarrow> utf8_valid (as_bytes s)"

lemma char_of_byte_of_char [simp]: "char_of_byte (byte_of_char c) = c"
proof -
  have "unat (word_of_nat (of_char c) :: u8) = of_char c"
    by (simp add: unat_of_nat)
  then show ?thesis by (simp add: char_of_byte_def byte_of_char_def)
qed

lemma byte_of_char_of_byte [simp]: "byte_of_char (char_of_byte b) = b"
  using unat_bound [of b] by (simp add: char_of_byte_def byte_of_char_def)

lemma length_as_bytes [simp, bytes_simps]: "length (as_bytes s) = length s"
  by (simp add: as_bytes_def)

lemma from_utf8_as_bytes: "is_str s \<Longrightarrow> from_utf8 (as_bytes s) = Some s"
  by (simp add: from_utf8_def is_str_def as_bytes_def comp_def)

lemma from_utf8_Some_iff: "from_utf8 bs = Some s \<longleftrightarrow> as_bytes s = bs \<and> is_str s"
  by (auto simp: from_utf8_def is_str_def as_bytes_def comp_def)

lemma ascii_is_str: "list_all (\<lambda>c. (of_char c :: nat) < 128) s \<Longrightarrow> is_str s"
proof -
  have "utf8_valid bs" if "\<forall>b\<in>set bs. b < 0x80" for bs :: bytes
    using that by (induction bs) simp_all
  moreover have "byte_of_char c < 0x80" if "(of_char c :: nat) < 128" for c
    using that by (simp add: byte_of_char_def word_less_nat_alt unat_of_nat)
  ultimately show "is_str s" if "list_all (\<lambda>c. (of_char c :: nat) < 128) s"
    using that by (auto simp: is_str_def as_bytes_def list_all_iff)
qed

section \<open>The compilation target\<close>

text \<open>The width of \<open>usize\<close>, whether the allocator can reserve a given number of bytes
  (\<open>try_reserve_exact\<close>) and the target's \<open>cfg\<close> values are not fixed by the sources, so they
  are arguments. \<open>usize\<close> values are natural numbers below \<open>2 ^ ptr_width\<close>.\<close>

record target =
  ptr_width :: nat
  reserve_ok :: "nat \<Rightarrow> bool"
  target_arch :: string
  target_os :: string
  target_vendor :: string

definition usize_try_from :: "target \<Rightarrow> 'a::len word \<Rightarrow> nat option" where
  "usize_try_from t w = (if unat w < 2 ^ ptr_width t then Some (unat w) else None)"

text \<open>The targets the standard library supports for this crate have 32- or 64-bit pointers.\<close>

definition supported_target :: "target \<Rightarrow> bool" where
  "supported_target t \<longleftrightarrow> ptr_width t = 32 \<or> ptr_width t = 64"

definition u64_try_from_usize :: "nat \<Rightarrow> u64 option" where
  "u64_try_from_usize n = (if n < 2 ^ 64 then Some (word_of_nat n) else None)"

lemma usize_try_from_Some_iff [checked_simps]:
  "usize_try_from t w = Some n \<longleftrightarrow> n = unat w \<and> unat w < 2 ^ ptr_width t"
  by (auto simp: usize_try_from_def)

lemma usize_try_from_small:
  assumes "supported_target t" and "unat w = n" and "n < 2 ^ 32"
  shows "usize_try_from t w = Some n"
  using assms by (auto simp: usize_try_from_def supported_target_def)

lemma u64_try_from_usize_Some_iff [checked_simps]:
  "u64_try_from_usize n = Some w \<longleftrightarrow> unat w = n"
  using unat_bound [of w] by (auto simp: u64_try_from_usize_def unat_of_nat)

text \<open>A 64-bit macOS host and a 64-bit Linux host, for concrete runs.\<close>

definition mac_target :: target where
  "mac_target = \<lparr>ptr_width = 64, reserve_ok = (\<lambda>_. True), target_arch = ''aarch64'',
     target_os = ''macos'', target_vendor = ''apple''\<rparr>"

definition linux_target :: target where
  "linux_target = \<lparr>ptr_width = 64, reserve_ok = (\<lambda>_. True), target_arch = ''x86_64'',
     target_os = ''linux'', target_vendor = ''unknown''\<rparr>"

end
