(* ===== verification/Vf_Abi.thy ===== *)
theory Vf_Abi
  imports Apls_Prelude
begin

text \<open>
  The VSK service-cell ABI of \<open>src/vf_abi.rs\<close>: the wire constants, \<open>VfError\<close>, the 64-byte
  message envelope \<open>VfMsgHeader\<close> with its little-endian copy-in and copy-out, the inline
  shape check \<open>validate_shape\<close> and the payload bounds \<open>payload_end\<close>. The lemmas show the
  byte-level round trips in both directions and characterise every accepted and rejected
  header.
\<close>

section \<open>Wire constants\<close>

definition VF_MSG_MAGIC :: u32 where [simp]: "VF_MSG_MAGIC = 0x314D4656"
definition VF_ABI_MAJOR :: u16 where [simp]: "VF_ABI_MAJOR = 1"
definition VF_MSG_BYTES :: u32 where [simp]: "VF_MSG_BYTES = 64"
definition VF_PAYLOAD_MAX :: u32 where [simp]: "VF_PAYLOAD_MAX = 16777216"

definition VF_FAMILY_ROOT :: u16 where [simp]: "VF_FAMILY_ROOT = 1"
definition VF_FAMILY_BLOCK :: u16 where [simp]: "VF_FAMILY_BLOCK = 2"
definition VF_FAMILY_SGPU :: u16 where [simp]: "VF_FAMILY_SGPU = 3"

definition VF_OP_CAP_DUP_RESTRICTED :: u16 where [simp]: "VF_OP_CAP_DUP_RESTRICTED = 1"
definition VF_OP_GRANT_CREATE :: u16 where [simp]: "VF_OP_GRANT_CREATE = 2"
definition VF_OP_GRANT_REVOKE :: u16 where [simp]: "VF_OP_GRANT_REVOKE = 3"
definition VF_OP_CELL_NOTIFY :: u16 where [simp]: "VF_OP_CELL_NOTIFY = 4"
definition VF_OP_DEVICE_MAP_MMIO :: u16 where [simp]: "VF_OP_DEVICE_MAP_MMIO = 5"
definition VF_OP_DEVICE_DMA_MAP :: u16 where [simp]: "VF_OP_DEVICE_DMA_MAP = 6"
definition VF_OP_DEVICE_DMA_UNMAP :: u16 where [simp]: "VF_OP_DEVICE_DMA_UNMAP = 7"
definition VF_OP_DEVICE_IRQ_BIND :: u16 where [simp]: "VF_OP_DEVICE_IRQ_BIND = 8"
definition VF_OP_DEVICE_QUIESCE_RESET :: u16 where [simp]: "VF_OP_DEVICE_QUIESCE_RESET = 9"

definition VF_BLOCK_READ :: u16 where [simp]: "VF_BLOCK_READ = 1"
definition VF_BLOCK_WRITE :: u16 where [simp]: "VF_BLOCK_WRITE = 2"
definition VF_BLOCK_FLUSH :: u16 where [simp]: "VF_BLOCK_FLUSH = 3"

definition VF_SGPU_QUERY_CAPS :: u16 where [simp]: "VF_SGPU_QUERY_CAPS = 1"
definition VF_SGPU_CREATE_RESOURCE :: u16 where [simp]: "VF_SGPU_CREATE_RESOURCE = 2"
definition VF_SGPU_DESTROY_RESOURCE :: u16 where [simp]: "VF_SGPU_DESTROY_RESOURCE = 3"
definition VF_SGPU_CREATE_PIPELINE :: u16 where [simp]: "VF_SGPU_CREATE_PIPELINE = 4"
definition VF_SGPU_SUBMIT_COMMAND_LIST :: u16 where [simp]: "VF_SGPU_SUBMIT_COMMAND_LIST = 5"
definition VF_SGPU_QUERY_OR_WAIT_TIMELINE :: u16 where
  [simp]: "VF_SGPU_QUERY_OR_WAIT_TIMELINE = 6"
definition VF_SGPU_PRESENT :: u16 where [simp]: "VF_SGPU_PRESENT = 7"

section \<open>Errors and the envelope\<close>

datatype vf_error =
    Vf_Einval
  | Vf_Eabi string
  | Vf_Enotsup
  | Vf_Eperm
  | Vf_Erange
  | Vf_Ebusy
  | Vf_Enoent

record vf_msg_header =
  magic :: u32
  abi_major :: u16
  header_bytes :: u16
  message_bytes :: u32
  family :: u16
  opcode :: u16
  request_id :: u64
  object :: u64
  payload_grant :: u64
  payload_offset :: u64
  payload_bytes :: u32
  flags :: u32
  reserved0 :: u64

definition header_default :: vf_msg_header where
  "header_default = \<lparr>magic = VF_MSG_MAGIC, abi_major = VF_ABI_MAJOR,
     header_bytes = ucast VF_MSG_BYTES, message_bytes = VF_MSG_BYTES, family = 0, opcode = 0,
     request_id = 0, object = 0, payload_grant = 0, payload_offset = 0,
     payload_bytes = 0, flags = 0, reserved0 = 0\<rparr>"

definition header_new :: "u16 \<Rightarrow> u16 \<Rightarrow> vf_msg_header" where
  "header_new fam op = header_default\<lparr>family := fam, opcode := op\<rparr>"

definition HEADER_SIZE :: nat where [simp]: "HEADER_SIZE = 64"

section \<open>Copy-in and copy-out\<close>

definition header_decode :: "bytes \<Rightarrow> (vf_msg_header, vf_error) result" where
  "header_decode bs =
     (if length bs \<noteq> HEADER_SIZE then Err Vf_Erange
      else Ok (header_default
        \<lparr>magic := of_le_bytes (slice bs 0 4),
         abi_major := of_le_bytes (slice bs 4 6),
         header_bytes := of_le_bytes (slice bs 6 8),
         message_bytes := of_le_bytes (slice bs 8 12),
         family := of_le_bytes (slice bs 12 14),
         opcode := of_le_bytes (slice bs 14 16),
         request_id := of_le_bytes (slice bs 16 24),
         object := of_le_bytes (slice bs 24 32),
         payload_grant := of_le_bytes (slice bs 32 40),
         payload_offset := of_le_bytes (slice bs 40 48),
         payload_bytes := of_le_bytes (slice bs 48 52),
         flags := of_le_bytes (slice bs 52 56),
         reserved0 := of_le_bytes (slice bs 56 64)\<rparr>))"

definition header_encode :: "vf_msg_header \<Rightarrow> bytes" where
  "header_encode h =
     (let out = replicate 64 0;
          out = copy_at 0 (le_bytes 4 (magic h)) out;
          out = copy_at 4 (le_bytes 2 (abi_major h)) out;
          out = copy_at 6 (le_bytes 2 (header_bytes h)) out;
          out = copy_at 8 (le_bytes 4 (message_bytes h)) out;
          out = copy_at 12 (le_bytes 2 (family h)) out;
          out = copy_at 14 (le_bytes 2 (opcode h)) out;
          out = copy_at 16 (le_bytes 8 (request_id h)) out;
          out = copy_at 24 (le_bytes 8 (object h)) out;
          out = copy_at 32 (le_bytes 8 (payload_grant h)) out;
          out = copy_at 40 (le_bytes 8 (payload_offset h)) out;
          out = copy_at 48 (le_bytes 4 (payload_bytes h)) out;
          out = copy_at 52 (le_bytes 4 (flags h)) out;
          out = copy_at 56 (le_bytes 8 (reserved0 h)) out
      in out)"

section \<open>Shape and payload bounds\<close>

definition validate_shape :: "vf_msg_header \<Rightarrow> (unit, vf_error) result" where
  "validate_shape h =
     (if magic h \<noteq> VF_MSG_MAGIC then Err (Vf_Eabi ''bad magic'')
      else if abi_major h \<noteq> VF_ABI_MAJOR then Err (Vf_Eabi ''unsupported abi major'')
      else if header_bytes h \<noteq> ucast VF_MSG_BYTES then Err (Vf_Eabi ''bad header size'')
      else if message_bytes h < VF_MSG_BYTES then Err (Vf_Eabi ''message smaller than header'')
      else if payload_bytes h > VF_PAYLOAD_MAX then Err Vf_Erange
      else if family h = VF_FAMILY_ROOT \<or> family h = VF_FAMILY_BLOCK \<or> family h = VF_FAMILY_SGPU
        then Ok ()
      else Err (Vf_Eabi ''unknown family''))"

definition payload_end :: "vf_msg_header \<Rightarrow> (u64, vf_error) result" where
  "payload_end h =
     bindE (ok_or (checked_add (payload_offset h) (ucast (payload_bytes h))) Vf_Erange) (\<lambda>end'.
     bindE (ok_or (checked_sub (ucast (message_bytes h)) (ucast VF_MSG_BYTES))
              (Vf_Eabi ''bad message size'')) (\<lambda>message_payload_end.
     if end' > message_payload_end then Err Vf_Erange else Ok end'))"

section \<open>Byte layout of the envelope\<close>

lemma header_encode_concat:
  "header_encode h =
     le_bytes 4 (magic h) @ le_bytes 2 (abi_major h) @ le_bytes 2 (header_bytes h) @
     le_bytes 4 (message_bytes h) @ le_bytes 2 (family h) @ le_bytes 2 (opcode h) @
     le_bytes 8 (request_id h) @ le_bytes 8 (object h) @ le_bytes 8 (payload_grant h) @
     le_bytes 8 (payload_offset h) @ le_bytes 4 (payload_bytes h) @ le_bytes 4 (flags h) @
     le_bytes 8 (reserved0 h)"
  unfolding header_encode_def Let_def copy_at_def
  by (simp add: drop_replicate)

lemma length_header_encode [simp, bytes_simps]: "length (header_encode h) = 64"
  by (simp add: header_encode_concat)

lemma le_bytes_of_slice:
  assumes "j \<le> length bs" and "j - i = n" and "8 * n \<le> LENGTH('a)"
  shows "le_bytes n (of_le_bytes (slice bs i j) :: 'a::len word) = slice bs i j"
  using assms le_bytes_of_le_bytes [of "slice bs i j", where ?'a = 'a]
  by (auto simp: length_slice)

lemma header_decode_Inr_iff:
  "header_decode bs = Inr h \<longleftrightarrow> length bs = 64 \<and> header_encode h = bs"
proof
  assume "header_decode bs = Inr h"
  then have len: "length bs = 64" and h: "h = header_default
      \<lparr>magic := of_le_bytes (slice bs 0 4), abi_major := of_le_bytes (slice bs 4 6),
       header_bytes := of_le_bytes (slice bs 6 8), message_bytes := of_le_bytes (slice bs 8 12),
       family := of_le_bytes (slice bs 12 14), opcode := of_le_bytes (slice bs 14 16),
       request_id := of_le_bytes (slice bs 16 24), object := of_le_bytes (slice bs 24 32),
       payload_grant := of_le_bytes (slice bs 32 40),
       payload_offset := of_le_bytes (slice bs 40 48),
       payload_bytes := of_le_bytes (slice bs 48 52), flags := of_le_bytes (slice bs 52 56),
       reserved0 := of_le_bytes (slice bs 56 64)\<rparr>"
    by (auto simp: header_decode_def split: if_splits)
  have "header_encode h = slice bs 0 64"
    by (simp add: header_encode_concat h len le_bytes_of_slice slice_join)
  with len show "length bs = 64 \<and> header_encode h = bs"
    using slice_all [of bs] by simp
next
  assume "length bs = 64 \<and> header_encode h = bs"
  then have "bs = header_encode h" by simp
  then show "header_decode bs = Inr h"
    by (simp add: header_decode_def header_encode_concat slice_def of_le_bytes_le_bytes
        header_default_def)
qed

lemma header_decode_encode [simp]: "header_decode (header_encode h) = Inr h"
  by (simp add: header_decode_Inr_iff)

lemma header_decode_Inl_iff: "header_decode bs = Inl e \<longleftrightarrow> length bs \<noteq> 64 \<and> e = Vf_Erange"
  by (auto simp: header_decode_def)

lemma header_encode_inject: "header_encode h = header_encode h' \<longleftrightarrow> h = h'"
  by (metis header_decode_encode sum.inject(2))

section \<open>Accepted headers\<close>

lemma validate_shape_Inr_iff:
  "validate_shape h = Inr u \<longleftrightarrow>
     magic h = VF_MSG_MAGIC \<and> abi_major h = VF_ABI_MAJOR \<and> header_bytes h = 64 \<and>
     64 \<le> unat (message_bytes h) \<and> unat (payload_bytes h) \<le> 16777216 \<and>
     family h \<in> {VF_FAMILY_ROOT, VF_FAMILY_BLOCK, VF_FAMILY_SGPU}"
  by (auto simp: validate_shape_def word_less_nat_alt not_less)

lemma payload_end_eq:
  "payload_end h =
     (if 2 ^ 64 \<le> unat (payload_offset h) + unat (payload_bytes h) then Err Vf_Erange
      else if unat (message_bytes h) < 64 then Err (Vf_Eabi ''bad message size'')
      else if unat (message_bytes h) < 64 + unat (payload_offset h) + unat (payload_bytes h)
        then Err Vf_Erange
      else Ok (payload_offset h + ucast (payload_bytes h)))"
proof -
  let ?sum = "payload_offset h + ucast (payload_bytes h)"
  let ?room = "ucast (message_bytes h) - 64 :: u64"
  have "unat ?sum = unat (payload_offset h) + unat (payload_bytes h)"
    if "unat (payload_offset h) + unat (payload_bytes h) < 2 ^ 64"
    using that by (simp add: unat_word_ariths)
  moreover have "unat ?room = unat (message_bytes h) - 64" if "64 \<le> unat (message_bytes h)"
    using that by (simp add: unat_sub word_le_nat_alt)
  ultimately show ?thesis
    unfolding payload_end_def checked_add_def checked_sub_def
    by (auto simp: word_le_nat_alt word_less_nat_alt not_less)
qed

lemma payload_end_Inr_iff:
  "payload_end h = Inr e \<longleftrightarrow>
     unat e = unat (payload_offset h) + unat (payload_bytes h) \<and>
     unat e + 64 \<le> unat (message_bytes h)"
proof -
  have "unat e < 2 ^ 64" by (rule order_less_le_trans [OF unat_bound]) simp
  then show ?thesis
    by (auto simp: payload_end_eq unat_word_ariths word_unat_eq_iff)
qed

section \<open>Properties\<close>

text \<open>The 64-byte envelope is a bijective encoding. A byte string decodes to a header
  exactly when it is that header's encoding, the encoding is 64 bytes long, and every other
  byte string is rejected with \<open>Erange\<close>.\<close>

theorem envelope_roundtrip:
  "(header_decode bs = Inr h \<longleftrightarrow> bs = header_encode h) \<and>
   (header_decode bs = Inl e \<longleftrightarrow> length bs \<noteq> 64 \<and> e = Vf_Erange) \<and>
   length (header_encode h) = 64"
  by (auto simp: header_decode_Inr_iff header_decode_Inl_iff)

text \<open>\<open>payload_end\<close> computes the exact end of the payload in the inline body and
  accepts it exactly when header, offset and payload together fit the declared message; the
  64-bit addition never wraps, and the two error values are told apart.\<close>

theorem payload_end_exact:
  "case payload_end h of
     Inr e \<Rightarrow> unat e = unat (payload_offset h) + unat (payload_bytes h) \<and>
       64 + unat e \<le> unat (message_bytes h)
   | Inl er \<Rightarrow> unat (message_bytes h) < 64 + unat (payload_offset h) + unat (payload_bytes h) \<and>
       er = (if unat (payload_offset h) + unat (payload_bytes h) < 2 ^ 64 \<and>
                unat (message_bytes h) < 64
             then Vf_Eabi ''bad message size'' else Vf_Erange)"
  using unat_u32_bound [of "message_bytes h"]
  by (auto simp: payload_end_eq unat_word_ariths)

end
