(* ===== verification/Wire_Codec.thy ===== *)
theory Wire_Codec
  imports Vf_Abi
begin

text \<open>
  The contract of a byte format whose decoder accepts exactly what its encoder writes. The
  envelope of \<open>Vf_Abi\<close> provides it here, the serialized launch plan in \<open>Guest_Plan\<close>; the
  clients use it for injectivity and for the rejection of everything that is not canonical.
\<close>

locale wire_codec =
  fixes wf :: "'a \<Rightarrow> bool"
    and enc :: "'a \<Rightarrow> bytes"
    and dec :: "bytes \<Rightarrow> 'a option"
  assumes dec_enc: "wf x \<Longrightarrow> dec (enc x) = Some x"
    and enc_dec: "dec bs = Some x \<Longrightarrow> wf x \<and> enc x = bs"
begin

lemma enc_inject: "wf x \<Longrightarrow> wf y \<Longrightarrow> enc x = enc y \<longleftrightarrow> x = y"
  by (metis dec_enc option.inject)

lemma accepted_iff: "(\<exists>x. dec bs = Some x) \<longleftrightarrow> bs \<in> enc ` {x. wf x}"
  using dec_enc enc_dec by (auto simp: image_iff)

lemma dec_inject: "dec bs = Some x \<Longrightarrow> dec bs' = Some x \<Longrightarrow> bs = bs'"
  using enc_dec by blast

end

text \<open>A format whose messages all have one length: no other length is accepted.\<close>

locale fixed_codec = wire_codec +
  fixes n :: nat
  assumes length_enc: "length (enc x) = n"
begin

lemma accepted_length: "dec bs = Some x \<Longrightarrow> length bs = n"
  using enc_dec length_enc by blast

lemma other_length_rejected: "length bs \<noteq> n \<Longrightarrow> dec bs = None"
  using accepted_length by (cases "dec bs") auto

end

definition header_decode_opt :: "bytes \<Rightarrow> vf_msg_header option" where
  "header_decode_opt bs = (case header_decode bs of Inl _ \<Rightarrow> None | Inr h \<Rightarrow> Some h)"

lemma header_decode_opt_Some_iff: "header_decode_opt bs = Some h \<longleftrightarrow> header_decode bs = Inr h"
  by (auto simp: header_decode_opt_def split: sum.splits)

interpretation envelope: fixed_codec "\<lambda>_. True" header_encode header_decode_opt 64
  by unfold_locales (auto simp: header_decode_opt_Some_iff header_decode_Inr_iff)

end
