(* ===== verification/Sgpu_Frame.thy ===== *)
theory Sgpu_Frame
  imports Wire_Codec
begin

text \<open>
  The inline SGPU frame of \<open>src/sgpu.rs\<close>: \<open>SgpuError\<close>, \<open>SgpuFrame\<close> with its layout check
  \<open>frame_layout\<close>, the fallible and the panicking encoder, the decoder and \<open>validate\<close>. The
  lemmas bound the layout, show that the \<open>usize\<close> conversions never fail on a supported
  target, and characterise the accepted wire messages.
\<close>

section \<open>Errors\<close>

datatype sgpu_error =
    ResourceNotFound u64
  | ResourceExists u64
  | Gpu string
  | Vf vf_error
  | Payload
  | ResourceLimit

section \<open>Frames\<close>

record sgpu_frame =
  header :: vf_msg_header
  payload :: bytes

definition frame_layout :: "target \<Rightarrow> vf_msg_header \<Rightarrow> (nat \<times> nat \<times> nat, sgpu_error) result" where
  "frame_layout t h =
     bindE (map_err Vf (validate_shape h)) (\<lambda>_.
     if family h \<noteq> VF_FAMILY_SGPU then Err (Vf (Vf_Eabi ''not an SGPU family frame''))
     else if (ucast (message_bytes h) :: u64) > ucast VF_MSG_BYTES + ucast VF_PAYLOAD_MAX
       then Err (Vf Vf_Erange)
     else
     bindE (map_err Vf (payload_end h)) (\<lambda>payload_end'.
     bindE (ok_or (checked_add (ucast VF_MSG_BYTES) (payload_offset h)) (Vf Vf_Erange)) (\<lambda>start.
     bindE (ok_or (checked_add (ucast VF_MSG_BYTES) payload_end') (Vf Vf_Erange)) (\<lambda>end'.
     bindE (ok_or (usize_try_from t (message_bytes h)) (Vf Vf_Erange)) (\<lambda>total.
     bindE (ok_or (usize_try_from t start) (Vf Vf_Erange)) (\<lambda>start.
     bindE (ok_or (usize_try_from t end') (Vf Vf_Erange)) (\<lambda>end'.
     if end' > total then Err Payload else Ok (total, start, end'))))))))"

definition frame_validate :: "target \<Rightarrow> sgpu_frame \<Rightarrow> (unit, sgpu_error) result" where
  "frame_validate t f =
     bindE (frame_layout t (header f)) (\<lambda>(_, start, end').
     if length (payload f) \<noteq> end' - start then Err Payload else Ok ())"

definition try_to_wire :: "target \<Rightarrow> sgpu_frame \<Rightarrow> (bytes, sgpu_error) result" where
  "try_to_wire t f =
     bindE (frame_validate t f) (\<lambda>_.
     bindE (frame_layout t (header f)) (\<lambda>(total, start, end').
     if \<not> reserve_ok t total then Err ResourceLimit
     else
       (let out = replicate total 0;
            out = copy_at 0 (header_encode (header f)) out;
            out = copy_at start (payload f) out
        in Ok out)))"

definition to_wire :: "target \<Rightarrow> sgpu_frame \<Rightarrow> bytes outcome" where
  "to_wire t f = (case try_to_wire t f of Inr w \<Rightarrow> Returned w | Inl _ \<Rightarrow> Panicked)"

definition from_wire :: "target \<Rightarrow> bytes \<Rightarrow> (sgpu_frame, sgpu_error) result" where
  "from_wire t bs =
     bindE (ok_or (get_range bs 0 (unat VF_MSG_BYTES)) Payload) (\<lambda>raw_header.
     bindE (map_err Vf (header_decode raw_header)) (\<lambda>h.
     bindE (frame_layout t h) (\<lambda>(total, start, end').
     if length bs \<noteq> total then Err Payload
     else
     bindE (ok_or (get_range bs start end') Payload) (\<lambda>source.
     if \<not> reserve_ok t (length source) then Err ResourceLimit
     else Ok \<lparr>header = h, payload = source\<rparr>))))"

section \<open>The layout\<close>

text \<open>What an accepted layout promises, without reference to a target.\<close>

definition inline_header :: "vf_msg_header \<Rightarrow> bool" where
  "inline_header h \<longleftrightarrow>
     magic h = VF_MSG_MAGIC \<and> abi_major h = VF_ABI_MAJOR \<and> header_bytes h = 64 \<and>
     family h = VF_FAMILY_SGPU \<and> unat (message_bytes h) \<le> 64 + 16777216 \<and>
     64 + unat (payload_offset h) + unat (payload_bytes h) \<le> unat (message_bytes h)"

lemma inline_headerD:
  assumes "inline_header h"
  shows "validate_shape h = Inr ()"
    and "payload_end h = Inr (payload_offset h + ucast (payload_bytes h))"
    and "unat (payload_offset h + ucast (payload_bytes h)) =
      unat (payload_offset h) + unat (payload_bytes h)"
proof -
  show "validate_shape h = Inr ()"
    using assms by (auto simp: inline_header_def validate_shape_Inr_iff)
  show "unat (payload_offset h + ucast (payload_bytes h)) =
      unat (payload_offset h) + unat (payload_bytes h)"
    using assms by (auto simp: inline_header_def unat_word_ariths)
  then show "payload_end h = Inr (payload_offset h + ucast (payload_bytes h))"
    using assms by (auto simp: inline_header_def payload_end_Inr_iff)
qed

lemma frame_layout_Inr_iff:
  assumes t: "supported_target t"
  shows "frame_layout t h = Inr (tot, start, end') \<longleftrightarrow>
     inline_header h \<and> tot = unat (message_bytes h) \<and> start = 64 + unat (payload_offset h) \<and>
     end' = start + unat (payload_bytes h)"
proof
  assume "frame_layout t h = Inr (tot, start, end')"
  then show "inline_header h \<and> tot = unat (message_bytes h) \<and>
      start = 64 + unat (payload_offset h) \<and> end' = start + unat (payload_bytes h)"
    unfolding frame_layout_def
    by (auto simp: result_simps checked_simps validate_shape_Inr_iff payload_end_Inr_iff
        inline_header_def word_less_nat_alt not_less split: if_splits)
next
  assume r: "inline_header h \<and> tot = unat (message_bytes h) \<and>
      start = 64 + unat (payload_offset h) \<and> end' = start + unat (payload_bytes h)"
  let ?e = "payload_offset h + ucast (payload_bytes h)"
  have h: "inline_header h" and e: "unat ?e = unat (payload_offset h) + unat (payload_bytes h)"
    using r inline_headerD by auto
  have sums: "unat (64 + payload_offset h) = 64 + unat (payload_offset h)"
    "unat (64 + ?e) = 64 + unat ?e"
    using h e by (auto simp: inline_header_def unat_word_ariths)
  have adds: "checked_add 64 (payload_offset h) = Some (64 + payload_offset h)"
    "checked_add 64 ?e = Some (64 + ?e)"
    using sums by (simp_all add: checked_simps)
  have convs: "usize_try_from t (message_bytes h) = Some (unat (message_bytes h))"
    "usize_try_from t (64 + payload_offset h) = Some (64 + unat (payload_offset h))"
    "usize_try_from t (64 + ?e) = Some (64 + unat ?e)"
    using h sums e
    by (intro usize_try_from_small [OF t]; simp add: inline_header_def)+
  show "frame_layout t h = Inr (tot, start, end')"
    unfolding frame_layout_def
    using r h sums e
    by (simp add: inline_headerD adds convs) (simp add: inline_header_def word_less_nat_alt)
qed

lemma frame_layout_accepts:
  "supported_target t \<Longrightarrow> (\<exists>l. frame_layout t h = Inr l) \<longleftrightarrow> inline_header h"
  by (auto simp: frame_layout_Inr_iff)

lemma frame_layout_inline:
  "supported_target t \<Longrightarrow> inline_header h \<Longrightarrow> frame_layout t h =
     Inr (unat (message_bytes h), 64 + unat (payload_offset h),
          64 + unat (payload_offset h) + unat (payload_bytes h))"
  by (simp add: frame_layout_Inr_iff)

section \<open>Wire messages\<close>

definition valid_frame :: "sgpu_frame \<Rightarrow> bool" where
  "valid_frame f \<longleftrightarrow> inline_header (header f) \<and>
     length (payload f) = unat (payload_bytes (header f))"

text \<open>The wire message with explicit padding before and after the payload.\<close>

definition padded_wire :: "sgpu_frame \<Rightarrow> bytes \<Rightarrow> bytes \<Rightarrow> bytes" where
  "padded_wire f pre post = header_encode (header f) @ pre @ payload f @ post"

definition pad_lengths :: "sgpu_frame \<Rightarrow> bytes \<Rightarrow> bytes \<Rightarrow> bool" where
  "pad_lengths f pre post \<longleftrightarrow>
     length pre = unat (payload_offset (header f)) \<and>
     64 + length pre + length (payload f) + length post = unat (message_bytes (header f))"

definition zero_pads :: "sgpu_frame \<Rightarrow> bytes \<times> bytes" where
  "zero_pads f =
     (replicate (unat (payload_offset (header f))) 0,
      replicate (unat (message_bytes (header f)) - 64 - unat (payload_offset (header f)) -
        length (payload f)) 0)"

lemma frame_validate_Inr_iff:
  "supported_target t \<Longrightarrow> frame_validate t f = Inr u \<longleftrightarrow> valid_frame f"
  by (auto simp: frame_validate_def result_simps frame_layout_Inr_iff valid_frame_def)

lemma valid_frame_bounds:
  assumes "valid_frame f"
  shows "64 + unat (payload_offset (header f)) + length (payload f) \<le> unat (message_bytes (header f))"
    and "length (payload f) \<le> 16777216"
  using assms by (auto simp: valid_frame_def inline_header_def)

lemma pad_lengths_zero_pads:
  "valid_frame f \<Longrightarrow> pad_lengths f (fst (zero_pads f)) (snd (zero_pads f))"
  using valid_frame_bounds [of f] by (simp add: pad_lengths_def zero_pads_def)

lemma length_padded_wire:
  "pad_lengths f pre post \<Longrightarrow> length (padded_wire f pre post) = unat (message_bytes (header f))"
  by (simp add: padded_wire_def pad_lengths_def)

lemma try_to_wire_Inr_iff:
  assumes t: "supported_target t"
  shows "try_to_wire t f = Inr w \<longleftrightarrow>
     valid_frame f \<and> reserve_ok t (unat (message_bytes (header f))) \<and>
     w = padded_wire f (fst (zero_pads f)) (snd (zero_pads f))"
proof (cases "valid_frame f")
  case True
  let ?n = "unat (message_bytes (header f))" and ?off = "unat (payload_offset (header f))"
  have h: "inline_header (header f)" and len: "length (payload f) = unat (payload_bytes (header f))"
    using True by (auto simp: valid_frame_def)
  have n: "64 + ?off + length (payload f) \<le> ?n" by (rule valid_frame_bounds) (rule True)
  have "copy_at 0 (header_encode (header f)) (replicate ?n 0) =
      header_encode (header f) @ replicate (?n - 64) (0 :: u8)"
    using n copy_at_prefix [of "[]" 0 "header_encode (header f)" ?n 0] by simp
  also have "replicate (?n - 64) (0 :: u8) = replicate ?off 0 @ replicate (?n - 64 - ?off) 0"
    using n by (simp flip: replicate_add)
  finally have "copy_at (64 + ?off) (payload f) (copy_at 0 (header_encode (header f)) (replicate ?n 0)) =
      padded_wire f (fst (zero_pads f)) (snd (zero_pads f))"
    using n copy_at_prefix [of "header_encode (header f) @ replicate ?off 0" "64 + ?off" "payload f"
        "?n - 64 - ?off" 0]
    by (simp add: padded_wire_def zero_pads_def)
  moreover have "frame_validate t f = Inr ()"
    using True by (simp add: frame_validate_Inr_iff t)
  ultimately show ?thesis
    using True by (auto simp: try_to_wire_def frame_layout_inline [OF t h] Let_def)
next
  case False
  then show ?thesis
    by (auto simp: try_to_wire_def result_simps frame_validate_Inr_iff t)
qed

lemma from_wire_padded:
  assumes t: "supported_target t" and f: "valid_frame f" and pad: "pad_lengths f pre post"
    and r: "reserve_ok t (length (payload f))"
  shows "from_wire t (padded_wire f pre post) = Inr f"
proof -
  let ?w = "padded_wire f pre post"
  have h: "inline_header (header f)" and len: "length (payload f) = unat (payload_bytes (header f))"
    using f by (auto simp: valid_frame_def)
  have "get_range ?w 0 64 = Some (header_encode (header f))"
    by (simp add: get_range_def slice_def padded_wire_def)
  moreover have "get_range ?w (64 + length pre) (64 + length pre + length (payload f)) = Some (payload f)"
    by (simp add: get_range_def slice_def padded_wire_def)
  moreover have "unat (payload_offset (header f)) = length pre"
    using pad by (simp add: pad_lengths_def)
  ultimately show ?thesis
    using r length_padded_wire [OF pad]
    by (simp add: from_wire_def frame_layout_inline [OF t h] flip: len)
qed

lemma from_wire_Inr_iff:
  assumes t: "supported_target t"
  shows "from_wire t bs = Inr f \<longleftrightarrow>
     valid_frame f \<and> reserve_ok t (length (payload f)) \<and>
     (\<exists>pre post. pad_lengths f pre post \<and> bs = padded_wire f pre post)"
proof
  assume "from_wire t bs = Inr f"
  then obtain h src where raw: "64 \<le> length bs" "header_encode h = slice bs 0 64"
    and h: "inline_header h" and n: "length bs = unat (message_bytes h)"
    and src: "get_range bs (64 + unat (payload_offset h))
        (64 + unat (payload_offset h) + unat (payload_bytes h)) = Some src"
    and f: "f = \<lparr>header = h, payload = src\<rparr>" and r: "reserve_ok t (length src)"
    unfolding from_wire_def
    by (auto simp: result_simps get_range_def frame_layout_Inr_iff t header_decode_Inr_iff
        split: if_splits)
  let ?a = "64 + unat (payload_offset h)" and ?b = "64 + unat (payload_offset h) + unat (payload_bytes h)"
  have bound: "?b \<le> length bs" and srcd: "src = slice bs ?a ?b" and
      len: "length src = unat (payload_bytes h)"
    using src by (auto simp: get_range_def length_slice split: if_splits)
  have "bs = slice bs 0 64 @ slice bs 64 ?a @ slice bs ?a ?b @ slice bs ?b (length bs)"
    using bound by (simp add: slice_join slice_all)
  then have "bs = padded_wire f (slice bs 64 ?a) (slice bs ?b (length bs))"
    using raw by (simp add: padded_wire_def f srcd)
  moreover have "pad_lengths f (slice bs 64 ?a) (slice bs ?b (length bs))"
    using bound n len by (simp add: pad_lengths_def f length_slice)
  ultimately show "valid_frame f \<and> reserve_ok t (length (payload f)) \<and>
     (\<exists>pre post. pad_lengths f pre post \<and> bs = padded_wire f pre post)"
    using h len r f by (auto simp: valid_frame_def)
next
  assume "valid_frame f \<and> reserve_ok t (length (payload f)) \<and>
     (\<exists>pre post. pad_lengths f pre post \<and> bs = padded_wire f pre post)"
  then show "from_wire t bs = Inr f" using from_wire_padded [OF t] by blast
qed

text \<open>On a supported target the \<open>usize\<close> conversions of the layout cannot fail.\<close>

lemma frame_layout_conversions:
  assumes t: "supported_target t" and e: "payload_end h = Inr e"
    and bound: "unat (message_bytes h) \<le> 16777280"
  shows "checked_add 64 (payload_offset h) = Some (64 + payload_offset h)"
    and "checked_add 64 e = Some (64 + e)"
    and "usize_try_from t (message_bytes h) = Some (unat (message_bytes h))"
    and "usize_try_from t (64 + payload_offset h) = Some (64 + unat (payload_offset h))"
    and "usize_try_from t (64 + e) = Some (64 + unat e)"
proof -
  have le: "64 + unat e \<le> unat (message_bytes h)" "unat (payload_offset h) \<le> unat e"
    using e by (auto simp: payload_end_Inr_iff)
  then have sums: "unat (64 + payload_offset h) = 64 + unat (payload_offset h)"
    "unat (64 + e) = 64 + unat e"
    using bound by (auto simp: unat_word_ariths)
  then show "checked_add 64 (payload_offset h) = Some (64 + payload_offset h)"
    and "checked_add 64 e = Some (64 + e)"
    by (simp_all add: checked_simps)
  show "usize_try_from t (message_bytes h) = Some (unat (message_bytes h))"
    and "usize_try_from t (64 + payload_offset h) = Some (64 + unat (payload_offset h))"
    and "usize_try_from t (64 + e) = Some (64 + unat e)"
    using sums le bound by (intro usize_try_from_small [OF t]; simp)+
qed

lemma frame_layout_target:
  assumes t: "supported_target t" and t': "supported_target t'"
  shows "frame_layout t h = frame_layout t' h"
proof (cases "payload_end h")
  case (Inl e)
  then show ?thesis by (simp add: frame_layout_def)
next
  case (Inr e)
  show ?thesis
  proof (cases "unat (message_bytes h) \<le> 16777280")
    case True
    show ?thesis
      by (simp add: frame_layout_def Inr frame_layout_conversions [OF t Inr True]
          frame_layout_conversions [OF t' Inr True])
  next
    case False
    then show ?thesis by (simp add: frame_layout_def word_less_nat_alt)
  qed
qed

section \<open>Properties\<close>

text \<open>A padded CREATE_RESOURCE request, the frame of the repository's own test.\<close>

definition sample_frame :: sgpu_frame where
  "sample_frame =
     \<lparr>header = (header_new VF_FAMILY_SGPU VF_SGPU_CREATE_RESOURCE)
        \<lparr>payload_offset := 3, payload_bytes := 8, message_bytes := 80\<rparr>,
      payload = le_bytes 8 (256 :: u64)\<rparr>"

lemma sample_frame_valid: "valid_frame sample_frame"
  by (simp add: valid_frame_def sample_frame_def inline_header_def header_new_def
      header_default_def)

lemma supported_mac [simp]: "supported_target mac_target"
  by (simp add: supported_target_def mac_target_def)

lemma reserve_mac [simp]: "reserve_ok mac_target n"
  by (simp add: mac_target_def)

lemma sample_frame_from_wire:
  "from_wire mac_target (padded_wire sample_frame (replicate 3 0) (replicate 5 0)) = Inr sample_frame"
  by (rule from_wire_padded [OF _ sample_frame_valid])
    (simp_all add: pad_lengths_def sample_frame_def header_new_def header_default_def)

text \<open>C26: Layout safety of inline frames. \<open>frame_layout\<close> accepts a header only as an SGPU
  message of at most 64 bytes plus 16 MiB whose payload range lies after the 64-byte header and
  inside the message; the range has exactly the declared payload length, no addition wraps, and
  32- and 64-bit targets compute the same result, errors included.\<close>

theorem frame_layout_safe:
  assumes "supported_target t" and "supported_target t'"
  shows "frame_layout t h = frame_layout t' h \<and>
    (case frame_layout t h of
       Inr (tot, start, end') \<Rightarrow>
         family h = VF_FAMILY_SGPU \<and> tot = unat (message_bytes h) \<and> tot \<le> 64 + 16777216 \<and>
         64 \<le> start \<and> start = 64 + unat (payload_offset h) \<and>
         end' = start + unat (payload_bytes h) \<and> end' \<le> tot
     | Inl _ \<Rightarrow> \<not> inline_header h)"
proof (cases "frame_layout t h")
  case (Inl e)
  then show ?thesis
    using frame_layout_target [OF assms, of h] frame_layout_accepts [OF assms(1), of h] by auto
next
  case (Inr l)
  obtain tot start end' where l: "l = (tot, start, end')" by (cases l) auto
  have "inline_header h \<and> tot = unat (message_bytes h) \<and> start = 64 + unat (payload_offset h) \<and>
      end' = start + unat (payload_bytes h)"
    using Inr by (simp add: l frame_layout_Inr_iff [OF assms(1)])
  with Inr frame_layout_target [OF assms, of h] show ?thesis
    by (simp add: l inline_header_def)
qed

lemma frame_layout_safe_witness:
  "frame_layout mac_target (header sample_frame) = Inr (80, 67, 75) \<and>
   frame_layout mac_target (header sample_frame) =
     frame_layout (mac_target\<lparr>ptr_width := 32\<rparr>) (header sample_frame)"
proof -
  have t: "supported_target (mac_target\<lparr>ptr_width := 32\<rparr>)"
    by (simp add: supported_target_def)
  have "inline_header (header sample_frame)" using sample_frame_valid by (simp add: valid_frame_def)
  then have "frame_layout mac_target (header sample_frame) = Inr (80, 67, 75)"
    by (simp add: frame_layout_inline) (simp add: sample_frame_def)
  with frame_layout_safe [OF supported_mac t] show ?thesis by blast
qed

text \<open>C8: Round trip of inline frames. Every frame that passes \<open>validate\<close> is encoded, the
  wire message has the declared length, and decoding it gives back the same header and payload,
  whatever the padding before and after the payload.\<close>

theorem frame_wire_roundtrip:
  assumes "supported_target t" and "frame_validate t f = Inr ()"
    and "reserve_ok t (unat (message_bytes (header f)))" and "reserve_ok t (length (payload f))"
  shows "\<exists>w. try_to_wire t f = Inr w \<and> to_wire t f = Returned w \<and>
    length w = unat (message_bytes (header f)) \<and> from_wire t w = Inr f"
proof -
  let ?w = "padded_wire f (fst (zero_pads f)) (snd (zero_pads f))"
  have f: "valid_frame f" using assms(1,2) by (simp add: frame_validate_Inr_iff)
  note pads = pad_lengths_zero_pads [OF f]
  have "try_to_wire t f = Inr ?w" using assms f by (simp add: try_to_wire_Inr_iff)
  moreover have "from_wire t ?w = Inr f" using assms by (intro from_wire_padded f pads)
  ultimately show ?thesis using length_padded_wire [OF pads] by (auto simp: to_wire_def)
qed

lemma frame_wire_roundtrip_witness:
  "\<exists>w. try_to_wire mac_target sample_frame = Inr w \<and> length w = 80 \<and>
     from_wire mac_target w = Inr sample_frame"
proof -
  have "frame_validate mac_target sample_frame = Inr ()"
    by (simp add: frame_validate_Inr_iff sample_frame_valid)
  from frame_wire_roundtrip [OF supported_mac this] show ?thesis
    by (auto simp: sample_frame_def)
qed

text \<open>C34: What a decoded frame guarantees. A frame accepted from the wire passes
  \<open>validate\<close>, its header is the first 64 bytes, its payload is the declared byte range of the
  message, and the message has exactly the declared length.\<close>

theorem from_wire_sound:
  assumes "supported_target t" and "from_wire t bs = Inr f"
  shows "frame_validate t f = Inr () \<and>
    header_encode (header f) = take 64 bs \<and>
    length bs = unat (message_bytes (header f)) \<and>
    payload f = take (unat (payload_bytes (header f)))
      (drop (64 + unat (payload_offset (header f))) bs)"
proof -
  obtain pre post where f: "valid_frame f" and pad: "pad_lengths f pre post"
    and bs: "bs = padded_wire f pre post"
    using assms by (auto simp: from_wire_Inr_iff)
  have "unat (payload_bytes (header f)) = length (payload f)"
      "unat (payload_offset (header f)) = length pre"
    using f pad by (simp_all add: valid_frame_def pad_lengths_def)
  then show ?thesis
    using f length_padded_wire [OF pad]
    by (simp add: frame_validate_Inr_iff assms(1) bs) (simp add: padded_wire_def)
qed

lemma from_wire_sound_witness:
  "payload sample_frame = take 8 (drop 67 (padded_wire sample_frame (replicate 3 0) (replicate 5 0)))"
  using from_wire_sound [OF supported_mac sample_frame_from_wire]
  by (simp add: sample_frame_def)

text \<open>No truncation and no trailing bytes. If a message is accepted, every proper
  prefix of it and every extension of it is rejected.\<close>

theorem from_wire_exact_length:
  assumes "supported_target t" and "from_wire t bs = Inr f"
  shows "(\<forall>k < length bs. \<exists>e. from_wire t (take k bs) = Inl e) \<and>
    (\<forall>xs. xs \<noteq> [] \<longrightarrow> from_wire t (bs @ xs) = Inl Payload)"
proof (intro conjI allI impI)
  obtain pre post where f: "valid_frame f" and pad: "pad_lengths f pre post"
    and bs: "bs = padded_wire f pre post"
    using assms by (auto simp: from_wire_Inr_iff)
  have len: "length bs = unat (message_bytes (header f))"
    by (simp add: bs length_padded_wire [OF pad])
  have hd: "take 64 bs = header_encode (header f)" "64 \<le> length bs"
    by (simp_all add: bs padded_wire_def)
  fix k assume k: "k < length bs"
  show "\<exists>e. from_wire t (take k bs) = Inl e"
  proof (rule ccontr)
    assume "\<not> ?thesis"
    then obtain g where g: "from_wire t (take k bs) = Inr g"
      by (cases "from_wire t (take k bs)") auto
    then obtain pre' post' where pad': "pad_lengths g pre' post'"
      and tk: "take k bs = padded_wire g pre' post'"
      by (auto simp: from_wire_Inr_iff assms(1))
    have "64 \<le> k" using tk k by (auto simp: padded_wire_def dest: arg_cong [where f = length])
    then have "header_encode (header g) = header_encode (header f)"
      using arg_cong [OF tk, of "take 64"] hd by (simp add: padded_wire_def)
    then have "length (take k bs) = length bs"
      using length_padded_wire [OF pad'] len by (simp add: tk header_encode_inject)
    with k show False by simp
  qed
next
  fix xs :: bytes
  assume "xs \<noteq> []"
  obtain pre post where f: "valid_frame f" and pad: "pad_lengths f pre post"
    and bs: "bs = padded_wire f pre post"
    using assms by (auto simp: from_wire_Inr_iff)
  have "get_range (bs @ xs) 0 64 = Some (header_encode (header f))"
    by (simp add: get_range_def slice_def bs padded_wire_def)
  with \<open>xs \<noteq> []\<close> f show "from_wire t (bs @ xs) = Inl Payload"
    using length_padded_wire [OF pad]
    by (simp add: from_wire_def valid_frame_def frame_layout_inline assms(1) flip: bs)
qed

lemma from_wire_exact_length_witness:
  "from_wire mac_target (padded_wire sample_frame (replicate 3 0) (replicate 5 0) @ [0]) = Inl Payload"
  using from_wire_exact_length [OF supported_mac sample_frame_from_wire] by blast

end
