(* ===== verification/Handle_Map.thy ===== *)
theory Handle_Map
  imports Apls_Prelude "HOL-Library.AList" "HOL-Library.Multiset"
begin

text \<open>
  \<open>HashMap<u64, V>\<close> as the sources use it: look-up, insertion, removal, the number of
  entries and the values in an unspecified order. The locale states the contract a client may
  rely on; an association list with distinct keys implements it for the model.
\<close>

section \<open>The interface\<close>

locale handle_map =
  fixes empty :: "'m"
    and get :: "'m \<Rightarrow> 'k \<Rightarrow> 'v option"
    and ins :: "'k \<Rightarrow> 'v \<Rightarrow> 'm \<Rightarrow> 'm"
    and rem :: "'k \<Rightarrow> 'm \<Rightarrow> 'm"
    and vals :: "'m \<Rightarrow> 'v list"
    and len :: "'m \<Rightarrow> nat"
    and inv :: "'m \<Rightarrow> bool"
  assumes inv_empty: "inv empty"
    and get_empty: "get empty k = None"
    and vals_empty: "vals empty = []"
    and inv_ins: "inv m \<Longrightarrow> inv (ins k v m)"
    and inv_rem: "inv m \<Longrightarrow> inv (rem k m)"
    and get_ins: "inv m \<Longrightarrow> get (ins k v m) k' = (if k' = k then Some v else get m k')"
    and get_rem: "inv m \<Longrightarrow> get (rem k m) k' = (if k' = k then None else get m k')"
    and vals_ins: "inv m \<Longrightarrow> get m k = None \<Longrightarrow>
      mset (vals (ins k v m)) = add_mset v (mset (vals m))"
    and vals_rem: "inv m \<Longrightarrow> get m k = Some v \<Longrightarrow>
      mset (vals m) = add_mset v (mset (vals (rem k m)))"
    and vals_iff: "inv m \<Longrightarrow> v \<in> set (vals m) \<longleftrightarrow> (\<exists>k. get m k = Some v)"
    and len_vals: "inv m \<Longrightarrow> len m = length (vals m)"
begin

lemma len_empty: "len empty = 0"
  by (simp add: len_vals inv_empty vals_empty)

lemma len_ins: "inv m \<Longrightarrow> get m k = None \<Longrightarrow> len (ins k v m) = Suc (len m)"
  using vals_ins [of m k v] by (simp add: len_vals inv_ins flip: size_mset)

lemma len_rem: "inv m \<Longrightarrow> get m k = Some v \<Longrightarrow> len m = Suc (len (rem k m))"
  using vals_rem [of m k v] by (simp add: len_vals inv_rem flip: size_mset)

lemma total_ins:
  assumes "inv m" and "get m k = None"
  shows "sum_list (map f (vals (ins k v m))) = f v + (sum_list (map f (vals m)) :: nat)"
  using arg_cong [OF vals_ins [OF assms, of v], of "\<lambda>M. \<Sum>x\<in>#M. f x"]
  by (simp flip: sum_mset_sum_list)

lemma total_rem:
  assumes "inv m" and "get m k = Some v"
  shows "sum_list (map f (vals m)) = f v + (sum_list (map f (vals (rem k m))) :: nat)"
  using arg_cong [OF vals_rem [OF assms], of "\<lambda>M. \<Sum>x\<in>#M. f x"]
  by (simp flip: sum_mset_sum_list)

lemma rem_after_ins: "inv m \<Longrightarrow> get m k = None \<Longrightarrow> get (rem k (ins k v m)) k' = get m k'"
  by (simp add: get_rem get_ins inv_ins)

end

section \<open>The association-list implementation\<close>

type_synonym 'v hmap = "(u64 \<times> 'v) list"

definition hm_empty :: "'v hmap" where "hm_empty = []"
definition hm_get :: "'v hmap \<Rightarrow> u64 \<Rightarrow> 'v option" where "hm_get m k = map_of m k"
definition hm_insert :: "u64 \<Rightarrow> 'v \<Rightarrow> 'v hmap \<Rightarrow> 'v hmap" where
  "hm_insert k v m = AList.update k v m"
definition hm_remove :: "u64 \<Rightarrow> 'v hmap \<Rightarrow> 'v hmap" where
  "hm_remove k m = AList.delete k m"
definition hm_values :: "'v hmap \<Rightarrow> 'v list" where "hm_values m = map snd m"
definition hm_len :: "'v hmap \<Rightarrow> nat" where "hm_len m = length m"
definition hm_inv :: "'v hmap \<Rightarrow> bool" where "hm_inv m \<longleftrightarrow> distinct (map fst m)"

lemma mset_update_fresh:
  "map_of m k = None \<Longrightarrow> mset (map snd (AList.update k v m)) = add_mset v (mset (map snd m))"
  by (induction m) (auto split: if_splits)

lemma mset_delete_present:
  "distinct (map fst m) \<Longrightarrow> map_of m k = Some v \<Longrightarrow>
    mset (map snd m) = add_mset v (mset (map snd (AList.delete k m)))"
proof (induction m)
  case Nil
  then show ?case by simp
next
  case (Cons p m)
  show ?case
  proof (cases "fst p = k")
    case True
    then have "k \<notin> fst ` set m" using Cons.prems(1) by auto
    then have "AList.delete k m = m" by simp
    with True Cons.prems show ?thesis by (cases p) simp
  next
    case False
    with Cons show ?thesis by (cases p) simp
  qed
qed

interpretation hm: handle_map hm_empty hm_get hm_insert hm_remove hm_values hm_len hm_inv
proof unfold_locales
  fix m :: "'v hmap" and k k' v
  show "hm_inv m \<Longrightarrow> hm_inv (hm_insert k v m)"
    by (simp add: hm_inv_def hm_insert_def distinct_update)
  show "hm_inv m \<Longrightarrow> hm_inv (hm_remove k m)"
    by (simp add: hm_inv_def hm_remove_def distinct_delete)
  show "hm_inv m \<Longrightarrow> hm_get (hm_insert k v m) k' = (if k' = k then Some v else hm_get m k')"
    by (simp add: hm_get_def hm_insert_def update_conv')
  show "hm_inv m \<Longrightarrow> hm_get (hm_remove k m) k' = (if k' = k then None else hm_get m k')"
    by (simp add: hm_get_def hm_remove_def delete_conv')
  show "hm_inv m \<Longrightarrow> hm_get m k = None \<Longrightarrow>
      mset (hm_values (hm_insert k v m)) = add_mset v (mset (hm_values m))"
    by (simp add: hm_get_def hm_insert_def hm_values_def mset_update_fresh del: mset_map)
  show "hm_inv m \<Longrightarrow> hm_get m k = Some v \<Longrightarrow>
      mset (hm_values m) = add_mset v (mset (hm_values (hm_remove k m)))"
    unfolding hm_inv_def hm_get_def hm_remove_def hm_values_def by (rule mset_delete_present)
  show "hm_inv m \<Longrightarrow> v \<in> set (hm_values m) \<longleftrightarrow> (\<exists>k. hm_get m k = Some v)"
    by (force simp: hm_inv_def hm_get_def hm_values_def dest: map_of_SomeD map_of_is_SomeI)
qed (simp_all add: hm_inv_def hm_empty_def hm_get_def hm_values_def hm_len_def)

end
