(* ===== verification/Sgpu_Session.thy ===== *)
theory Sgpu_Session
  imports Sgpu_Frame Handle_Map
begin

text \<open>
  The SGPU service-cell session of \<open>src/sgpu.rs\<close>: \<open>SgpuCaps\<close> with its 40-byte encoding,
  \<open>SgpuResource\<close>, \<open>SgpuSession\<close> and its operations up to the opcode \<open>dispatch\<close>. The
  Nextcore GPU crate is not part of the repository: its virtual device, its command codec, its
  limits and its vendor and Metal enumerations are the arguments \<open>gpu_device\<close>,
  \<open>decode_list\<close>, \<open>sgpu_limits\<close> and \<open>gpu_enums\<close>. Operations return the result with the new
  session, because several of them change the session before they fail.
\<close>

section \<open>Capabilities\<close>

record ('v, 'm) sgpu_caps =
  vendor :: 'v
  metal_version :: 'm
  vram_bytes :: u64
  max_threads_per_threadgroup :: u32
  has_compute_shaders :: bool
  software_accelerated :: bool

text \<open>The enumerators of the GPU crate that the sources name, with their \<open>as u8\<close> casts.\<close>

record ('v, 'm) gpu_enums =
  vendor_code :: "'v \<Rightarrow> u8"
  vendor_AMD :: 'v
  vendor_NVIDIA :: 'v
  vendor_Intel :: 'v
  vendor_Unknown :: 'v
  metal_code :: "'m \<Rightarrow> u8"
  metal_V2_0 :: 'm
  metal_V3_0 :: 'm
  metal_V3_1 :: 'm
  metal_V3_2 :: 'm

definition u8_of_bool :: "bool \<Rightarrow> u8" where "u8_of_bool b = (if b then 1 else 0)"

definition caps_encode :: "('v, 'm) gpu_enums \<Rightarrow> ('v, 'm) sgpu_caps \<Rightarrow> bytes" where
  "caps_encode g c =
     (let out = replicate 40 0;
          out = out[0 := vendor_code g (vendor c)];
          out = out[4 := metal_code g (metal_version c)];
          out = copy_at 8 (le_bytes 8 (vram_bytes c)) out;
          out = copy_at 16 (le_bytes 4 (max_threads_per_threadgroup c)) out;
          out = out[20 := u8_of_bool (has_compute_shaders c)];
          out = out[24 := u8_of_bool (software_accelerated c)]
      in out)"

definition caps_decode ::
    "('v, 'm) gpu_enums \<Rightarrow> bytes \<Rightarrow> (('v, 'm) sgpu_caps, sgpu_error) result" where
  "caps_decode g bs =
     (if length bs < 40 then Err Payload
      else Ok
        \<lparr>vendor =
           (if bs ! 0 = 0 then vendor_AMD g else if bs ! 0 = 1 then vendor_NVIDIA g
            else if bs ! 0 = 2 then vendor_Intel g else vendor_Unknown g),
         metal_version =
           (if bs ! 4 = 0 then metal_V2_0 g else if bs ! 4 = 1 then metal_V3_0 g
            else if bs ! 4 = 2 then metal_V3_1 g else metal_V3_2 g),
         vram_bytes = of_le_bytes (slice bs 8 16),
         max_threads_per_threadgroup = of_le_bytes (slice bs 16 20),
         has_compute_shaders = (bs ! 20 \<noteq> 0),
         software_accelerated = (bs ! 24 \<noteq> 0)\<rparr>)"

section \<open>Commands and the GPU device\<close>

text \<open>A colour is four \<open>f32\<close> bit patterns; the session only passes it on.\<close>

type_synonym color = "u32 \<times> u32 \<times> u32 \<times> u32"
type_synonym dims = "u32 \<times> u32 \<times> u32"

datatype sgpu_command =
    CopyBuffer u64 u64 u64
  | RenderClear color
  | ComputeDispatch u32 dims dims
  | Present u64

datatype gpu_command =
    Gpu_CopyBuffer u64 u64 u64
  | Gpu_RenderClear color
  | Gpu_ComputeKernel u32 dims dims
  | Gpu_PresentSwapchain u64

record sgpu_limits =
  max_commands :: nat
  max_resources :: nat
  max_resource_bytes :: u64
  max_total_resource_bytes :: u64

record ('d, 'v, 'm) gpu_device =
  spec_vendor :: "'d \<Rightarrow> 'v"
  spec_metal_version :: "'d \<Rightarrow> 'm"
  spec_vram_size :: "'d \<Rightarrow> u64"
  spec_max_threads :: "'d \<Rightarrow> u32"
  is_software_accelerated :: "'d \<Rightarrow> bool"
  allocate_buffer :: "'d \<Rightarrow> u64 \<Rightarrow> (u64 \<times> u64) \<times> 'd"
  free_buffer :: "'d \<Rightarrow> u64 \<Rightarrow> (unit, string) result \<times> 'd"
  write_command_buffer :: "'d \<Rightarrow> gpu_command list \<Rightarrow> (unit, string) result \<times> 'd"
  flush_device :: "'d \<Rightarrow> (unit, string) result \<times> 'd"

section \<open>The session\<close>

record sgpu_resource =
  sgp_handle :: u64
  gpu_handle :: u64
  res_size :: u64

record 'd sgpu_session =
  device :: 'd
  resources :: "sgpu_resource hmap"
  next_resource_id :: u64

definition session_new :: "'d \<Rightarrow> 'd sgpu_session" where
  "session_new d = \<lparr>device = d, resources = hm_empty, next_resource_id = 1\<rparr>"

definition query_caps :: "('d, 'v, 'm) gpu_device \<Rightarrow> 'd sgpu_session \<Rightarrow> ('v, 'm) sgpu_caps" where
  "query_caps D s =
     \<lparr>vendor = spec_vendor D (device s),
      metal_version = spec_metal_version D (device s),
      vram_bytes = spec_vram_size D (device s),
      max_threads_per_threadgroup = spec_max_threads D (device s),
      has_compute_shaders = False,
      software_accelerated = is_software_accelerated D (device s)\<rparr>"

text \<open>The \<open>try_fold\<close> over the live resources, from the requested size.\<close>

fun checked_total :: "u64 \<Rightarrow> sgpu_resource list \<Rightarrow> u64 option" where
  "checked_total acc [] = Some acc"
| "checked_total acc (r # rs) =
     (case checked_add acc (res_size r) of None \<Rightarrow> None | Some acc' \<Rightarrow> checked_total acc' rs)"

definition create_resource ::
    "target \<Rightarrow> sgpu_limits \<Rightarrow> ('d, 'v, 'm) gpu_device \<Rightarrow> u64 \<Rightarrow> 'd sgpu_session \<Rightarrow>
     (sgpu_resource, sgpu_error) result \<times> 'd sgpu_session" where
  "create_resource t lim D n s =
     (if n = 0 then (Err Payload, s)
      else if usize_try_from t n = None then (Err ResourceLimit, s)
      else if n > max_resource_bytes lim \<or> hm_len (resources s) \<ge> max_resources lim
        then (Err ResourceLimit, s)
      else (case checked_total n (hm_values (resources s)) of
        None \<Rightarrow> (Err ResourceLimit, s)
      | Some tot \<Rightarrow>
         (if tot > max_total_resource_bytes lim then (Err ResourceLimit, s)
          else (case checked_add (next_resource_id s) 1 of
            None \<Rightarrow> (Err ResourceLimit, s)
          | Some next_id \<Rightarrow>
             (let ((gh, gn), d) = allocate_buffer D (device s) n;
                  res = \<lparr>sgp_handle = next_resource_id s, gpu_handle = gh, res_size = gn\<rparr>
              in (Ok res,
                  s\<lparr>device := d, next_resource_id := next_id,
                    resources := hm_insert (sgp_handle res) res (resources s)\<rparr>))))))"

text \<open>The removal happens before the backend is asked to free, so it survives a failure.\<close>

definition destroy_resource ::
    "('d, 'v, 'm) gpu_device \<Rightarrow> u64 \<Rightarrow> 'd sgpu_session \<Rightarrow>
     (unit, sgpu_error) result \<times> 'd sgpu_session" where
  "destroy_resource D h s =
     (case hm_get (resources s) h of
        None \<Rightarrow> (Err (ResourceNotFound h), s)
      | Some res \<Rightarrow>
         (let s = s\<lparr>resources := hm_remove h (resources s)\<rparr>;
              (r, d) = free_buffer D (device s) (gpu_handle res)
          in (map_err Gpu r, s\<lparr>device := d\<rparr>)))"

definition lookup_gpu_handle :: "'d sgpu_session \<Rightarrow> u64 \<Rightarrow> (u64, sgpu_error) result" where
  "lookup_gpu_handle s h =
     ok_or (map_option gpu_handle (hm_get (resources s) h)) (ResourceNotFound h)"

fun translate_command :: "'d sgpu_session \<Rightarrow> sgpu_command \<Rightarrow> (gpu_command, sgpu_error) result" where
  "translate_command s (CopyBuffer src dst n) =
     bindE (lookup_gpu_handle s src) (\<lambda>src_gpu.
     bindE (lookup_gpu_handle s dst) (\<lambda>dst_gpu.
     Ok (Gpu_CopyBuffer src_gpu dst_gpu n)))"
| "translate_command s (RenderClear c) = Ok (Gpu_RenderClear c)"
| "translate_command s (ComputeDispatch k grid block) = Ok (Gpu_ComputeKernel k grid block)"
| "translate_command s (Present b) =
     bindE (lookup_gpu_handle s b) (\<lambda>gpu. Ok (Gpu_PresentSwapchain gpu))"

fun translate_commands ::
    "'d sgpu_session \<Rightarrow> sgpu_command list \<Rightarrow> (gpu_command list, sgpu_error) result" where
  "translate_commands s [] = Ok []"
| "translate_commands s (c # cs) =
     bindE (translate_command s c) (\<lambda>g. bindE (translate_commands s cs) (\<lambda>gs. Ok (g # gs)))"

definition submit ::
    "sgpu_limits \<Rightarrow> ('d, 'v, 'm) gpu_device \<Rightarrow> sgpu_command list \<Rightarrow> 'd sgpu_session \<Rightarrow>
     (nat, sgpu_error) result \<times> 'd sgpu_session" where
  "submit lim D cmds s =
     (if length cmds > max_commands lim then (Err Payload, s)
      else (case translate_commands s cmds of
        Inl e \<Rightarrow> (Err e, s)
      | Inr gpu_cmds \<Rightarrow>
         (case write_command_buffer D (device s) gpu_cmds of
            (Inl e, d) \<Rightarrow> (Err (Gpu e), s\<lparr>device := d\<rparr>)
          | (Inr _, d) \<Rightarrow>
             (case flush_device D d of
                (Inl e, d') \<Rightarrow> (Err (Gpu e), s\<lparr>device := d'\<rparr>)
              | (Inr _, d') \<Rightarrow> (Ok (length cmds), s\<lparr>device := d'\<rparr>)))))"

definition present ::
    "sgpu_limits \<Rightarrow> ('d, 'v, 'm) gpu_device \<Rightarrow> u64 \<Rightarrow> 'd sgpu_session \<Rightarrow>
     (unit, sgpu_error) result \<times> 'd sgpu_session" where
  "present lim D h s =
     (case submit lim D [Present h] s of
        (Inl e, s') \<Rightarrow> (Err e, s')
      | (Inr _, s') \<Rightarrow> (Ok (), s'))"

section \<open>Dispatch\<close>

text \<open>The closure \<open>resp\<close> that builds a response frame.\<close>

definition response_frame :: "u16 \<Rightarrow> u64 \<Rightarrow> bytes \<Rightarrow> sgpu_frame" where
  "response_frame op rid p =
     (let h = header_new VF_FAMILY_SGPU op;
          h = h\<lparr>request_id := rid\<rparr>;
          h = h\<lparr>payload_offset := 0\<rparr>;
          h = h\<lparr>payload_bytes := word_of_nat (length p)\<rparr>;
          h = h\<lparr>message_bytes := VF_MSG_BYTES + payload_bytes h\<rparr>
      in \<lparr>header = h, payload = p\<rparr>)"

definition dispatch ::
    "target \<Rightarrow> sgpu_limits \<Rightarrow> ('v, 'm) gpu_enums \<Rightarrow> ('d, 'v, 'm) gpu_device \<Rightarrow>
     (bytes \<Rightarrow> sgpu_command list option) \<Rightarrow> sgpu_frame \<Rightarrow> 'd sgpu_session \<Rightarrow>
     (sgpu_frame, sgpu_error) result \<times> 'd sgpu_session" where
  "dispatch t lim g D decode_list f s =
     (case frame_validate t f of
        Inl e \<Rightarrow> (Err e, s)
      | Inr _ \<Rightarrow>
         (let op = opcode (header f); rid = request_id (header f) in
          if op = VF_SGPU_QUERY_CAPS then
            (if payload f \<noteq> [] then (Err Payload, s)
             else (Ok (response_frame VF_SGPU_QUERY_CAPS rid (caps_encode g (query_caps D s))), s))
          else if op = VF_SGPU_CREATE_RESOURCE then
            (if length (payload f) \<noteq> 8 then (Err Payload, s)
             else (case create_resource t lim D (of_le_bytes (slice (payload f) 0 8)) s of
                (Inl e, s') \<Rightarrow> (Err e, s')
              | (Inr res, s') \<Rightarrow>
                 (Ok (response_frame VF_SGPU_CREATE_RESOURCE rid (le_bytes 8 (sgp_handle res))), s')))
          else if op = VF_SGPU_DESTROY_RESOURCE then
            (if length (payload f) \<noteq> 8 then (Err Payload, s)
             else (case destroy_resource D (of_le_bytes (slice (payload f) 0 8)) s of
                (Inl e, s') \<Rightarrow> (Err e, s')
              | (Inr _, s') \<Rightarrow> (Ok (response_frame VF_SGPU_DESTROY_RESOURCE rid []), s')))
          else if op = VF_SGPU_SUBMIT_COMMAND_LIST then
            (case decode_list (payload f) of
               None \<Rightarrow> (Err Payload, s)
             | Some cmds \<Rightarrow>
                (case submit lim D cmds s of
                   (Inl e, s') \<Rightarrow> (Err e, s')
                 | (Inr completed, s') \<Rightarrow>
                    (Ok (response_frame VF_SGPU_SUBMIT_COMMAND_LIST rid
                          (le_bytes 4 (word_of_nat completed :: u32))), s')))
          else if op = VF_SGPU_PRESENT then
            (if length (payload f) \<noteq> 8 then (Err Payload, s)
             else (case present lim D (of_le_bytes (slice (payload f) 0 8)) s of
                (Inl e, s') \<Rightarrow> (Err e, s')
              | (Inr _, s') \<Rightarrow> (Ok (response_frame VF_SGPU_PRESENT rid []), s')))
          else (Err (Vf (Vf_Eabi ''unknown SGPU opcode'')), s)))"

section \<open>Resource accounting\<close>

abbreviation sizes_total :: "sgpu_resource list \<Rightarrow> nat" where
  "sizes_total rs \<equiv> sum_list (map (\<lambda>r. unat (res_size r)) rs)"

definition live_bytes :: "'d sgpu_session \<Rightarrow> nat" where
  "live_bytes s = sizes_total (hm_values (resources s))"

lemma checked_total_Some_iff:
  "checked_total acc rs = Some w \<longleftrightarrow> unat w = unat acc + sizes_total rs"
proof (induction rs arbitrary: acc)
  case Nil
  then show ?case by (auto simp: word_unat_eq_iff)
next
  case (Cons r rs)
  show ?case
  proof (cases "checked_add acc (res_size r)")
    case None
    then have "2 ^ 64 \<le> unat acc + unat (res_size r)" by (simp add: checked_add_None_iff)
    with None show ?thesis using unat_bound [of w] by simp
  next
    case (Some a)
    then have "unat acc + unat (res_size r) = unat a" by (simp add: checked_add_Some_iff)
    then have "unat w = unat a + sizes_total rs \<longleftrightarrow> unat w = unat acc + sizes_total (r # rs)" by auto
    with Some show ?thesis by (simp add: Cons)
  qed
qed

lemma checked_total_None_iff: "checked_total acc rs = None \<longleftrightarrow> 2 ^ 64 \<le> unat acc + sizes_total rs"
proof -
  have "(\<exists>w. checked_total acc rs = Some w) \<longleftrightarrow> unat acc + sizes_total rs < 2 ^ 64"
  proof
    assume "unat acc + sizes_total rs < 2 ^ 64"
    then show "\<exists>w. checked_total acc rs = Some w"
      by (intro exI [of _ "word_of_nat (unat acc + sizes_total rs)"])
        (simp add: checked_total_Some_iff unat_of_nat del: of_nat_add)
  next
    assume "\<exists>w. checked_total acc rs = Some w"
    then obtain w :: u64 where "unat w = unat acc + sizes_total rs" by (auto simp: checked_total_Some_iff)
    then show "unat acc + sizes_total rs < 2 ^ 64" using unat_bound [of w] by simp
  qed
  then show ?thesis by (cases "checked_total acc rs") auto
qed

lemma sizes_total_mset: "mset rs = mset rs' \<Longrightarrow> sizes_total rs = sizes_total rs'"
  by (metis mset_map sum_mset_sum_list)

text \<open>When a creation is accepted, on natural numbers.\<close>

definition can_create :: "target \<Rightarrow> sgpu_limits \<Rightarrow> u64 \<Rightarrow> 'd sgpu_session \<Rightarrow> bool" where
  "can_create t lim n s \<longleftrightarrow>
     n \<noteq> 0 \<and> unat n < 2 ^ ptr_width t \<and> n \<le> max_resource_bytes lim \<and>
     hm_len (resources s) < max_resources lim \<and>
     unat n + live_bytes s \<le> unat (max_total_resource_bytes lim) \<and>
     unat (next_resource_id s) + 1 < 2 ^ 64"

definition created :: "('d, 'v, 'm) gpu_device \<Rightarrow> u64 \<Rightarrow> 'd sgpu_session \<Rightarrow> sgpu_resource" where
  "created D n s = (let ((gh, gn), d) = allocate_buffer D (device s) n
     in \<lparr>sgp_handle = next_resource_id s, gpu_handle = gh, res_size = gn\<rparr>)"

lemma create_resource_eq:
  "create_resource t lim D n s =
     (if n = 0 then (Err Payload, s)
      else if \<not> can_create t lim n s then (Err ResourceLimit, s)
      else (Ok (created D n s),
        s\<lparr>device := snd (allocate_buffer D (device s) n),
          next_resource_id := next_resource_id s + 1,
          resources := hm_insert (next_resource_id s) (created D n s) (resources s)\<rparr>))"
proof (cases "checked_total n (hm_values (resources s))")
  case None
  then have "2 ^ 64 \<le> unat n + live_bytes s" by (simp add: checked_total_None_iff live_bytes_def)
  then have "\<not> can_create t lim n s"
    using unat_bound [of "max_total_resource_bytes lim"] by (auto simp: can_create_def)
  with None show ?thesis by (simp add: create_resource_def)
next
  case (Some tot)
  then have "unat tot = unat n + live_bytes s"
    by (simp add: checked_total_Some_iff live_bytes_def)
  then show ?thesis
    by (auto simp: create_resource_def Some can_create_def created_def usize_try_from_def
        checked_add_def word_less_nat_alt word_le_nat_alt not_less Let_def split: prod.splits)
qed

lemma sgp_handle_created [simp]: "sgp_handle (created D n s) = next_resource_id s"
  by (simp add: created_def split: prod.splits)

text \<open>The documented contract of the allocator: a buffer has the size it was asked for.\<close>

definition alloc_exact :: "('d, 'v, 'm) gpu_device \<Rightarrow> bool" where
  "alloc_exact D \<longleftrightarrow> (\<forall>d n. snd (fst (allocate_buffer D d n)) = n)"

lemma res_size_created: "alloc_exact D \<Longrightarrow> res_size (created D n s) = n"
proof -
  assume "alloc_exact D"
  then have "snd (fst (allocate_buffer D (device s) n)) = n" by (simp add: alloc_exact_def)
  then show ?thesis by (auto simp: created_def split: prod.splits)
qed

section \<open>The session invariant\<close>

definition session_inv :: "sgpu_limits \<Rightarrow> 'd sgpu_session \<Rightarrow> bool" where
  "session_inv lim s \<longleftrightarrow>
     hm_inv (resources s) \<and>
     (\<forall>h r. hm_get (resources s) h = Some r \<longrightarrow>
        sgp_handle r = h \<and> 0 < h \<and> h < next_resource_id s \<and> res_size r \<le> max_resource_bytes lim) \<and>
     hm_len (resources s) \<le> max_resources lim \<and>
     live_bytes s \<le> unat (max_total_resource_bytes lim) \<and>
     0 < next_resource_id s"

lemma session_inv_fresh: "session_inv lim s \<Longrightarrow> hm_get (resources s) (next_resource_id s) = None"
  by (auto simp: session_inv_def) (metis option.exhaust less_irrefl)

lemma session_inv_new: "session_inv lim (session_new d)"
  by (simp add: session_inv_def session_new_def hm.inv_empty hm.get_empty hm.len_empty
      live_bytes_def hm.vals_empty)

lemma session_inv_device [simp]: "session_inv lim (s\<lparr>device := d\<rparr>) = session_inv lim s"
  by (simp add: session_inv_def live_bytes_def)

lemma next_id_grows:
  assumes "unat (w :: u64) + 1 < 2 ^ 64"
  shows "w < w + 1" and "0 < w + 1"
  using assms by (auto simp: word_less_nat_alt unat_word_ariths)

lemma session_inv_create:
  assumes "alloc_exact D" and inv: "session_inv lim s"
    and step: "create_resource t lim D n s = (r, s')"
  shows "session_inv lim s'"
proof (cases "n \<noteq> 0 \<and> can_create t lim n s")
  case True
  let ?id = "next_resource_id s" and ?r = "created D n s"
  have s': "s' = s\<lparr>device := snd (allocate_buffer D (device s) n), next_resource_id := ?id + 1,
      resources := hm_insert ?id ?r (resources s)\<rparr>"
    using step True by (simp add: create_resource_eq)
  have grow: "?id < ?id + 1" "0 < ?id + 1"
    using True by (auto intro!: next_id_grows simp: can_create_def)
  have m: "hm_inv (resources s)" and fresh: "hm_get (resources s) ?id = None"
    using inv session_inv_fresh by (auto simp: session_inv_def)
  have old: "\<And>h q. hm_get (resources s) h = Some q \<Longrightarrow> sgp_handle q = h \<and> 0 < h \<and> h < ?id \<and>
      res_size q \<le> max_resource_bytes lim" and pos: "0 < ?id"
    using inv by (auto simp: session_inv_def)
  have "sgp_handle q = h \<and> 0 < h \<and> h < ?id + 1 \<and> res_size q \<le> max_resource_bytes lim"
    if "hm_get (hm_insert ?id ?r (resources s)) h = Some q" for h q
  proof (cases "h = ?id")
    case hid: True
    then have "q = ?r" using that by (simp add: hm.get_ins [OF m])
    then show ?thesis
      using True pos grow(1) hid by (simp add: can_create_def res_size_created [OF assms(1)])
  next
    case False
    then have "hm_get (resources s) h = Some q" using that by (simp add: hm.get_ins [OF m])
    then show ?thesis using old grow(1) by (meson order.strict_trans)
  qed
  then show ?thesis
    using True grow(2) fresh hm.total_ins [OF m fresh, of "\<lambda>r. unat (res_size r)" ?r]
    by (simp add: s' session_inv_def hm.inv_ins [OF m] hm.len_ins [OF m] live_bytes_def
        res_size_created [OF assms(1)] can_create_def)
next
  case False
  then have "s' = s" using step by (auto simp: create_resource_eq split: if_splits)
  with inv show ?thesis by simp
qed

lemma destroy_resource_eq:
  "destroy_resource D h s =
     (case hm_get (resources s) h of
        None \<Rightarrow> (Err (ResourceNotFound h), s)
      | Some res \<Rightarrow>
         (map_err Gpu (fst (free_buffer D (device s) (gpu_handle res))),
          s\<lparr>resources := hm_remove h (resources s),
            device := snd (free_buffer D (device s) (gpu_handle res))\<rparr>))"
  by (simp add: destroy_resource_def Let_def split: option.splits prod.splits)

lemma session_inv_remove:
  assumes inv: "session_inv lim s" and get: "hm_get (resources s) h = Some q"
  shows "session_inv lim (s\<lparr>resources := hm_remove h (resources s)\<rparr>)"
proof -
  have m: "hm_inv (resources s)" using inv by (simp add: session_inv_def)
  show ?thesis
    using inv hm.total_rem [OF m get, of "\<lambda>r. unat (res_size r)"] hm.len_rem [OF m get]
    by (auto simp: session_inv_def hm.inv_rem hm.get_rem [OF m] live_bytes_def split: if_splits)
qed

lemma session_inv_destroy:
  assumes "session_inv lim s" and "destroy_resource D h s = (r, s')"
  shows "session_inv lim s'"
  using assms session_inv_remove [of lim s h]
  by (auto simp: destroy_resource_eq split: option.splits)

lemma submit_frame:
  "submit lim D cmds s = (r, s') \<Longrightarrow> \<exists>d. s' = s\<lparr>device := d\<rparr>"
  by (auto simp: submit_def split: if_splits sum.splits prod.splits
      intro: exI [of _ "device s"])

lemma present_frame:
  "present lim D h s = (r, s') \<Longrightarrow> \<exists>d. s' = s\<lparr>device := d\<rparr>"
  by (auto simp: present_def dest: submit_frame split: sum.splits prod.splits)

end
