(* ===== verification/Sgpu_Trace.thy ===== *)
theory Sgpu_Trace
  imports Sgpu_Session
begin

text \<open>
  Runs of an SGPU session: every public operation of \<open>src/sgpu.rs\<close> is a step, and the caller
  may replace the public \<open>device\<close> field at any point. A trace records the handles the session
  has issued, both to direct callers of \<open>create_resource\<close> and in CREATE_RESOURCE responses.
  The lemmas show the resource budgets, the uniqueness of handles, the response envelopes and
  which errors may have changed the session.
\<close>

section \<open>What a dispatch does\<close>

definition issued :: "(sgpu_resource, sgpu_error) result \<Rightarrow> u64 list" where
  "issued r = (case r of Inl _ \<Rightarrow> [] | Inr res \<Rightarrow> [sgp_handle res])"

definition issued_by_response :: "(sgpu_frame, sgpu_error) result \<Rightarrow> u64 list" where
  "issued_by_response r =
     (case r of Inl _ \<Rightarrow> []
      | Inr f \<Rightarrow> (if opcode (header f) = VF_SGPU_CREATE_RESOURCE
                then [of_le_bytes (payload f)] else []))"

lemma issued_simps [simp]:
  "issued (Inl e) = []"
  "issued (Inr res) = [sgp_handle res]"
  by (simp_all add: issued_def)

lemma response_frame_simps [simp]:
  "opcode (header (response_frame op rid p)) = op"
  "family (header (response_frame op rid p)) = VF_FAMILY_SGPU"
  "request_id (header (response_frame op rid p)) = rid"
  "payload (response_frame op rid p) = p"
  by (simp_all add: response_frame_def header_new_def Let_def)

lemma issued_by_response_simps [simp]:
  "issued_by_response (Inl e) = []"
  "issued_by_response (Inr (response_frame op rid p)) =
     (if op = VF_SGPU_CREATE_RESOURCE then [of_le_bytes p] else [])"
  by (simp_all add: issued_by_response_def)

lemma dispatch_cases:
  assumes "dispatch t lim g D dec f s = (r, s')"
  obtains (unchanged) "s' = s" and "issued_by_response r = []"
  | (create) n q where "create_resource t lim D n s = (q, s')" and "issued_by_response r = issued q"
  | (destroy) h q where "destroy_resource D h s = (q, s')" and "issued_by_response r = []"
  | (submit) cmds q where "submit lim D cmds s = (q, s')" and "issued_by_response r = []"
  | (present) h q where "present lim D h s = (q, s')" and "issued_by_response r = []"
proof -
  let ?n = "of_le_bytes (slice (payload f) 0 8) :: u64"
  let ?create = "create_resource t lim D ?n s" and ?destroy = "destroy_resource D ?n s"
    and ?submit = "submit lim D (the (dec (payload f))) s" and ?present = "present lim D ?n s"
  have "s' = s \<and> issued_by_response r = [] \<or>
      s' = snd ?create \<and> issued_by_response r = issued (fst ?create) \<or>
      s' = snd ?destroy \<and> issued_by_response r = [] \<or>
      s' = snd ?submit \<and> issued_by_response r = [] \<or>
      s' = snd ?present \<and> issued_by_response r = []"
    using assms unfolding dispatch_def Let_def
    by (auto simp: of_le_bytes_le_bytes split: if_splits sum.splits prod.splits option.splits)
  then show ?thesis by (metis create destroy present submit unchanged prod.collapse)
qed

section \<open>Runs\<close>

inductive session_trace ::
    "target \<Rightarrow> sgpu_limits \<Rightarrow> ('v, 'm) gpu_enums \<Rightarrow> ('d, 'v, 'm) gpu_device \<Rightarrow>
     (bytes \<Rightarrow> sgpu_command list option) \<Rightarrow> u64 list \<Rightarrow> 'd sgpu_session \<Rightarrow> bool"
  for t lim g D dec where
  start: "session_trace t lim g D dec [] (session_new d)"
| caller: "session_trace t lim g D dec hs s \<Longrightarrow>
    session_trace t lim g D dec hs (s\<lparr>device := d\<rparr>)"
| create: "session_trace t lim g D dec hs s \<Longrightarrow> create_resource t lim D n s = (r, s') \<Longrightarrow>
    session_trace t lim g D dec (hs @ issued r) s'"
| destroy: "session_trace t lim g D dec hs s \<Longrightarrow> destroy_resource D h s = (u, s') \<Longrightarrow>
    session_trace t lim g D dec hs s'"
| submit: "session_trace t lim g D dec hs s \<Longrightarrow> submit lim D cmds s = (k, s') \<Longrightarrow>
    session_trace t lim g D dec hs s'"
| present: "session_trace t lim g D dec hs s \<Longrightarrow> present lim D h s = (u, s') \<Longrightarrow>
    session_trace t lim g D dec hs s'"
| dispatch: "session_trace t lim g D dec hs s \<Longrightarrow> dispatch t lim g D dec f s = (q, s') \<Longrightarrow>
    session_trace t lim g D dec (hs @ issued_by_response q) s'"

text \<open>A dispatched frame does what one of the direct operations does.\<close>

lemma trace_induct [consumes 1, case_names start caller create destroy]:
  assumes tr: "session_trace t lim g D dec hs s"
    and start: "\<And>d. P [] (session_new d)"
    and caller: "\<And>hs s d. P hs s \<Longrightarrow> P hs (s\<lparr>device := d\<rparr>)"
    and create: "\<And>hs s n r s'. P hs s \<Longrightarrow> create_resource t lim D n s = (r, s') \<Longrightarrow>
      P (hs @ issued r) s'"
    and destroy: "\<And>hs s h u s'. P hs s \<Longrightarrow> destroy_resource D h s = (u, s') \<Longrightarrow> P hs s'"
  shows "P hs s"
proof -
  have submit: "P hs s'" if "P hs s" "submit lim D cmds s = (k, s')" for hs s cmds k s'
    using submit_frame [OF that(2)] caller [OF that(1)] by auto
  have present: "P hs s'" if "P hs s" "present lim D h s = (u, s')" for hs s h u s'
    using present_frame [OF that(2)] caller [OF that(1)] by auto
  from tr show ?thesis
  proof (induction rule: session_trace.induct)
    case (dispatch hs s f q s')
    from dispatch.hyps(2) show ?case
      by (cases rule: dispatch_cases)
        (simp_all add: dispatch.IH assms(4,5) [OF dispatch.IH] submit [OF dispatch.IH]
          present [OF dispatch.IH])
  qed (fact assms(2) | erule assms(3) | erule (1) assms(4) | erule (1) assms(5) | erule (1) submit
      | erule (1) present)+
qed

lemma trace_session_inv:
  assumes "session_trace t lim g D dec hs s" and "alloc_exact D"
  shows "session_inv lim s"
  using assms(1)
proof (induction rule: trace_induct)
  case (create hs s n r s')
  then show ?case by (blast intro: session_inv_create [OF assms(2)])
next
  case (destroy hs s h u s')
  then show ?case by (blast intro: session_inv_destroy)
qed (simp_all add: session_inv_new)

text \<open>The handles issued so far are below the next identifier, and increase.\<close>

definition handles_ordered :: "u64 list \<Rightarrow> 'd sgpu_session \<Rightarrow> bool" where
  "handles_ordered hs s \<longleftrightarrow> sorted_wrt (<) hs \<and> (\<forall>h\<in>set hs. h < next_resource_id s) \<and>
     hm_inv (resources s) \<and> (\<forall>h r. hm_get (resources s) h = Some r \<longrightarrow> h \<in> set hs)"

lemma handles_ordered_device [simp]: "handles_ordered hs (s\<lparr>device := d\<rparr>) = handles_ordered hs s"
  by (simp add: handles_ordered_def)

lemma handles_ordered_create:
  assumes ord: "handles_ordered hs s" and step: "create_resource t lim D n s = (r, s')"
  shows "handles_ordered (hs @ issued r) s'"
proof (cases "n \<noteq> 0 \<and> can_create t lim n s")
  case True
  have m: "hm_inv (resources s)" using ord by (simp add: handles_ordered_def)
  have grow: "next_resource_id s < next_resource_id s + 1"
    using True by (intro next_id_grows) (simp add: can_create_def)
  show ?thesis
    using ord True step less_trans [OF _ grow] grow
    by (auto simp: create_resource_eq handles_ordered_def issued_def sorted_wrt_append
        hm.inv_ins hm.get_ins [OF m] split: if_splits)
next
  case False
  with assms show ?thesis by (auto simp: create_resource_eq issued_def split: if_splits)
qed

lemma handles_ordered_destroy:
  assumes "handles_ordered hs s" and "destroy_resource D h s = (u, s')"
  shows "handles_ordered hs s'"
  using assms
  by (auto simp: destroy_resource_eq handles_ordered_def hm.inv_rem hm.get_rem split: option.splits if_splits)

lemma trace_handles_ordered:
  assumes "session_trace t lim g D dec hs s"
  shows "handles_ordered hs s"
  using assms
proof (induction rule: trace_induct)
  case (create hs s n r s')
  then show ?case by (rule handles_ordered_create)
next
  case (destroy hs s h u s')
  then show ?case by (rule handles_ordered_destroy)
qed (simp_all add: handles_ordered_def session_new_def hm.inv_empty hm.get_empty)

section \<open>Capability records\<close>

lemma length_caps_encode [simp, bytes_simps]: "length (caps_encode g c) = 40"
  by (simp add: caps_encode_def Let_def length_copy_at)

lemma caps_encode_list:
  "caps_encode g c = [vendor_code g (vendor c), 0, 0, 0, metal_code g (metal_version c), 0, 0, 0] @
     le_bytes 8 (vram_bytes c) @ le_bytes 4 (max_threads_per_threadgroup c) @
     [u8_of_bool (has_compute_shaders c), 0, 0, 0, u8_of_bool (software_accelerated c)] @
     replicate 15 0"
  by (simp add: caps_encode_def Let_def copy_at_def numeral_eq_Suc)

text \<open>The \<open>as u8\<close> casts agree with the decoder's table for a given capability record.\<close>

definition codes_agree :: "('v, 'm) gpu_enums \<Rightarrow> ('v, 'm) sgpu_caps \<Rightarrow> bool" where
  "codes_agree g c \<longleftrightarrow>
     (vendor c = vendor_AMD g \<and> vendor_code g (vendor c) = 0 \<or>
      vendor c = vendor_NVIDIA g \<and> vendor_code g (vendor c) = 1 \<or>
      vendor c = vendor_Intel g \<and> vendor_code g (vendor c) = 2 \<or>
      vendor c = vendor_Unknown g \<and> vendor_code g (vendor c) \<notin> {0, 1, 2}) \<and>
     (metal_version c = metal_V2_0 g \<and> metal_code g (metal_version c) = 0 \<or>
      metal_version c = metal_V3_0 g \<and> metal_code g (metal_version c) = 1 \<or>
      metal_version c = metal_V3_1 g \<and> metal_code g (metal_version c) = 2 \<or>
      metal_version c = metal_V3_2 g \<and> metal_code g (metal_version c) \<notin> {0, 1, 2})"

section \<open>Responses\<close>

lemma valid_response:
  assumes "length p \<le> 40"
  shows "valid_frame (response_frame op rid p)"
  using assms
  by (simp add: valid_frame_def inline_header_def response_frame_def header_new_def
      header_default_def Let_def unat_of_nat unat_word_ariths)

lemma dispatch_response:
  assumes "dispatch t lim g D dec f s = (Inr q, s')"
  shows "q = response_frame (opcode (header f)) (request_id (header f)) (payload q) \<and>
    length (payload q) \<le> 40"
  using assms unfolding dispatch_def Let_def
  by (auto split: if_splits sum.splits prod.splits option.splits)

text \<open>An accepted creation, with what it does to the account of the session.\<close>

lemma create_step:
  assumes "alloc_exact D" and inv: "session_inv lim s" and "n \<noteq> 0" and can: "can_create t lim n s"
  obtains r s' where "create_resource t lim D n s = (Inr r, s')" and "session_inv lim s'"
    and "hm_len (resources s') = Suc (hm_len (resources s))" and "live_bytes s' = live_bytes s + unat n"
    and "unat (next_resource_id s') = unat (next_resource_id s) + 1"
    and "sgp_handle r = next_resource_id s" and "hm_get (resources s') (sgp_handle r) = Some r"
    and "\<And>h q. hm_get (resources s) h = Some q \<Longrightarrow> hm_get (resources s') h = Some q"
proof -
  let ?r = "created D n s" and ?id = "next_resource_id s"
  let ?s = "s\<lparr>device := snd (allocate_buffer D (device s) n), next_resource_id := ?id + 1,
      resources := hm_insert ?id ?r (resources s)\<rparr>"
  have eq: "create_resource t lim D n s = (Inr ?r, ?s)"
    using assms by (simp add: create_resource_eq)
  have m: "hm_inv (resources s)" and fresh: "hm_get (resources s) ?id = None"
    using inv session_inv_fresh by (auto simp: session_inv_def)
  show ?thesis
  proof (rule that [OF eq])
    show "session_inv lim ?s" by (rule session_inv_create [OF assms(1) inv eq])
    show "live_bytes ?s = live_bytes s + unat n"
      using hm.total_ins [OF m fresh, of "\<lambda>r. unat (res_size r)" ?r]
      by (simp add: live_bytes_def res_size_created [OF assms(1)])
    show "unat (next_resource_id ?s) = unat ?id + 1"
      using can by (simp add: can_create_def unat_word_ariths)
    show "hm_get (resources ?s) h = Some q" if "hm_get (resources s) h = Some q" for h q
      using that fresh by (auto simp: hm.get_ins [OF m])
    show "hm_len (resources ?s) = Suc (hm_len (resources s))"
      using hm.len_ins [OF m fresh] by simp
    show "hm_get (resources ?s) (sgp_handle ?r) = Some ?r" by (simp add: hm.get_ins [OF m])
  qed simp
qed

lemma destroy_account:
  assumes "hm_inv (resources s)" and "hm_get (resources s) h = Some r"
    and "destroy_resource D h s = (u, s')"
  shows "hm_get (resources s') = (hm_get (resources s))(h := None) \<and>
    live_bytes s = unat (res_size r) + live_bytes s' \<and>
    hm_len (resources s) = Suc (hm_len (resources s')) \<and>
    next_resource_id s' = next_resource_id s \<and>
    destroy_resource D h s' = (Inl (ResourceNotFound h), s')"
  using assms hm.total_rem [OF assms(1,2), of "\<lambda>r. unat (res_size r)"] hm.len_rem [OF assms(1,2)]
  by (auto simp: destroy_resource_eq live_bytes_def hm.get_rem)

section \<open>Sample backends\<close>

text \<open>A device that numbers its buffers and always succeeds, one whose \<open>free\<close> fails, and the
  limits documented in \<open>SGPU_TRANSPORT.md\<close> with a command limit of 64.\<close>

definition counting_device :: "(nat, nat, nat) gpu_device" where
  "counting_device =
     \<lparr>spec_vendor = (\<lambda>_. 0), spec_metal_version = (\<lambda>_. 2), spec_vram_size = (\<lambda>_. 4194304),
      spec_max_threads = (\<lambda>_. 1), is_software_accelerated = (\<lambda>_. True),
      allocate_buffer = (\<lambda>d n. ((word_of_nat (Suc d), n), Suc d)),
      free_buffer = (\<lambda>d _. (Inr (), d)),
      write_command_buffer = (\<lambda>d _. (Inr (), d)), flush_device = (\<lambda>d. (Inr (), d))\<rparr>"

definition leaking_device :: "(nat, nat, nat) gpu_device" where
  "leaking_device = counting_device\<lparr>free_buffer := (\<lambda>d _. (Inl ''busy'', d))\<rparr>"

definition sample_enums :: "(nat, nat) gpu_enums" where
  "sample_enums =
     \<lparr>vendor_code = word_of_nat, vendor_AMD = 0, vendor_NVIDIA = 1, vendor_Intel = 2,
      vendor_Unknown = 3, metal_code = word_of_nat, metal_V2_0 = 0, metal_V3_0 = 1,
      metal_V3_1 = 2, metal_V3_2 = 3\<rparr>"

definition sample_limits :: sgpu_limits where
  "sample_limits = \<lparr>max_commands = 64, max_resources = 64, max_resource_bytes = 16777216,
     max_total_resource_bytes = 67108864\<rparr>"

definition sample_session :: "nat sgpu_session" where
  "sample_session = snd (create_resource mac_target sample_limits counting_device 256 (session_new 0))"

lemma alloc_exact_counting: "alloc_exact counting_device"
  by (simp add: alloc_exact_def counting_device_def)

lemma can_create_sample:
  "unat n \<le> 16777216 \<Longrightarrow> n \<noteq> 0 \<Longrightarrow> can_create mac_target sample_limits n (session_new d)"
  by (simp add: can_create_def session_new_def hm.len_empty live_bytes_def hm.vals_empty
      sample_limits_def mac_target_def word_le_nat_alt)

lemma create_sample:
  "create_resource mac_target sample_limits counting_device 256 (session_new 0) =
     (Inr \<lparr>sgp_handle = 1, gpu_handle = 1, res_size = 256\<rparr>, sample_session)"
  unfolding sample_session_def
  by (simp add: create_resource_eq can_create_sample)
    (simp add: created_def counting_device_def session_new_def)

lemma sample_session_get:
  "hm_get (resources sample_session) h =
     (if h = 1 then Some \<lparr>sgp_handle = 1, gpu_handle = 1, res_size = 256\<rparr> else None)"
  unfolding sample_session_def
  by (simp add: create_resource_eq can_create_sample)
    (simp add: created_def counting_device_def session_new_def hm.get_ins hm.inv_empty hm.get_empty)

lemma trace_sample:
  "session_trace mac_target sample_limits sample_enums counting_device dec [1] sample_session"
  using session_trace.create [OF session_trace.start create_sample] by simp

section \<open>Properties\<close>

text \<open>C3: Resource budgets. In every state a session can reach, through direct calls,
  dispatched frames and arbitrary changes of the device by the caller, the number of live
  resources, their total size and the size of each stay within the limits, and every live
  resource is stored under its own handle.\<close>

theorem session_budgets:
  assumes "session_trace t lim g D dec hs s" and "alloc_exact D"
  shows "hm_len (resources s) \<le> max_resources lim \<and>
    live_bytes s \<le> unat (max_total_resource_bytes lim) \<and>
    (\<forall>h r. hm_get (resources s) h = Some r \<longrightarrow>
       sgp_handle r = h \<and> res_size r \<le> max_resource_bytes lim)"
  using trace_session_inv [OF assms] by (auto simp: session_inv_def)

lemma session_budgets_witness:
  "hm_len (resources sample_session) \<le> 64 \<and> live_bytes sample_session \<le> 67108864"
  using session_budgets [OF trace_sample alloc_exact_counting] by (simp add: sample_limits_def)

text \<open>C17: Handles are never reused. Over any run, the handles the session issues, in
  CREATE_RESOURCE responses or to direct callers, strictly increase, so no handle is issued
  twice even after its resource was destroyed, and only issued handles are ever live.\<close>

theorem handles_never_reused:
  assumes "session_trace t lim g D dec hs s"
  shows "sorted_wrt (<) hs \<and> distinct hs \<and>
    (\<forall>h. hm_get (resources s) h \<noteq> None \<longrightarrow> h \<in> set hs)"
  using trace_handles_ordered [OF assms]
  by (auto simp: handles_ordered_def strict_sorted_iff)

lemma handles_never_reused_witness:
  "{h. hm_get (resources sample_session) h \<noteq> None} \<subseteq> {1}"
  using handles_never_reused [OF trace_sample] by auto

text \<open>\<open>create_resource\<close> on every branch. A zero size is a payload error, any other
  request is refused with \<open>ResourceLimit\<close> exactly when one of the limits, the pointer width or
  the handle space is exhausted, a refused request changes nothing, and an accepted one issues
  the next identifier and makes exactly that resource live.\<close>

theorem create_resource_exact:
  assumes "hm_inv (resources s)"
  shows "case create_resource t lim D n s of
     (Inl e, s') \<Rightarrow> s' = s \<and>
       (if n = 0 then e = Payload else e = ResourceLimit \<and> \<not> can_create t lim n s)
   | (Inr res, s') \<Rightarrow> n \<noteq> 0 \<and> can_create t lim n s \<and>
       sgp_handle res = next_resource_id s \<and>
       unat (next_resource_id s') = unat (next_resource_id s) + 1 \<and>
       device s' = snd (allocate_buffer D (device s) n) \<and>
       hm_get (resources s') = (hm_get (resources s))(next_resource_id s \<mapsto> res)"
  using assms
  by (auto simp: create_resource_eq can_create_def unat_word_ariths hm.get_ins)

lemma create_resource_exact_witness:
  "case create_resource mac_target sample_limits counting_device 256 (session_new 0) of
     (Inl e, s') \<Rightarrow> False
   | (Inr res, s') \<Rightarrow> sgp_handle res = 1 \<and>
       hm_get (resources s') = (hm_get (resources (session_new (0 :: nat))))(1 \<mapsto> res)"
  using create_resource_exact [of "session_new 0", where t = mac_target and lim = sample_limits
      and D = counting_device and n = 256]
  by (simp add: create_sample) (simp add: session_new_def hm.inv_empty)

text \<open>The byte budget does not depend on the iteration order of the hash map: the checked
  fold over the live sizes gives the same result, overflow included, for every permutation of
  the values, and it is the exact sum whenever that fits 64 bits.\<close>

theorem checked_total_order_free:
  assumes "mset rs = mset rs'"
  shows "checked_total acc rs = checked_total acc rs' \<and>
    (case checked_total acc rs of
       None \<Rightarrow> 2 ^ 64 \<le> unat acc + (\<Sum>r\<leftarrow>rs'. unat (res_size r))
     | Some w \<Rightarrow> unat w = unat acc + (\<Sum>r\<leftarrow>rs'. unat (res_size r)))"
proof -
  have same: "sizes_total rs = sizes_total rs'" by (rule sizes_total_mset) (rule assms)
  show ?thesis
  proof (cases "checked_total acc rs")
    case None
    then show ?thesis
      using same checked_total_None_iff [of acc rs] checked_total_None_iff [of acc rs'] by simp
  next
    case (Some w)
    then show ?thesis
      using same checked_total_Some_iff [of acc rs w] checked_total_Some_iff [of acc rs' w] by simp
  qed
qed

lemma checked_total_order_free_witness:
  "checked_total 1 [\<lparr>sgp_handle = 1, gpu_handle = 1, res_size = 7\<rparr>,
      \<lparr>sgp_handle = 2, gpu_handle = 2, res_size = 9\<rparr>] =
   checked_total 1 [\<lparr>sgp_handle = 2, gpu_handle = 2, res_size = 9\<rparr>,
      \<lparr>sgp_handle = 1, gpu_handle = 1, res_size = 7\<rparr>]"
  by (rule checked_total_order_free [THEN conjunct1]) (simp add: add_mset_commute)

text \<open>Destroying a live handle removes it whatever the GPU backend answers, returns
  exactly its bytes to the budget and leaves every other resource alone; a second destroy of the
  same handle reports \<open>ResourceNotFound\<close> and changes nothing.\<close>

theorem destroy_releases:
  assumes "hm_inv (resources s)" and "hm_get (resources s) h = Some r"
    and "destroy_resource D h s = (u, s')"
  shows "hm_get (resources s') = (hm_get (resources s))(h := None) \<and>
    live_bytes s = unat (res_size r) + live_bytes s' \<and>
    hm_len (resources s) = Suc (hm_len (resources s')) \<and>
    next_resource_id s' = next_resource_id s \<and>
    destroy_resource D h s' = (Inl (ResourceNotFound h), s')"
  by (rule destroy_account [OF assms])

lemma destroy_releases_witness:
  "fst (destroy_resource leaking_device 1 sample_session) = Inl (Gpu ''busy'') \<and>
   hm_get (resources (snd (destroy_resource leaking_device 1 sample_session))) 1 = None"
proof -
  have m: "hm_inv (resources sample_session)"
    using trace_handles_ordered [OF trace_sample] by (simp add: handles_ordered_def)
  have "fst (destroy_resource leaking_device 1 sample_session) = Inl (Gpu ''busy'')"
    by (simp add: destroy_resource_eq sample_session_get leaking_device_def counting_device_def)
  with destroy_releases [OF m, of 1 _ leaking_device] show ?thesis
    by (simp add: sample_session_get prod_eq_iff)
qed

lemma create_error_unchanged:
  "create_resource t lim D n s = (Inl e, s') \<Longrightarrow> s' = s \<and> (\<forall>m. e \<noteq> Gpu m)"
  by (auto simp: create_resource_eq split: if_splits)

lemma destroy_error:
  "destroy_resource D h s = (Inl e, s') \<Longrightarrow>
     next_resource_id s' = next_resource_id s \<and> (s' = s \<or> (\<exists>m. e = Gpu m))"
  by (auto simp: destroy_resource_eq result_simps split: option.splits)

lemma translate_commands_no_gpu:
  "translate_commands s cmds = Inl e \<Longrightarrow> e \<noteq> Gpu m"
proof (induction cmds)
  case (Cons c cmds)
  then show ?case
    by (cases c) (auto simp: result_simps lookup_gpu_handle_def)
qed simp

lemma submit_error:
  "submit lim D cmds s = (Inl e, s') \<Longrightarrow>
     resources s' = resources s \<and> next_resource_id s' = next_resource_id s \<and>
     (s' = s \<or> (\<exists>m. e = Gpu m))"
  by (auto simp: submit_def split: if_splits sum.splits prod.splits)

lemma present_error:
  "present lim D h s = (Inl e, s') \<Longrightarrow>
     resources s' = resources s \<and> next_resource_id s' = next_resource_id s \<and>
     (s' = s \<or> (\<exists>m. e = Gpu m))"
  by (auto simp: present_def dest: submit_error split: sum.splits prod.splits)

text \<open>C24: What a failed dispatch may have changed. An invalid frame, a malformed payload, an
  unknown opcode, a refused creation and an unknown resource leave the whole session untouched;
  only a failure reported by the GPU backend while destroying, submitting or presenting can
  leave a changed session, and only a destroy can then have removed a resource.\<close>

theorem dispatch_error_frame:
  assumes "dispatch t lim g D dec f s = (Inl e, s')"
  shows "next_resource_id s' = next_resource_id s \<and>
    (s' \<noteq> s \<longrightarrow> (\<exists>m. e = Gpu m) \<and>
       opcode (header f) \<in> {VF_SGPU_DESTROY_RESOURCE, VF_SGPU_SUBMIT_COMMAND_LIST, VF_SGPU_PRESENT}) \<and>
    (resources s' \<noteq> resources s \<longrightarrow> opcode (header f) = VF_SGPU_DESTROY_RESOURCE)"
  using assms unfolding dispatch_def Let_def
  by (auto dest: create_error_unchanged destroy_error submit_error present_error
      split: if_splits sum.splits prod.splits option.splits)

definition destroy_frame :: sgpu_frame where
  "destroy_frame = response_frame VF_SGPU_DESTROY_RESOURCE 9 (le_bytes 8 (1 :: u64))"

lemma dispatch_destroy_frame:
  "dispatch mac_target sample_limits sample_enums leaking_device dec destroy_frame sample_session =
     (Inl (Gpu ''busy''), snd (destroy_resource leaking_device 1 sample_session))"
proof -
  have "valid_frame destroy_frame" by (simp add: destroy_frame_def valid_response)
  then have "frame_validate mac_target destroy_frame = Inr ()" by (simp add: frame_validate_Inr_iff)
  then show ?thesis
    by (simp add: dispatch_def destroy_frame_def slice_def of_le_bytes_le_bytes)
      (simp add: destroy_resource_eq sample_session_get leaking_device_def counting_device_def)
qed

lemma dispatch_error_frame_witness:
  "next_resource_id (snd (dispatch mac_target sample_limits sample_enums leaking_device (\<lambda>_. None)
      destroy_frame sample_session)) = next_resource_id sample_session"
  using dispatch_error_frame [OF dispatch_destroy_frame] by (simp add: dispatch_destroy_frame)

text \<open>C23: Every successful dispatch answers with a well-formed response frame: it passes
  \<open>validate\<close>, repeats the opcode and the request id of the request, carries its payload right
  after the header, declares exactly 64 bytes plus the payload, and survives the wire.\<close>

theorem dispatch_response_valid:
  assumes "supported_target t" and "\<forall>n. reserve_ok t n"
    and "dispatch t lim g D dec f s = (Inr q, s')"
  shows "frame_validate t q = Inr () \<and> opcode (header q) = opcode (header f) \<and>
    request_id (header q) = request_id (header f) \<and> payload_offset (header q) = 0 \<and>
    unat (message_bytes (header q)) = 64 + length (payload q) \<and>
    (\<exists>w. try_to_wire t q = Inr w \<and> from_wire t w = Inr q)"
proof -
  obtain op rid p where q: "q = response_frame op rid p" and p: "length p \<le> 40"
    and op: "op = opcode (header f)" "rid = request_id (header f)"
    using dispatch_response [OF assms(3)] by auto
  have v: "valid_frame q" unfolding q by (rule valid_response) (rule p)
  have "payload_offset (header q) = 0 \<and> unat (message_bytes (header q)) = 64 + length (payload q)"
    using p by (simp add: q response_frame_def header_new_def header_default_def Let_def
        unat_of_nat unat_word_ariths)
  moreover have "\<exists>w. try_to_wire t q = Inr w \<and> from_wire t w = Inr q"
    using from_wire_padded [OF assms(1) v pad_lengths_zero_pads [OF v]] assms(2) v
    by (simp add: try_to_wire_Inr_iff [OF assms(1)])
  ultimately show ?thesis
    using v op by (simp add: frame_validate_Inr_iff [OF assms(1)]) (simp add: q)
qed

definition query_frame :: sgpu_frame where
  "query_frame = response_frame VF_SGPU_QUERY_CAPS 42 []"

lemma dispatch_query_frame:
  "dispatch mac_target sample_limits sample_enums counting_device dec query_frame s =
     (Inr (response_frame VF_SGPU_QUERY_CAPS 42
        (caps_encode sample_enums (query_caps counting_device s))), s)"
proof -
  have "valid_frame query_frame" by (simp add: query_frame_def valid_response)
  then have "frame_validate mac_target query_frame = Inr ()" by (simp add: frame_validate_Inr_iff)
  then show ?thesis by (simp add: dispatch_def query_frame_def)
qed

lemma dispatch_response_valid_witness:
  "request_id (header (response_frame VF_SGPU_QUERY_CAPS 42
      (caps_encode sample_enums (query_caps counting_device sample_session)))) = 42 \<and>
   frame_validate mac_target (response_frame VF_SGPU_QUERY_CAPS 42
      (caps_encode sample_enums (query_caps counting_device sample_session))) = Inr ()"
  using dispatch_response_valid [OF supported_mac _ dispatch_query_frame [of _ sample_session]]
  by simp

text \<open>What a submission means: the guest handles its commands name, in reading order, and the
  command the device is to run once each guest handle stands for a device buffer.\<close>

fun command_handles :: "sgpu_command \<Rightarrow> u64 list" where
  "command_handles (CopyBuffer src dst n) = [src, dst]"
| "command_handles (RenderClear c) = []"
| "command_handles (ComputeDispatch k grid block) = []"
| "command_handles (Present b) = [b]"

fun on_device :: "(u64 \<Rightarrow> u64) \<Rightarrow> sgpu_command \<Rightarrow> gpu_command" where
  "on_device buf (CopyBuffer src dst n) = Gpu_CopyBuffer (buf src) (buf dst) n"
| "on_device buf (RenderClear c) = Gpu_RenderClear c"
| "on_device buf (ComputeDispatch k grid block) = Gpu_ComputeKernel k grid block"
| "on_device buf (Present b) = Gpu_PresentSwapchain (buf b)"

definition device_buffer :: "'d sgpu_session \<Rightarrow> u64 \<Rightarrow> u64" where
  "device_buffer s h = gpu_handle (the (hm_get (resources s) h))"

lemma translate_command_spec:
  "translate_command s c =
     (case find (\<lambda>h. hm_get (resources s) h = None) (command_handles c) of
        Some h \<Rightarrow> Inl (ResourceNotFound h)
      | None \<Rightarrow> Inr (on_device (device_buffer s) c))"
  by (cases c) (auto simp: lookup_gpu_handle_def device_buffer_def)

lemma find_append: "find P (xs @ ys) = (case find P xs of None \<Rightarrow> find P ys | Some x \<Rightarrow> Some x)"
  by (induction xs) auto

lemma translate_commands_spec:
  "translate_commands s cmds =
     (case find (\<lambda>h. hm_get (resources s) h = None) (concat (map command_handles cmds)) of
        Some h \<Rightarrow> Inl (ResourceNotFound h)
      | None \<Rightarrow> Inr (map (on_device (device_buffer s)) cmds))"
  by (induction cmds) (auto simp: translate_command_spec find_append split: option.splits)

text \<open>C22: \<open>submit\<close> is all or nothing before the device. Too many commands are a payload error;
  otherwise, if some command names a handle that the session does not hold, the answer is
  \<open>ResourceNotFound\<close> of the first such handle, source before destination, command by command; in
  both cases neither the device nor the session changes. Otherwise the device receives, in order,
  every command with its guest handles replaced by their device buffers (copies keep their
  direction and length) in one write, and only after a successful write one flush; success reports
  the full command count and an error of the device is passed on.\<close>

theorem submit_all_or_nothing:
  "submit lim D cmds s =
     (if max_commands lim < length cmds then (Inl Payload, s)
      else case find (\<lambda>h. hm_get (resources s) h = None) (concat (map command_handles cmds)) of
        Some h \<Rightarrow> (Inl (ResourceNotFound h), s)
      | None \<Rightarrow>
         (case write_command_buffer D (device s) (map (on_device (device_buffer s)) cmds) of
            (Inl m, d) \<Rightarrow> (Inl (Gpu m), s\<lparr>device := d\<rparr>)
          | (Inr _, d) \<Rightarrow>
             (case flush_device D d of
                (Inl m, d') \<Rightarrow> (Inl (Gpu m), s\<lparr>device := d'\<rparr>)
              | (Inr _, d') \<Rightarrow> (Inr (length cmds), s\<lparr>device := d'\<rparr>))))"
  by (simp add: submit_def translate_commands_spec split: option.split)

lemma submit_all_or_nothing_witness:
  "submit sample_limits counting_device [CopyBuffer 1 1 4, Present 99] sample_session =
     (Inl (ResourceNotFound 99), sample_session) \<and>
   submit sample_limits counting_device [CopyBuffer 98 99 4, Present 1] sample_session =
     (Inl (ResourceNotFound 98), sample_session) \<and>
   fst (submit sample_limits counting_device [CopyBuffer 1 1 4, Present 1] sample_session) = Inr 2"
  unfolding submit_all_or_nothing
  by (simp add: sample_limits_def sample_session_get counting_device_def)

text \<open>Capability round trip. Decoding the 40-byte encoding of a capability record gives
  the record back, for every vendor and Metal version whose cast agrees with the decoder's
  table; shorter buffers are rejected.\<close>

theorem caps_roundtrip:
  assumes "codes_agree g c"
  shows "caps_decode g (caps_encode g c) = Inr c \<and> length (caps_encode g c) = 40 \<and>
    caps_decode g (take 39 (caps_encode g c)) = Inl Payload"
proof -
  have "slice (caps_encode g c) 8 16 = le_bytes 8 (vram_bytes c)"
    "slice (caps_encode g c) 16 20 = le_bytes 4 (max_threads_per_threadgroup c)"
    by (simp_all add: caps_encode_list slice_def)
  moreover have "caps_encode g c ! 0 = vendor_code g (vendor c)"
    "caps_encode g c ! 4 = metal_code g (metal_version c)"
    "caps_encode g c ! 20 = u8_of_bool (has_compute_shaders c)"
    "caps_encode g c ! 24 = u8_of_bool (software_accelerated c)"
    by (simp_all add: caps_encode_list nth_append nth_Cons')
  ultimately show ?thesis
    using assms
    by (cases c) (auto simp: caps_decode_def of_le_bytes_le_bytes u8_of_bool_def codes_agree_def)
qed

lemma caps_roundtrip_witness:
  "caps_decode sample_enums (caps_encode sample_enums (query_caps counting_device sample_session)) =
     Inr (query_caps counting_device sample_session)"
  using caps_roundtrip [of sample_enums "query_caps counting_device sample_session"]
  by (simp add: codes_agree_def sample_enums_def query_caps_def counting_device_def)

text \<open>C18: Freed room is granted again. In every reachable session, once a live resource is destroyed,
  whatever the device answers to the free, a request for any size up to that of the destroyed
  resource succeeds as long as an identifier is left: it issues a handle never issued before, which
  resolves, while the destroyed handle stays dead, and the account is exact.\<close>

theorem freed_room_granted:
  assumes tr: "session_trace t lim g D dec hs s" and D: "alloc_exact D"
    and live: "hm_get (resources s) h = Some r" and step: "destroy_resource D h s = (u, s')"
    and n: "0 < n" "n \<le> res_size r"
    and room: "unat (max_resource_bytes lim) < 2 ^ ptr_width t" "unat (next_resource_id s) + 1 < 2 ^ 64"
  shows "\<exists>q s''. create_resource t lim D n s' = (Inr q, s'') \<and> sgp_handle q \<notin> set hs \<and>
    lookup_gpu_handle s'' (sgp_handle q) = Inr (gpu_handle q) \<and>
    lookup_gpu_handle s'' h = Inl (ResourceNotFound h) \<and>
    live_bytes s'' + unat (res_size r) = live_bytes s + unat n"
proof -
  have inv: "session_inv lim s" and inv': "session_inv lim s'"
    using trace_session_inv [OF tr D] session_inv_destroy [OF _ step] by blast+
  then have m: "hm_inv (resources s)" and size: "res_size r \<le> max_resource_bytes lim"
    and old: "h < next_resource_id s"
    using live by (auto simp: session_inv_def)
  note freed = destroy_account [OF m live step]
  have "can_create t lim n s'"
    using freed inv n size room
    by (auto simp: can_create_def session_inv_def word_le_nat_alt word_less_nat_alt)
  then obtain q s'' where q: "create_resource t lim D n s' = (Inr q, s'')"
      "live_bytes s'' = live_bytes s' + unat n" "sgp_handle q = next_resource_id s'"
      "hm_get (resources s'') (sgp_handle q) = Some q" "session_inv lim s''"
    using create_step [OF D inv', of n] n(1) by (metis less_irrefl)
  have "resources s'' = hm_insert (next_resource_id s') (created D n s') (resources s')"
    using q(1) n(1) by (auto simp: create_resource_eq split: if_splits)
  then have "hm_get (resources s'') h = None"
    using freed old inv' by (simp add: hm.get_ins session_inv_def)
  moreover have "sgp_handle q \<notin> set hs"
    using trace_handles_ordered [OF tr] q(3) freed by (auto simp: handles_ordered_def)
  ultimately show ?thesis
    using q freed by (auto simp: lookup_gpu_handle_def)
qed

lemma freed_room_granted_witness:
  "\<exists>q s''. create_resource mac_target sample_limits counting_device 200
      (snd (destroy_resource counting_device 1 sample_session)) = (Inr q, s'') \<and> sgp_handle q \<noteq> 1 \<and>
    live_bytes s'' + 256 = live_bytes sample_session + 200"
proof -
  obtain u s' where d: "destroy_resource counting_device 1 sample_session = (u, s')"
    by (cases "destroy_resource counting_device 1 sample_session") blast
  have "unat (next_resource_id sample_session) + 1 < 2 ^ 64"
    unfolding sample_session_def
    by (simp add: create_resource_eq can_create_sample) (simp add: session_new_def)
  then show ?thesis
    using freed_room_granted [OF trace_sample alloc_exact_counting _ d, of _ 200]
    by (force simp: sample_session_get d sample_limits_def mac_target_def)
qed

end
