(* ===== verification/Sgpu_Ledger.thy ===== *)
theory Sgpu_Ledger
  imports Sgpu_Trace
begin

text \<open>
  What a client of the graphics service may rely on, without the device, the GPU handles and the
  frames: a ledger of live handles with their sizes. The ledger says when a creation is granted,
  which handle it returns and what a destruction gives back; \<open>SgpuSession::dispatch\<close> of
  \<open>src/sgpu.rs\<close> refines it, for every sequence of requests.
\<close>

section \<open>Runs and simulation\<close>

lemma le_bytes_inject:
  assumes "le_bytes 8 (v :: u64) = le_bytes 8 w"
  shows "v = w"
proof -
  have "of_le_bytes (le_bytes 8 x) = x" for x :: u64 by (rule of_le_bytes_le_bytes) simp
  then show ?thesis using assms by metis
qed

primrec runs :: "('s \<Rightarrow> 'l \<Rightarrow> 's \<Rightarrow> bool) \<Rightarrow> 's \<Rightarrow> 'l list \<Rightarrow> 's \<Rightarrow> bool" where
  "runs R s [] s' \<longleftrightarrow> s' = s"
| "runs R s (l # ls) s' \<longleftrightarrow> (\<exists>m. R s l m \<and> runs R m ls s')"

lemma runs_invariant:
  assumes "\<And>s l s'. I s \<Longrightarrow> R s l s' \<Longrightarrow> I s'"
  shows "runs R s ls s' \<Longrightarrow> I s \<Longrightarrow> I s'"
  by (induction ls arbitrary: s) (auto dest: assms)

locale simulation =
  fixes cstep :: "'c \<Rightarrow> 'l \<Rightarrow> 'c \<Rightarrow> bool"
    and astep :: "'a \<Rightarrow> 'l \<Rightarrow> 'a \<Rightarrow> bool"
    and abstract :: "'c \<Rightarrow> 'a"
    and good :: "'c \<Rightarrow> bool"
  assumes good_step: "good c \<Longrightarrow> cstep c l c' \<Longrightarrow> good c'"
    and sim_step: "good c \<Longrightarrow> cstep c l c' \<Longrightarrow> astep (abstract c) l (abstract c')"
begin

lemma good_runs: "runs cstep c ls c' \<Longrightarrow> good c \<Longrightarrow> good c'"
  using runs_invariant [of good cstep] good_step by blast

lemma sim_runs: "runs cstep c ls c' \<Longrightarrow> good c \<Longrightarrow> runs astep (abstract c) ls (abstract c')"
  by (induction ls arbitrary: c) (auto dest: good_step sim_step)

lemma abstract_invariant:
  assumes "\<And>a l a'. J a \<Longrightarrow> astep a l a' \<Longrightarrow> J a'"
    and "runs cstep c ls c'" and "good c" and "J (abstract c)"
  shows "J (abstract c')"
  using runs_invariant [of J astep "abstract c" ls "abstract c'"] assms(1,4) sim_runs [OF assms(2,3)]
  by blast

end

section \<open>The ledger\<close>

record ledger =
  sizes :: "u64 \<Rightarrow> nat option"
  next_handle :: nat

definition empty_ledger :: ledger where
  "empty_ledger = \<lparr>sizes = (\<lambda>_. None), next_handle = 1\<rparr>"

definition total_size :: "ledger \<Rightarrow> nat" where
  "total_size L = (\<Sum>h\<in>dom (sizes L). the (sizes L h))"

definition room :: "sgpu_limits \<Rightarrow> ledger \<Rightarrow> nat \<Rightarrow> bool" where
  "room lim L n \<longleftrightarrow>
     0 < n \<and> n \<le> unat (max_resource_bytes lim) \<and> card (dom (sizes L)) < max_resources lim \<and>
     n + total_size L \<le> unat (max_total_resource_bytes lim) \<and> next_handle L + 1 < 2 ^ 64"

type_synonym exchange = "sgpu_frame \<times> (sgpu_frame, sgpu_error) result"

text \<open>A valid frame that asks for a nonempty resource or names a handle to destroy.\<close>

definition plain_request :: "sgpu_frame \<Rightarrow> bool" where
  "plain_request f \<longleftrightarrow> valid_frame f \<and> length (payload f) = 8 \<and>
     (opcode (header f) = VF_SGPU_CREATE_RESOURCE \<and> of_le_bytes (payload f) \<noteq> (0 :: u64) \<or>
      opcode (header f) = VF_SGPU_DESTROY_RESOURCE)"

text \<open>The exchanges of a request and its reply the ledger allows, and what they do to it.\<close>

inductive ledger_step :: "sgpu_limits \<Rightarrow> ledger \<Rightarrow> exchange \<Rightarrow> ledger \<Rightarrow> bool" for lim where
  created: "opcode (header f) = VF_SGPU_CREATE_RESOURCE \<Longrightarrow> payload f = le_bytes 8 (n :: u64) \<Longrightarrow>
    room lim L (unat n) \<Longrightarrow> payload q = le_bytes 8 (word_of_nat (next_handle L) :: u64) \<Longrightarrow>
    ledger_step lim L (f, Inr q)
      (L\<lparr>sizes := (sizes L)(word_of_nat (next_handle L) \<mapsto> unat n), next_handle := next_handle L + 1\<rparr>)"
| destroyed: "opcode (header f) = VF_SGPU_DESTROY_RESOURCE \<Longrightarrow> payload f = le_bytes 8 (h :: u64) \<Longrightarrow>
    h \<in> dom (sizes L) \<Longrightarrow>
    (case r of Inr q \<Rightarrow> payload q = [] | Inl e \<Rightarrow> \<exists>m. e = Gpu m) \<Longrightarrow>
    ledger_step lim L (f, r) (L\<lparr>sizes := (sizes L)(h := None)\<rparr>)"
| served: "opcode (header f) \<noteq> VF_SGPU_CREATE_RESOURCE \<Longrightarrow>
    opcode (header f) \<noteq> VF_SGPU_DESTROY_RESOURCE \<Longrightarrow> ledger_step lim L (f, Inr q) L"
| no_room: "opcode (header f) = VF_SGPU_CREATE_RESOURCE \<Longrightarrow> payload f = le_bytes 8 (n :: u64) \<Longrightarrow>
    \<not> room lim L (unat n) \<Longrightarrow> ledger_step lim L (f, Inl ResourceLimit) L"
| unknown: "opcode (header f) \<noteq> VF_SGPU_CREATE_RESOURCE \<Longrightarrow>
    (opcode (header f) = VF_SGPU_DESTROY_RESOURCE \<Longrightarrow> payload f = le_bytes 8 h) \<Longrightarrow>
    h \<notin> dom (sizes L) \<Longrightarrow> ledger_step lim L (f, Inl (ResourceNotFound h)) L"
| refused: "\<not> plain_request f \<Longrightarrow> e = Payload \<or> (\<exists>v. e = Vf v) \<Longrightarrow> ledger_step lim L (f, Inl e) L"
| backend: "opcode (header f) \<noteq> VF_SGPU_CREATE_RESOURCE \<Longrightarrow>
    opcode (header f) \<noteq> VF_SGPU_DESTROY_RESOURCE \<Longrightarrow> ledger_step lim L (f, Inl (Gpu m)) L"

inductive_cases ledger_stepE: "ledger_step lim L (f, r) L'"

text \<open>So the ledger decides every plain request.\<close>

lemma ledger_create_decided:
  assumes "ledger_step lim L (f, r) L'" and "plain_request f"
    and "opcode (header f) = VF_SGPU_CREATE_RESOURCE" and "payload f = le_bytes 8 (n :: u64)"
  shows "(\<exists>q. r = Inr q) = room lim L (unat n)"
  using assms(1)
  by (rule ledger_stepE) (use assms(2-4) in \<open>auto dest!: le_bytes_inject\<close>)

lemma ledger_destroy_decided:
  assumes "ledger_step lim L (f, r) L'" and "plain_request f"
    and "opcode (header f) = VF_SGPU_DESTROY_RESOURCE" and "payload f = le_bytes 8 (h :: u64)"
  shows "sizes L' = (sizes L)(h := None) \<and> (r = Inl (ResourceNotFound h)) = (h \<notin> dom (sizes L))"
  using assms(1)
  by (rule ledger_stepE) (use assms(2-4) in \<open>auto dest!: le_bytes_inject\<close>)

text \<open>The ledger keeps its own budgets and never issues a handle twice.\<close>

definition ledger_ok :: "sgpu_limits \<Rightarrow> ledger \<Rightarrow> bool" where
  "ledger_ok lim L \<longleftrightarrow> finite (dom (sizes L)) \<and> card (dom (sizes L)) \<le> max_resources lim \<and>
     total_size L \<le> unat (max_total_resource_bytes lim) \<and> next_handle L < 2 ^ 64 \<and>
     (\<forall>h\<in>dom (sizes L). unat h < next_handle L)"

lemma total_size_insert:
  assumes "finite (dom (sizes L))" and "sizes L h = None"
  shows "total_size (L\<lparr>sizes := (sizes L)(h \<mapsto> n), next_handle := k\<rparr>) = n + total_size L"
proof -
  have "(\<Sum>x\<in>dom (sizes L). the (((sizes L)(h \<mapsto> n)) x)) = (\<Sum>x\<in>dom (sizes L). the (sizes L x))"
    using assms(2) by (intro sum.cong) auto
  moreover have "h \<notin> dom (sizes L)" using assms(2) by auto
  ultimately show ?thesis using assms(1) by (simp add: total_size_def)
qed

lemma total_size_remove:
  assumes "finite (dom (sizes L))"
  shows "total_size (L\<lparr>sizes := (sizes L)(h := None)\<rparr>) \<le> total_size L"
proof -
  have "(\<Sum>x\<in>dom (sizes L) - {h}. the (((sizes L)(h := None)) x)) =
      (\<Sum>x\<in>dom (sizes L) - {h}. the (sizes L x))"
    by (intro sum.cong) auto
  also have "\<dots> \<le> (\<Sum>x\<in>dom (sizes L). the (sizes L x))"
    using assms by (intro sum_mono2) auto
  finally show ?thesis by (simp add: total_size_def)
qed

lemma ledger_ok_step:
  assumes "ledger_ok lim L" and "ledger_step lim L x L'"
  shows "ledger_ok lim L'"
  using assms(2,1)
proof (cases rule: ledger_step.cases)
  case (created f n q)
  let ?h = "word_of_nat (next_handle L) :: u64"
  have u: "unat ?h = next_handle L" using assms(1) by (simp add: ledger_ok_def unat_of_nat)
  have new: "?h \<notin> dom (sizes L)"
    using assms(1) u unfolding ledger_ok_def by (metis order_less_irrefl)
  then have fresh: "sizes L ?h = None" by auto
  have "unat h < next_handle L + 1" if "h \<in> insert ?h (dom (sizes L))" for h
  proof (cases "h = ?h")
    case False
    then have "unat h < next_handle L" using that assms(1) unfolding ledger_ok_def by blast
    then show ?thesis by simp
  qed (simp add: u)
  moreover have "card (insert ?h (dom (sizes L))) = Suc (card (dom (sizes L)))"
    using assms(1) new by (simp add: ledger_ok_def)
  moreover have "total_size L' = unat n + total_size L"
    using assms(1) fresh unfolding created(2) by (intro total_size_insert) (simp_all add: ledger_ok_def)
  ultimately show ?thesis
    using assms(1) created(2,5) by (simp add: ledger_ok_def room_def)
next
  case (destroyed f h r)
  have "card (dom (sizes L) - {h}) \<le> card (dom (sizes L))"
    using assms(1) by (intro card_mono) (auto simp: ledger_ok_def)
  then show ?thesis
    using assms(1) destroyed(2) total_size_remove [of L h] unfolding ledger_ok_def by auto
qed (use assms in simp_all)

section \<open>The ledger of a session\<close>

definition ledger_of :: "'d sgpu_session \<Rightarrow> ledger" where
  "ledger_of s =
     \<lparr>sizes = (\<lambda>h. map_option (\<lambda>r. unat (res_size r)) (hm_get (resources s) h)),
      next_handle = unat (next_resource_id s)\<rparr>"

lemma ledger_of_device [simp]: "ledger_of (s\<lparr>device := d\<rparr>) = ledger_of s"
  by (simp add: ledger_of_def)

lemma dom_ledger_of: "dom (sizes (ledger_of s)) = dom (hm_get (resources s))"
  by (auto simp: ledger_of_def)

lemma dom_hm: "dom (hm_get m) = fst ` set m"
proof -
  have "hm_get m = map_of m" by (simp add: fun_eq_iff hm_get_def)
  then show ?thesis by (simp add: dom_map_of_conv_image_fst)
qed

lemma card_hm: "hm_inv m \<Longrightarrow> card (dom (hm_get m)) = hm_len m"
  using distinct_card [of "map fst m"] by (simp add: hm_inv_def hm_len_def dom_hm)

lemma sum_hm:
  "hm_inv m \<Longrightarrow> sum_list (map f (hm_values m)) = (\<Sum>k\<in>dom (hm_get m). f (the (hm_get m k)) :: nat)"
proof (induction m)
  case Nil
  then show ?case by (simp add: hm_get_def hm_values_def)
next
  case (Cons p m)
  have m: "hm_inv m" and new: "fst p \<notin> dom (hm_get m)"
    using Cons.prems by (simp_all add: hm_inv_def dom_hm)
  have "(\<Sum>k\<in>dom (hm_get m). f (the (hm_get (p # m) k))) = (\<Sum>k\<in>dom (hm_get m). f (the (hm_get m k)))"
    using new by (intro sum.cong) (auto simp: hm_get_def)
  moreover have "dom (hm_get (p # m)) = insert (fst p) (dom (hm_get m))" by (simp add: dom_hm)
  moreover have "finite (dom (hm_get m))" by (simp add: dom_hm)
  moreover have "hm_get (p # m) (fst p) = Some (snd p)" by (simp add: hm_get_def)
  ultimately show ?case
    using Cons.IH [OF m] new by (simp add: hm_values_def)
qed

lemma total_ledger_of:
  assumes "hm_inv (resources s)"
  shows "total_size (ledger_of s) = live_bytes s"
proof -
  have "(\<Sum>h\<in>dom (hm_get (resources s)). the (sizes (ledger_of s) h)) =
      (\<Sum>h\<in>dom (hm_get (resources s)). unat (res_size (the (hm_get (resources s) h))))"
    by (intro sum.cong) (auto simp: ledger_of_def)
  then show ?thesis
    using sum_hm [OF assms, of "\<lambda>r. unat (res_size r)"]
    by (simp add: total_size_def dom_ledger_of live_bytes_def)
qed

lemma ledger_of_new: "ledger_of (session_new d) = empty_ledger"
  by (simp add: ledger_of_def empty_ledger_def session_new_def hm.get_empty)

section \<open>The session refines the ledger\<close>

lemma room_ledger_of:
  assumes "hm_inv (resources s)" and "unat (max_resource_bytes lim) < 2 ^ ptr_width t"
  shows "room lim (ledger_of s) (unat n) \<longleftrightarrow> can_create t lim n s"
proof -
  have "next_handle (ledger_of s) = unat (next_resource_id s)" by (simp add: ledger_of_def)
  then show ?thesis
    using assms(2) by (auto simp: room_def can_create_def total_ledger_of [OF assms(1)]
        dom_ledger_of card_hm [OF assms(1)] word_le_nat_alt unat_gt_0)
qed

lemma frame_validate_Inl: "frame_validate t f = Inl e \<Longrightarrow> e = Payload \<or> (\<exists>v. e = Vf v)"
  by (auto simp: frame_validate_def frame_layout_def result_simps split: if_splits prod.splits)

lemma translate_commands_unknown:
  "translate_commands s cmds = Inl e \<Longrightarrow> \<exists>h. e = ResourceNotFound h \<and> hm_get (resources s) h = None"
proof (induction cmds)
  case (Cons c cmds)
  then show ?case by (cases c) (auto simp: result_simps lookup_gpu_handle_def)
qed simp

lemma submit_Inl:
  assumes "submit lim D cmds s = (Inl e, s')"
  shows "e = Payload \<or> (\<exists>m. e = Gpu m) \<or> (\<exists>h. e = ResourceNotFound h \<and> h \<notin> dom (sizes (ledger_of s)))"
  using assms translate_commands_unknown [of s cmds]
  by (auto simp: submit_def dom_ledger_of split: if_splits sum.splits prod.splits)

lemma present_Inl:
  assumes "present lim D h s = (Inl e, s')"
  shows "e = Payload \<or> (\<exists>m. e = Gpu m) \<or> (\<exists>h. e = ResourceNotFound h \<and> h \<notin> dom (sizes (ledger_of s)))"
  using assms by (auto simp: present_def dest: submit_Inl split: sum.splits prod.splits)

lemma ledger_of_create:
  assumes "hm_inv (resources s)" and "alloc_exact D" and "n \<noteq> 0" and "can_create t lim n s"
    and "create_resource t lim D n s = (r, s')"
  shows "r = Inr (created D n s)"
    and "ledger_of s' = (ledger_of s)\<lparr>sizes := (sizes (ledger_of s))(next_resource_id s \<mapsto> unat n),
      next_handle := next_handle (ledger_of s) + 1\<rparr>"
  using assms
  by (auto simp: create_resource_eq ledger_of_def fun_eq_iff hm.get_ins can_create_def
      unat_word_ariths res_size_created)

lemma ledger_of_destroy:
  assumes "hm_inv (resources s)" and "h \<in> dom (sizes (ledger_of s))"
    and "destroy_resource D h s = (r, s')"
  shows "ledger_of s' = (ledger_of s)\<lparr>sizes := (sizes (ledger_of s))(h := None)\<rparr>"
    and "case r of Inr _ \<Rightarrow> True | Inl e \<Rightarrow> \<exists>m. e = Gpu m"
  using assms
  by (auto simp: destroy_resource_eq ledger_of_def fun_eq_iff hm.get_rem result_simps
      split: option.splits sum.splits)

lemma payload_word: "length p = 8 \<Longrightarrow> p = le_bytes 8 (of_le_bytes (slice p 0 8) :: u64)"
  using le_bytes_of_le_bytes [of p, where 'a = 64] by (simp add: slice_def)

lemma ledger_create:
  assumes "session_inv lim s" and "alloc_exact D" and "unat (max_resource_bytes lim) < 2 ^ ptr_width t"
    and "opcode (header f) = VF_SGPU_CREATE_RESOURCE" and "length (payload f) = 8"
    and "create_resource t lim D (of_le_bytes (slice (payload f) 0 8)) s = (r, s')"
    and "x = (case r of Inl e \<Rightarrow> Inl e | Inr res \<Rightarrow> Inr (response_frame op rid (le_bytes 8 (sgp_handle res))))"
  shows "ledger_step lim (ledger_of s) (f, x) (ledger_of s')"
proof -
  let ?n = "of_le_bytes (slice (payload f) 0 8) :: u64"
  have m: "hm_inv (resources s)" using assms(1) by (simp add: session_inv_def)
  have p: "payload f = le_bytes 8 ?n" by (rule payload_word) (rule assms(5))
  have r: "room lim (ledger_of s) (unat ?n) \<longleftrightarrow> can_create t lim ?n s"
    by (rule room_ledger_of [OF m assms(3)])
  have id: "word_of_nat (next_handle (ledger_of s)) = next_resource_id s" by (simp add: ledger_of_def)
  consider "?n = 0" | "?n \<noteq> 0" "\<not> can_create t lim ?n s" | "?n \<noteq> 0" "can_create t lim ?n s" by blast
  then show ?thesis
  proof cases
    case 1
    then have "\<not> plain_request f" using assms(4,5) by (simp add: plain_request_def slice_def)
    then show ?thesis using 1 assms(6,7) by (auto simp: create_resource_eq intro!: ledger_step.refused)
  next
    case 2
    then show ?thesis using assms(6,7) r
      by (auto simp: create_resource_eq intro!: ledger_step.no_room [OF assms(4) p])
  next
    case 3
    from ledger_of_create [OF m assms(2) 3 assms(6)] show ?thesis
      using ledger_step.created [OF assms(4) p, of lim "ledger_of s" "response_frame op rid (le_bytes 8 (next_resource_id s))"]
        3 r assms(7) by (simp add: id)
  qed
qed

lemma ledger_destroy:
  assumes "session_inv lim s"
    and "opcode (header f) = VF_SGPU_DESTROY_RESOURCE" and "length (payload f) = 8"
    and "destroy_resource D (of_le_bytes (slice (payload f) 0 8)) s = (r, s')"
    and "x = (case r of Inl e \<Rightarrow> Inl e | Inr _ \<Rightarrow> Inr (response_frame op rid []))"
  shows "ledger_step lim (ledger_of s) (f, x) (ledger_of s')"
proof -
  let ?h = "of_le_bytes (slice (payload f) 0 8) :: u64"
  have m: "hm_inv (resources s)" using assms(1) by (simp add: session_inv_def)
  have p: "payload f = le_bytes 8 ?h" by (rule payload_word) (rule assms(3))
  show ?thesis
  proof (cases "?h \<in> dom (sizes (ledger_of s))")
    case True
    from ledger_of_destroy [OF m True assms(4)] show ?thesis
      using ledger_step.destroyed [OF assms(2) p True, of x lim] assms(5)
      by (auto split: sum.splits)
  next
    case False
    then have "hm_get (resources s) ?h = None" by (auto simp: dom_ledger_of)
    then show ?thesis using assms(4,5) False
      p assms(2) by (auto simp: destroy_resource_eq intro!: ledger_step.unknown)
  qed
qed

text \<open>An operation that only uses the device.\<close>

lemma ledger_device_only:
  assumes "s' = s\<lparr>device := d\<rparr>" and "opcode (header f) = VF_SGPU_SUBMIT_COMMAND_LIST \<or> opcode (header f) = VF_SGPU_PRESENT"
    and "case x of Inr _ \<Rightarrow> True | Inl e \<Rightarrow> e = Payload \<or> (\<exists>m. e = Gpu m) \<or>
      (\<exists>h. e = ResourceNotFound h \<and> h \<notin> dom (sizes (ledger_of s)))"
  shows "ledger_step lim (ledger_of s) (f, x) (ledger_of s')"
proof -
  have "opcode (header f) \<noteq> VF_SGPU_CREATE_RESOURCE" "opcode (header f) \<noteq> VF_SGPU_DESTROY_RESOURCE"
      "\<not> plain_request f"
    using assms(2) by (auto simp: plain_request_def)
  then show ?thesis
    using assms(1,3) by (auto intro: ledger_step.intros split: sum.splits)
qed

lemma dispatch_ledger_step:
  assumes "session_inv lim s" and "alloc_exact D" and "unat (max_resource_bytes lim) < 2 ^ ptr_width t"
    and "supported_target t" and d: "dispatch t lim g D dec f s = (r, s')"
  shows "ledger_step lim (ledger_of s) (f, r) (ledger_of s')"
proof (cases "frame_validate t f")
  case (Inl e)
  then have "\<not> plain_request f"
    using frame_validate_Inr_iff [OF assms(4), of f] by (auto simp: plain_request_def)
  then show ?thesis using d Inl frame_validate_Inl [OF Inl] by (auto simp: dispatch_def intro: ledger_step.refused)
next
  case (Inr u)
  let ?op = "opcode (header f)" and ?n = "of_le_bytes (slice (payload f) 0 8) :: u64"
  have bad: "ledger_step lim (ledger_of s) (f, Inl Payload) (ledger_of s)"
    if "length (payload f) \<noteq> 8 \<or> ?op \<notin> {VF_SGPU_CREATE_RESOURCE, VF_SGPU_DESTROY_RESOURCE}"
    by (rule ledger_step.refused) (use that in \<open>auto simp: plain_request_def\<close>)
  consider "?op = VF_SGPU_QUERY_CAPS" | "?op = VF_SGPU_CREATE_RESOURCE" | "?op = VF_SGPU_DESTROY_RESOURCE"
    | "?op = VF_SGPU_SUBMIT_COMMAND_LIST" | "?op = VF_SGPU_PRESENT"
    | "?op \<notin> {VF_SGPU_QUERY_CAPS, VF_SGPU_CREATE_RESOURCE, VF_SGPU_DESTROY_RESOURCE,
        VF_SGPU_SUBMIT_COMMAND_LIST, VF_SGPU_PRESENT}" by blast
  then show ?thesis
  proof cases
    case 1
    then show ?thesis using d Inr bad
      by (auto simp: dispatch_def Let_def intro: ledger_step.served split: if_splits)
  next
    case 2
    obtain q s'' where q: "create_resource t lim D ?n s = (q, s'')" by fastforce
    show ?thesis
      using ledger_create [OF assms(1-3) 2 _ q refl] d Inr bad 2 q
      by (cases q) (auto simp: dispatch_def Let_def split: if_splits)
  next
    case 3
    obtain q s'' where q: "destroy_resource D ?n s = (q, s'')" by fastforce
    show ?thesis
      using ledger_destroy [OF assms(1) 3 _ q refl] d Inr bad 3 q
      by (cases q) (auto simp: dispatch_def Let_def split: if_splits)
  next
    case 4
    show ?thesis
    proof (cases "dec (payload f)")
      case None
      then show ?thesis using d Inr 4 bad by (simp add: dispatch_def Let_def)
    next
      case (Some cmds)
      obtain q s'' where q: "submit lim D cmds s = (q, s'')" by fastforce
      obtain d' where "s'' = s\<lparr>device := d'\<rparr>" using submit_frame [OF q] by blast
      then show ?thesis
        using d Inr 4 Some q submit_Inl [of lim D cmds s]
        by (intro ledger_device_only [where d = d']) (auto simp: dispatch_def Let_def split: sum.splits)
    qed
  next
    case 5
    obtain q s'' where q: "present lim D ?n s = (q, s'')" by fastforce
    obtain d' where "s'' = s\<lparr>device := d'\<rparr>" using present_frame [OF q] by blast
    then show ?thesis
      using d Inr 5 q present_Inl [of lim D ?n s] bad
      by (cases "length (payload f) = 8")
        (auto simp: dispatch_def Let_def intro!: ledger_device_only [where d = d'] split: sum.splits)
  next
    case 6
    then have "\<not> plain_request f" by (auto simp: plain_request_def)
    with 6 show ?thesis using d Inr by (auto simp: dispatch_def Let_def intro: ledger_step.refused)
  qed
qed

text \<open>A request served by the session, as a step with its reply.\<close>

definition exchange_step ::
    "target \<Rightarrow> sgpu_limits \<Rightarrow> ('v, 'm) gpu_enums \<Rightarrow> ('d, 'v, 'm) gpu_device \<Rightarrow>
     (bytes \<Rightarrow> sgpu_command list option) \<Rightarrow> 'd sgpu_session \<Rightarrow> exchange \<Rightarrow> 'd sgpu_session \<Rightarrow> bool" where
  "exchange_step t lim g D dec s x s' \<longleftrightarrow> dispatch t lim g D dec (fst x) s = (snd x, s')"

lemma dispatch_session_inv:
  assumes "session_inv lim s" and "alloc_exact D" and "dispatch t lim g D dec f s = (r, s')"
  shows "session_inv lim s'"
  using assms(3)
proof (cases rule: dispatch_cases)
  case (create n q)
  then show ?thesis by (blast intro: session_inv_create [OF assms(2,1)])
next
  case (destroy h q)
  then show ?thesis by (blast intro: session_inv_destroy [OF assms(1)])
next
  case (submit cmds q)
  then show ?thesis using submit_frame assms(1) by fastforce
next
  case (present h q)
  then show ?thesis using present_frame assms(1) by fastforce
qed (use assms(1) in simp)

interpretation session_sim: simulation "exchange_step t lim g D dec" "ledger_step lim" ledger_of
    "\<lambda>s. session_inv lim s \<and> alloc_exact D \<and>
      unat (max_resource_bytes lim) < 2 ^ ptr_width t \<and> supported_target t"
  for t lim g D dec
  by unfold_locales
    (auto simp: exchange_step_def intro: dispatch_session_inv dispatch_ledger_step)

lemma ledger_ok_empty: "ledger_ok lim empty_ledger"
  by (simp add: ledger_ok_def empty_ledger_def total_size_def)

definition create_frame :: sgpu_frame where
  "create_frame = response_frame VF_SGPU_CREATE_RESOURCE 9 (le_bytes 8 (256 :: u64))"

lemma dispatch_create_frame:
  "dispatch mac_target sample_limits sample_enums counting_device dec create_frame (session_new 0) =
     (Inr (response_frame VF_SGPU_CREATE_RESOURCE 9 (le_bytes 8 (1 :: u64))), sample_session)"
proof -
  have "valid_frame create_frame" by (simp add: create_frame_def valid_response)
  then have "frame_validate mac_target create_frame = Inr ()" by (simp add: frame_validate_Inr_iff)
  then show ?thesis
    by (simp add: dispatch_def create_frame_def slice_def of_le_bytes_le_bytes create_sample)
qed

section \<open>Property\<close>

text \<open>C2: The graphics service refines its ledger. Serving any sequence of request frames from a new
  session is a run of the ledger with the same requests and replies: a well-formed creation is
  granted exactly when the ledger has room, returns the next handle and enters the requested
  size; a well-formed destruction removes the named handle, also when the backend fails to free
  it, and reports an unknown resource exactly when it is not live; every other request leaves the
  ledger alone. The ledger keeps its budgets and its handles stay below the next one throughout.\<close>

theorem session_refines_ledger:
  assumes "runs (exchange_step t lim g D dec) (session_new d) xs s" and "alloc_exact D"
    and "unat (max_resource_bytes lim) < 2 ^ ptr_width t" and "supported_target t"
  shows "runs (ledger_step lim) empty_ledger xs (ledger_of s) \<and> ledger_ok lim (ledger_of s)"
proof -
  have good: "session_inv lim (session_new d) \<and> alloc_exact D \<and>
      unat (max_resource_bytes lim) < 2 ^ ptr_width t \<and> supported_target t"
    using assms(2-4) by (simp add: session_inv_new)
  from session_sim.sim_runs [OF assms(1) good]
    session_sim.abstract_invariant [where J = "ledger_ok lim", OF ledger_ok_step assms(1) good]
  show ?thesis by (simp add: ledger_of_new ledger_ok_empty)
qed

lemma session_refines_ledger_witness:
  "runs (ledger_step sample_limits) empty_ledger
     [(create_frame, Inr (response_frame VF_SGPU_CREATE_RESOURCE 9 (le_bytes 8 (1 :: u64))))]
     (ledger_of sample_session) \<and> sizes (ledger_of sample_session) 1 = Some 256"
proof -
  have "runs (exchange_step mac_target sample_limits sample_enums counting_device (\<lambda>_. None)) (session_new 0)
      [(create_frame, Inr (response_frame VF_SGPU_CREATE_RESOURCE 9 (le_bytes 8 (1 :: u64))))] sample_session"
    by (simp add: exchange_step_def dispatch_create_frame)
  moreover have "unat (max_resource_bytes sample_limits) < 2 ^ ptr_width mac_target"
    by (simp add: sample_limits_def mac_target_def)
  moreover have "sizes (ledger_of sample_session) 1 = Some 256"
    by (simp add: ledger_of_def sample_session_get)
  ultimately show ?thesis
    using session_refines_ledger [OF _ alloc_exact_counting _ supported_mac] by blast
qed

end
