(* ===== verification/Sgpu_Grant.thy ===== *)
theory Sgpu_Grant
  imports Sgpu_Frame
begin

text \<open>
  The VSK grant transport of \<open>src/sgpu_grant.rs\<close>: the granted-header profile, the grant policy
  over a table of root-owned snapshots, the payload window, the conversion of inline frames and
  \<open>SgpuGrantSession\<close>. The compute session of the Nextcore GPU crate is the argument
  \<open>submit_wire\<close>. The lemmas state when a header, a grant and a window are accepted.
\<close>

section \<open>Constants, errors and root metadata\<close>

definition VF_POLICY_TABLE_MAX :: nat where [simp]: "VF_POLICY_TABLE_MAX = 4096"
definition VF_RIGHT_READ :: u32 where [simp]: "VF_RIGHT_READ = 1"
definition VF_RIGHT_WRITE :: u32 where [simp]: "VF_RIGHT_WRITE = 2"
definition VF_RIGHT_ALL :: u32 where [simp]: "VF_RIGHT_ALL = 255"
definition VF_OBJECT_GRANT :: u32 where [simp]: "VF_OBJECT_GRANT = 1"
definition VF_CAP_LIVE :: u32 where [simp]: "VF_CAP_LIVE = 1"
definition VF_GRANT_LIVE :: u32 where [simp]: "VF_GRANT_LIVE = 1"

datatype grant_error = Einval | Eabi | Enotsup | Estale | Eperm | Erange | Eambig

text \<open>The \<open>i32\<close> discriminants.\<close>

fun grant_status :: "grant_error \<Rightarrow> int" where
  "grant_status Einval = -1"
| "grant_status Eabi = -2"
| "grant_status Enotsup = -3"
| "grant_status Estale = -4"
| "grant_status Eperm = -5"
| "grant_status Erange = -6"
| "grant_status Eambig = -9"

text \<open>The errors are ordered by their status.\<close>

lemma grant_status_inject: "grant_status a = grant_status b \<longleftrightarrow> a = b"
  by (cases a; cases b) simp_all

instantiation grant_error :: linorder
begin

definition less_eq_grant_error :: "grant_error \<Rightarrow> grant_error \<Rightarrow> bool" where
  "less_eq_grant_error a b \<longleftrightarrow> grant_status a \<le> grant_status b"

definition less_grant_error :: "grant_error \<Rightarrow> grant_error \<Rightarrow> bool" where
  "less_grant_error a b \<longleftrightarrow> grant_status a < grant_status b"

instance
  by standard (auto simp: less_eq_grant_error_def less_grant_error_def grant_status_inject
      simp flip: grant_status_inject)

end

record vf_cap_entry =
  slot :: u32
  generation :: u32
  holder_cell :: u32
  object_type :: u32
  rights :: u32
  cap_state :: u32
  object_id :: u64
  valid_from :: u64
  expires_at :: u64

record vf_grant_entry =
  cap :: vf_cap_entry
  grant_bytes :: u64
  owner_cell :: u32
  grant_state :: u32

record vf_grant_snapshot =
  entry :: vf_grant_entry
  snapshot_offset :: u64
  data :: bytes

section \<open>The granted-header profile\<close>

definition known_opcode :: "u16 \<Rightarrow> u16 \<Rightarrow> bool" where
  "known_opcode fam op =
     (if fam = VF_FAMILY_ROOT then 1 \<le> op \<and> op \<le> 9
      else if fam = VF_FAMILY_BLOCK then 1 \<le> op \<and> op \<le> 3
      else if fam = VF_FAMILY_SGPU then 1 \<le> op \<and> op \<le> 7
      else False)"

definition validate_grant_header :: "vf_msg_header \<Rightarrow> (unit, grant_error) result" where
  "validate_grant_header h =
     (if magic h \<noteq> VF_MSG_MAGIC \<or> abi_major h \<noteq> VF_ABI_MAJOR \<or>
         header_bytes h \<noteq> ucast VF_MSG_BYTES \<or> message_bytes h \<noteq> VF_MSG_BYTES \<or>
         reserved0 h \<noteq> 0 then Err Eabi
      else if flags h \<noteq> 0 then Err Einval
      else if \<not> known_opcode (family h) (opcode h) then Err Enotsup
      else if payload_bytes h = 0 then
        (if payload_grant h = 0 \<and> payload_offset h = 0 then Ok () else Err Einval)
      else if payload_grant h = 0 \<or> payload_offset h AND 7 \<noteq> 0 then Err Einval
      else if payload_bytes h > VF_PAYLOAD_MAX \<or>
         checked_add (payload_offset h) (ucast (payload_bytes h)) = None then Err Erange
      else Ok ())"

definition decode_grant_header :: "bytes \<Rightarrow> (vf_msg_header, grant_error) result" where
  "decode_grant_header bs =
     bindE (map_err (\<lambda>_. Eabi) (header_decode bs)) (\<lambda>h.
     bindE (validate_grant_header h) (\<lambda>_. Ok h))"

section \<open>The grant policy\<close>

text \<open>The scan of the table: the matching snapshot seen so far, or \<open>Eambig\<close> at the second.\<close>

fun find_grant ::
    "vf_msg_header \<Rightarrow> u32 \<Rightarrow> vf_grant_snapshot list \<Rightarrow> vf_grant_snapshot option \<Rightarrow>
     (vf_grant_snapshot option, grant_error) result" where
  "find_grant h caller [] found = Ok found"
| "find_grant h caller (s # table) found =
     (if holder_cell (cap (entry s)) = caller \<and> slot (cap (entry s)) = ucast (payload_grant h)
      then (if found \<noteq> None then Err Eambig else find_grant h caller table (Some s))
      else find_grant h caller table found)"

definition cap_handle :: "vf_cap_entry \<Rightarrow> u64" where
  "cap_handle c = push_bit 32 (ucast (generation c)) OR ucast (slot c)"

definition validate_payload_grant ::
    "vf_msg_header \<Rightarrow> vf_grant_snapshot list \<Rightarrow> u32 \<Rightarrow> u32 \<Rightarrow> u64 \<Rightarrow>
     (vf_grant_snapshot option, grant_error) result" where
  "validate_payload_grant h table caller required now =
     (if length table > VF_POLICY_TABLE_MAX \<or> caller = 0 \<or> required = 0 \<or>
         required AND NOT (VF_RIGHT_READ OR VF_RIGHT_WRITE) \<noteq> 0 then Err Einval
      else
      bindE (validate_grant_header h) (\<lambda>_.
      if payload_bytes h = 0 then Ok None
      else
      bindE (find_grant h caller table None) (\<lambda>found.
      bindE (ok_or found Estale) (\<lambda>snapshot.
      let grant = entry snapshot; c = cap grant in
      if slot c = 0 \<or> generation c = 0 \<or> cap_handle c \<noteq> payload_grant h \<or>
         cap_state c \<noteq> VF_CAP_LIVE \<or> valid_from c \<ge> expires_at c \<or>
         now < valid_from c \<or> now \<ge> expires_at c then Err Estale
      else if object_id c = 0 \<or> object_type c \<noteq> VF_OBJECT_GRANT \<or>
         rights c AND NOT VF_RIGHT_ALL \<noteq> 0 \<or> required AND NOT (rights c) \<noteq> 0 then Err Eperm
      else if grant_state grant \<noteq> VF_GRANT_LIVE \<or> owner_cell grant = 0 then Err Estale
      else if payload_offset h > grant_bytes grant \<or>
         ucast (payload_bytes h) > grant_bytes grant - payload_offset h then Err Erange
      else Ok (Some snapshot)))))"

definition payload_window ::
    "target \<Rightarrow> vf_msg_header \<Rightarrow> vf_grant_snapshot \<Rightarrow> (bytes, grant_error) result" where
  "payload_window t h s =
     bindE (ok_or (u64_try_from_usize (length (data s))) Erange) (\<lambda>window_len.
     bindE (ok_or (checked_add (snapshot_offset s) window_len) Erange) (\<lambda>window_end.
     if window_end > grant_bytes (entry s) then Err Erange
     else
     bindE (ok_or (checked_sub (payload_offset h) (snapshot_offset s)) Erange) (\<lambda>start.
     bindE (ok_or (checked_add start (ucast (payload_bytes h))) Erange) (\<lambda>end'.
     bindE (ok_or (usize_try_from t start) Erange) (\<lambda>a.
     bindE (ok_or (usize_try_from t end') Erange) (\<lambda>b.
     ok_or (get_range (data s) a b) Erange))))))"

section \<open>Conversion and the grant session\<close>

datatype 'e grant_submit_error =
    GrantFailed grant_error
  | InlineFailed sgpu_error
  | SubmissionFailed 'e

definition inline_to_grant ::
    "target \<Rightarrow> sgpu_frame \<Rightarrow> u64 \<Rightarrow> u64 \<Rightarrow> (bytes \<times> bytes, 'e grant_submit_error) result" where
  "inline_to_grant t f grant_handle grant_offset =
     bindE (map_err InlineFailed (frame_validate t f)) (\<lambda>_.
     let h = (header f)\<lparr>message_bytes := VF_MSG_BYTES, payload_grant := grant_handle,
                payload_offset := grant_offset\<rparr> in
     bindE (map_err GrantFailed (validate_grant_header h)) (\<lambda>_.
     Ok (header_encode h, payload f)))"

record 'c grant_session =
  caller_cell :: u32
  endpoint_handle :: u64
  compute :: 'c

definition grant_session_new :: "'c \<Rightarrow> u32 \<Rightarrow> u64 \<Rightarrow> ('c grant_session, grant_error) result" where
  "grant_session_new c caller endpoint =
     (if caller = 0 \<or> (ucast endpoint :: u32) = 0 \<or> drop_bit 32 endpoint = 0 then Err Einval
      else Ok \<lparr>caller_cell = caller, endpoint_handle = endpoint, compute = c\<rparr>)"

definition authorize ::
    "target \<Rightarrow> 'c grant_session \<Rightarrow> bytes \<Rightarrow> vf_grant_snapshot list \<Rightarrow> u32 \<Rightarrow> u64 \<Rightarrow>
     (vf_msg_header \<times> bytes, grant_error) result" where
  "authorize t g hb table caller now =
     bindE (decode_grant_header hb) (\<lambda>h.
     if family h \<noteq> VF_FAMILY_SGPU \<or> opcode h \<noteq> VF_SGPU_SUBMIT_COMMAND_LIST then Err Enotsup
     else if caller \<noteq> caller_cell g \<or> object h \<noteq> endpoint_handle g then Err Eperm
     else
     bindE (validate_payload_grant h table caller VF_RIGHT_READ now) (\<lambda>snapshot.
     bindE (case snapshot of Some s \<Rightarrow> payload_window t h s | None \<Rightarrow> Ok []) (\<lambda>p.
     Ok (h, p))))"

definition grant_submit ::
    "target \<Rightarrow> ('c \<Rightarrow> bytes \<Rightarrow> u64 \<Rightarrow> u64 \<Rightarrow> (nat, 'e) result \<times> 'c) \<Rightarrow> bytes \<Rightarrow>
     vf_grant_snapshot list \<Rightarrow> u32 \<Rightarrow> u64 \<Rightarrow> 'c grant_session \<Rightarrow>
     (nat, 'e grant_submit_error) result \<times> 'c grant_session" where
  "grant_submit t submit_wire hb table caller now g =
     (case authorize t g hb table caller now of
        Inl e \<Rightarrow> (Err (GrantFailed e), g)
      | Inr (_, p) \<Rightarrow>
         (let (r, c) = submit_wire (compute g) p 0 (word_of_nat (length p))
          in (map_err SubmissionFailed r, g\<lparr>compute := c\<rparr>)))"

definition to_inline ::
    "target \<Rightarrow> 'c grant_session \<Rightarrow> bytes \<Rightarrow> vf_grant_snapshot list \<Rightarrow> u32 \<Rightarrow> u64 \<Rightarrow>
     (sgpu_frame, 'e grant_submit_error) result" where
  "to_inline t g hb table caller now =
     bindE (map_err GrantFailed (authorize t g hb table caller now)) (\<lambda>(h, p).
     bindE (ok_or (checked_add VF_MSG_BYTES (payload_bytes h)) (GrantFailed Erange)) (\<lambda>mb.
     if \<not> reserve_ok t (length p) then Err (InlineFailed ResourceLimit)
     else
     (let f = \<lparr>header = h\<lparr>message_bytes := mb, payload_grant := 0, payload_offset := 0\<rparr>,
               payload = p\<rparr> in
     bindE (map_err InlineFailed (frame_validate t f)) (\<lambda>_. Ok f))))"

text \<open>\<open>compute\<close> is the field selector; \<open>compute_mut\<close> lends the compute session to a caller that
  changes it, and \<open>into_compute\<close> gives it up.\<close>

definition compute_mut :: "('c \<Rightarrow> 'c) \<Rightarrow> 'c grant_session \<Rightarrow> 'c grant_session" where
  "compute_mut change g = g\<lparr>compute := change (compute g)\<rparr>"

definition into_compute :: "'c grant_session \<Rightarrow> 'c" where
  "into_compute g = compute g"

section \<open>Accepted headers\<close>

definition granted_header :: "vf_msg_header \<Rightarrow> bool" where
  "granted_header h \<longleftrightarrow>
     magic h = VF_MSG_MAGIC \<and> abi_major h = VF_ABI_MAJOR \<and> header_bytes h = 64 \<and>
     message_bytes h = 64 \<and> reserved0 h = 0 \<and> flags h = 0 \<and>
     known_opcode (family h) (opcode h) \<and>
     (if payload_bytes h = 0 then payload_grant h = 0 \<and> payload_offset h = 0
      else payload_grant h \<noteq> 0 \<and> 8 dvd unat (payload_offset h) \<and>
        unat (payload_bytes h) \<le> 16777216 \<and>
        unat (payload_offset h) + unat (payload_bytes h) < 2 ^ 64)"

lemma and_7_eq_0_iff: "w AND 7 = 0 \<longleftrightarrow> 8 dvd unat (w :: u64)"
proof -
  have "w AND 7 = take_bit 3 w" by (simp add: take_bit_eq_mask mask_eq_exp_minus_1)
  then have "unat (w AND 7) = unat w mod 8"
    by (simp add: unsigned_take_bit_eq flip: take_bit_eq_mod [of 3, simplified])
  then show ?thesis by (metis dvd_eq_mod_eq_0 unsigned_0 word_unat_eq_iff)
qed

lemma validate_grant_header_Inr_iff: "validate_grant_header h = Inr u \<longleftrightarrow> granted_header h"
  by (auto simp: validate_grant_header_def granted_header_def and_7_eq_0_iff checked_add_None_iff
      word_less_nat_alt not_less not_le)

lemma decode_grant_header_Inr_iff:
  "decode_grant_header hb = Inr h \<longleftrightarrow> hb = header_encode h \<and> granted_header h"
  by (auto simp: decode_grant_header_def result_simps header_decode_Inr_iff
      validate_grant_header_Inr_iff)

section \<open>Accepted grants\<close>

definition matches :: "vf_msg_header \<Rightarrow> u32 \<Rightarrow> vf_grant_snapshot \<Rightarrow> bool" where
  "matches h caller s \<longleftrightarrow>
     holder_cell (cap (entry s)) = caller \<and> slot (cap (entry s)) = ucast (payload_grant h)"

lemma find_grant_Cons:
  "find_grant h caller (s # table) found =
     (if matches h caller s
      then (if found \<noteq> None then Inl Eambig else find_grant h caller table (Some s))
      else find_grant h caller table found)"
  by (simp add: matches_def)

lemma find_grant_found:
  "find_grant h caller table (Some s) =
     (if filter (matches h caller) table = [] then Inr (Some s) else Inl Eambig)"
  by (induction table) (simp_all add: find_grant_Cons del: find_grant.simps(2))

lemma find_grant_filter:
  "find_grant h caller table None =
     (case filter (matches h caller) table of
        [] \<Rightarrow> Inr None | [s] \<Rightarrow> Inr (Some s) | _ \<Rightarrow> Inl Eambig)"
  by (induction table)
    (simp_all add: find_grant_Cons find_grant_found del: find_grant.simps(2) split: list.splits)

definition policy_args :: "vf_grant_snapshot list \<Rightarrow> u32 \<Rightarrow> u32 \<Rightarrow> bool" where
  "policy_args table caller required \<longleftrightarrow>
     length table \<le> 4096 \<and> caller \<noteq> 0 \<and> required \<in> {1, 2, 3}"

lemma word_and_not_eq_0_iff: "a AND NOT b = 0 \<longleftrightarrow> (\<forall>n. bit a n \<longrightarrow> bit (b :: 'a::len word) n)"
  by (auto simp: bit_eq_iff bit_simps) (meson bit_imp_le_length)+

lemma word_subset_mask: "a AND NOT b = 0 \<Longrightarrow> a = a AND (b :: 'a::len word)"
  by (auto simp: word_and_not_eq_0_iff bit_eq_iff [of a] bit_and_iff)

lemma required_rights_iff:
  "(required :: u32) \<noteq> 0 \<and> required AND NOT (VF_RIGHT_READ OR VF_RIGHT_WRITE) = 0 \<longleftrightarrow>
     required \<in> {1, 2, 3}"
proof
  assume r: "required \<noteq> 0 \<and> required AND NOT (VF_RIGHT_READ OR VF_RIGHT_WRITE) = 0"
  then have "required = required AND (VF_RIGHT_READ OR VF_RIGHT_WRITE)"
    by (intro word_subset_mask) blast
  also have "\<dots> = required AND 3" by simp
  also have "\<dots> = take_bit 2 required" by (simp add: take_bit_eq_mask mask_eq_exp_minus_1)
  finally have "unat required = unat (take_bit 2 required)" by simp
  also have "\<dots> = unat required mod 4"
    by (simp only: unsigned_take_bit_eq) (simp add: take_bit_eq_mod)
  finally have "unat required < 4" by (metis mod_less_divisor zero_less_numeral)
  then show "required \<in> {1, 2, 3}" using r by (auto simp: word_unat_eq_iff)
next
  assume "required \<in> {1, 2, 3}"
  then show "required \<noteq> 0 \<and> required AND NOT (VF_RIGHT_READ OR VF_RIGHT_WRITE) = 0" by auto
qed

text \<open>What a grant must promise for a header, a set of rights and a time.\<close>

definition grants :: "vf_msg_header \<Rightarrow> vf_grant_entry \<Rightarrow> u32 \<Rightarrow> u64 \<Rightarrow> bool" where
  "grants h g required now \<longleftrightarrow>
     slot (cap g) \<noteq> 0 \<and> generation (cap g) \<noteq> 0 \<and> cap_handle (cap g) = payload_grant h \<and>
     cap_state (cap g) = VF_CAP_LIVE \<and> valid_from (cap g) \<le> now \<and> now < expires_at (cap g) \<and>
     object_id (cap g) \<noteq> 0 \<and> object_type (cap g) = VF_OBJECT_GRANT \<and>
     rights (cap g) AND NOT VF_RIGHT_ALL = 0 \<and> required AND NOT (rights (cap g)) = 0 \<and>
     grant_state g = VF_GRANT_LIVE \<and> owner_cell g \<noteq> 0 \<and>
     unat (payload_offset h) + unat (payload_bytes h) \<le> unat (grant_bytes g)"

lemma range_check_iff:
  fixes off total :: u64 and n :: u32
  shows "\<not> (off > total \<or> ucast n > total - off) \<longleftrightarrow> unat off + unat n \<le> unat total"
proof (cases "off \<le> total")
  case True
  then have "unat (total - off) = unat total - unat off" and "unat off \<le> unat total"
    by (simp_all add: unat_sub word_le_nat_alt)
  with True show ?thesis by (auto simp: word_less_nat_alt not_less)
next
  case False
  then show ?thesis by (auto simp: word_le_nat_alt word_less_nat_alt)
qed

text \<open>The decision on the single matching snapshot.\<close>

definition grant_verdict ::
    "vf_msg_header \<Rightarrow> vf_grant_snapshot \<Rightarrow> u32 \<Rightarrow> u64 \<Rightarrow> (vf_grant_snapshot option, grant_error) result" where
  "grant_verdict h s required now =
     (let g = entry s; c = cap g in
      if slot c = 0 \<or> generation c = 0 \<or> cap_handle c \<noteq> payload_grant h \<or>
         cap_state c \<noteq> VF_CAP_LIVE \<or> valid_from c \<ge> expires_at c \<or>
         now < valid_from c \<or> now \<ge> expires_at c then Err Estale
      else if object_id c = 0 \<or> object_type c \<noteq> VF_OBJECT_GRANT \<or>
         rights c AND NOT VF_RIGHT_ALL \<noteq> 0 \<or> required AND NOT (rights c) \<noteq> 0 then Err Eperm
      else if grant_state g \<noteq> VF_GRANT_LIVE \<or> owner_cell g = 0 then Err Estale
      else if payload_offset h > grant_bytes g \<or>
         ucast (payload_bytes h) > grant_bytes g - payload_offset h then Err Erange
      else Ok (Some s))"

lemma grant_verdict_cases:
  "grant_verdict h s required now =
     (if grants h (entry s) required now then Inr (Some s)
      else Inl (if slot (cap (entry s)) = 0 \<or> generation (cap (entry s)) = 0 \<or>
          cap_handle (cap (entry s)) \<noteq> payload_grant h \<or> cap_state (cap (entry s)) \<noteq> VF_CAP_LIVE \<or>
          now < valid_from (cap (entry s)) \<or> now \<ge> expires_at (cap (entry s)) then Estale
        else if object_id (cap (entry s)) = 0 \<or> object_type (cap (entry s)) \<noteq> VF_OBJECT_GRANT \<or>
          rights (cap (entry s)) AND NOT VF_RIGHT_ALL \<noteq> 0 \<or>
          required AND NOT (rights (cap (entry s))) \<noteq> 0 then Eperm
        else if grant_state (entry s) \<noteq> VF_GRANT_LIVE \<or> owner_cell (entry s) = 0 then Estale
        else Erange))"
proof -
  have window: "valid_from c \<ge> expires_at c \<or> now < valid_from c \<or> now \<ge> expires_at c \<longleftrightarrow>
      now < valid_from c \<or> now \<ge> expires_at c" for c
    by auto
  show ?thesis
    unfolding grant_verdict_def Let_def window grants_def range_check_iff [symmetric]
    by auto
qed

lemma validate_payload_grant_eq:
  "validate_payload_grant h table caller required now =
     (if \<not> policy_args table caller required then Inl Einval
      else bindE (validate_grant_header h) (\<lambda>_.
        if payload_bytes h = 0 then Inr None
        else (case filter (matches h caller) table of
            [] \<Rightarrow> Inl Estale
          | [s] \<Rightarrow> grant_verdict h s required now
          | _ \<Rightarrow> Inl Eambig)))"
proof -
  have args: "(length table > VF_POLICY_TABLE_MAX \<or> caller = 0 \<or> required = 0 \<or>
      required AND NOT (VF_RIGHT_READ OR VF_RIGHT_WRITE) \<noteq> 0) \<longleftrightarrow> \<not> policy_args table caller required"
    using required_rights_iff [of required] by (auto simp: policy_args_def)
  show ?thesis
    unfolding validate_payload_grant_def args find_grant_filter grant_verdict_def
    by (simp split: list.splits)
qed

lemma validate_payload_grant_Some_iff:
  "validate_payload_grant h table caller required now = Inr (Some s) \<longleftrightarrow>
     policy_args table caller required \<and> granted_header h \<and> payload_bytes h \<noteq> 0 \<and>
     filter (matches h caller) table = [s] \<and> grants h (entry s) required now"
  by (auto simp: validate_payload_grant_eq result_simps validate_grant_header_Inr_iff
      grant_verdict_cases split: list.splits if_splits)

lemma validate_payload_grant_None_iff:
  "validate_payload_grant h table caller required now = Inr None \<longleftrightarrow>
     policy_args table caller required \<and> granted_header h \<and> payload_bytes h = 0"
  by (auto simp: validate_payload_grant_eq result_simps validate_grant_header_Inr_iff
      grant_verdict_cases split: list.splits if_splits)

section \<open>Accepted windows\<close>

lemma payload_window_Inr_iff:
  "payload_window t h s = Inr p \<longleftrightarrow>
     unat (snapshot_offset s) + length (data s) \<le> unat (grant_bytes (entry s)) \<and>
     unat (snapshot_offset s) \<le> unat (payload_offset h) \<and>
     unat (payload_offset h) + unat (payload_bytes h) \<le> unat (snapshot_offset s) + length (data s) \<and>
     unat (payload_offset h) - unat (snapshot_offset s) + unat (payload_bytes h) < 2 ^ ptr_width t \<and>
     p = slice (data s) (unat (payload_offset h) - unat (snapshot_offset s))
       (unat (payload_offset h) - unat (snapshot_offset s) + unat (payload_bytes h))"
    (is "_ \<longleftrightarrow> ?r")
proof
  assume "payload_window t h s = Inr p"
  then show ?r
    unfolding payload_window_def
    by (auto simp: result_simps checked_simps get_range_def word_less_nat_alt not_less
        split: if_splits)
next
  let ?n = "length (data s)"
  assume r: ?r
  have "?n < 2 ^ 64" using r unat_bound [of "grant_bytes (entry s)"] by simp
  then obtain l where l: "u64_try_from_usize ?n = Some l" "unat l = ?n"
    by (metis u64_try_from_usize_Some_iff u64_try_from_usize_def)
  have "unat (snapshot_offset s) + unat l < 2 ^ LENGTH(64)"
    using r unat_bound [of "grant_bytes (entry s)"] l by simp
  then obtain e where e: "checked_add (snapshot_offset s) l = Some e"
      "unat e = unat (snapshot_offset s) + unat l"
    by (rule checked_add_fits)
  obtain a where a: "checked_sub (payload_offset h) (snapshot_offset s) = Some a"
      "unat a = unat (payload_offset h) - unat (snapshot_offset s)"
    using r by (auto elim: checked_sub_fits)
  have "unat a + unat (ucast (payload_bytes h) :: u64) < 2 ^ LENGTH(64)"
    using r a \<open>?n < 2 ^ 64\<close> by auto
  then obtain b where b: "checked_add a (ucast (payload_bytes h)) = Some b"
      "unat b = unat a + unat (payload_bytes h)"
    by (rule checked_add_fits) simp
  show "payload_window t h s = Inr p"
    unfolding payload_window_def
    using r l e a b
    by (auto simp: usize_try_from_def get_range_def word_less_nat_alt not_less)
qed

end
