(* ===== verification/Grant_Safety.thy ===== *)
theory Grant_Safety
  imports Sgpu_Grant
begin

text \<open>
  Properties of the grant transport of \<open>src/sgpu_grant.rs\<close>. The abstract specification is a
  root memory that maps each granted object to its bytes: an authorized request reads exactly
  the granted range of the granted object. Further lemmas cover refusal, revocation, the
  conversion between inline frames and granted messages, and the frame conditions of
  \<open>SgpuGrantSession\<close>.
\<close>

section \<open>The abstract grant store\<close>

type_synonym root_memory = "u64 \<Rightarrow> bytes"

text \<open>A snapshot the root has bound correctly: a window of the current bytes of its grant.\<close>

definition faithful :: "root_memory \<Rightarrow> vf_grant_snapshot \<Rightarrow> bool" where
  "faithful mem s \<longleftrightarrow>
     length (mem (object_id (cap (entry s)))) = unat (grant_bytes (entry s)) \<and>
     data s = slice (mem (object_id (cap (entry s)))) (unat (snapshot_offset s))
       (unat (snapshot_offset s) + length (data s))"

definition granted_range :: "root_memory \<Rightarrow> vf_grant_entry \<Rightarrow> vf_msg_header \<Rightarrow> bytes" where
  "granted_range mem g h = slice (mem (object_id (cap g))) (unat (payload_offset h))
     (unat (payload_offset h) + unat (payload_bytes h))"

lemma slice_slice: "b \<le> d - c \<Longrightarrow> slice (slice xs c d) a b = slice xs (c + a) (c + b)"
  by (simp add: slice_def drop_take add.commute min_def)

lemma length_payload_window:
  "payload_window t h s = Inr p \<Longrightarrow> length p = unat (payload_bytes h)"
  by (auto simp: payload_window_Inr_iff length_slice)

lemma payload_window_faithful:
  assumes "payload_window t h s = Inr p" and "faithful mem s"
  shows "p = granted_range mem (entry s) h"
proof -
  let ?o = "unat (snapshot_offset s)" and ?a = "unat (payload_offset h)" and ?n = "unat (payload_bytes h)"
  let ?m = "mem (object_id (cap (entry s)))"
  have r: "?o \<le> ?a" "?a + ?n \<le> ?o + length (data s)" "p = slice (data s) (?a - ?o) (?a - ?o + ?n)"
    using assms(1) by (auto simp: payload_window_Inr_iff)
  have d: "data s = slice ?m ?o (?o + length (data s))" using assms(2) by (simp add: faithful_def)
  have "p = slice ?m (?o + (?a - ?o)) (?o + (?a - ?o + ?n))"
    using r by (subst r(3), subst d, intro slice_slice) simp
  then show ?thesis using r(1) by (simp add: granted_range_def)
qed

section \<open>Authorization\<close>

lemma authorize_Inr_iff:
  "authorize t g hb table caller now = Inr (h, p) \<longleftrightarrow>
     hb = header_encode h \<and> granted_header h \<and>
     family h = VF_FAMILY_SGPU \<and> opcode h = VF_SGPU_SUBMIT_COMMAND_LIST \<and>
     caller = caller_cell g \<and> object h = endpoint_handle g \<and>
     policy_args table caller VF_RIGHT_READ \<and>
     (if payload_bytes h = 0 then p = []
      else \<exists>s. filter (matches h caller) table = [s] \<and> grants h (entry s) VF_RIGHT_READ now \<and>
             payload_window t h s = Inr p)"
  (is "?l \<longleftrightarrow> ?r")
proof
  assume ?l
  then obtain q where q: "validate_payload_grant h table caller VF_RIGHT_READ now = Inr q"
    and rest: "hb = header_encode h" "granted_header h" "family h = VF_FAMILY_SGPU"
      "opcode h = VF_SGPU_SUBMIT_COMMAND_LIST" "caller = caller_cell g" "object h = endpoint_handle g"
    and p: "(case q of Some s \<Rightarrow> payload_window t h s | None \<Rightarrow> Inr []) = Inr p"
    unfolding authorize_def by (auto simp: result_simps decode_grant_header_Inr_iff)
  show ?r
  proof (cases q)
    case None
    then show ?thesis using q p rest by (auto simp: validate_payload_grant_None_iff)
  next
    case (Some s)
    then show ?thesis using q p rest by (auto simp: validate_payload_grant_Some_iff)
  qed
next
  assume r: ?r
  show ?l
  proof (cases "payload_bytes h = 0")
    case True
    then have "validate_payload_grant h table caller VF_RIGHT_READ now = Inr None"
      using r True by (auto simp: validate_payload_grant_None_iff)
    with r True show ?thesis
      unfolding authorize_def by (auto simp: result_simps decode_grant_header_Inr_iff)
  next
    case False
    then obtain s where s: "filter (matches h caller) table = [s]"
        "grants h (entry s) VF_RIGHT_READ now" "payload_window t h s = Inr p"
      using r by auto
    then have "validate_payload_grant h table caller VF_RIGHT_READ now = Inr (Some s)"
      using r False by (auto simp: validate_payload_grant_Some_iff)
    with r s(3) show ?thesis
      unfolding authorize_def by (auto simp: result_simps decode_grant_header_Inr_iff)
  qed
qed

lemma authorize_length:
  "authorize t g hb table caller now = Inr (h, p) \<Longrightarrow> length p = unat (payload_bytes h)"
  by (auto simp: authorize_Inr_iff length_payload_window split: if_splits)

section \<open>Sample metadata\<close>

text \<open>The fixture of \<open>tests/sgpu_grant.rs\<close>: cell 42, slot 7, a 1024-byte grant valid in
  \<open>[10, 20)\<close>, and a 4-byte request at offset 8.\<close>

definition sample_grant :: vf_grant_entry where
  "sample_grant =
     \<lparr>cap = \<lparr>slot = 7, generation = 0xaabbccdd, holder_cell = 42, object_type = VF_OBJECT_GRANT,
        rights = VF_RIGHT_READ, cap_state = VF_CAP_LIVE, object_id = 0x9988776655443322,
        valid_from = 10, expires_at = 20\<rparr>,
      grant_bytes = 1024, owner_cell = 11, grant_state = VF_GRANT_LIVE\<rparr>"

definition sample_header :: vf_msg_header where
  "sample_header = (header_new VF_FAMILY_SGPU VF_SGPU_SUBMIT_COMMAND_LIST)
     \<lparr>request_id := 0xfedcba9876543210, object := 0x1122334400000005,
      payload_grant := 0xaabbccdd00000007, payload_offset := 8, payload_bytes := 4\<rparr>"

definition sample_snapshot :: vf_grant_snapshot where
  "sample_snapshot = \<lparr>entry = sample_grant, snapshot_offset = 8, data = [1, 2, 3, 4]\<rparr>"

definition sample_grant_session :: "nat grant_session" where
  "sample_grant_session = \<lparr>caller_cell = 42, endpoint_handle = 0x1122334400000005, compute = 0\<rparr>"

definition sample_memory :: root_memory where
  "sample_memory o' = copy_at 8 [1, 2, 3, 4] (replicate 1024 0)"

lemma sample_header_granted: "granted_header sample_header"
  by (simp add: granted_header_def sample_header_def header_new_def header_default_def
      known_opcode_def)

lemma sample_grants: "grants sample_header sample_grant VF_RIGHT_READ 15"
  by (simp add: grants_def sample_grant_def sample_header_def cap_handle_def)

lemma sample_matches: "filter (matches sample_header 42) [sample_snapshot] = [sample_snapshot]"
  by (simp add: matches_def sample_snapshot_def sample_grant_def sample_header_def)

lemma sample_window: "payload_window mac_target sample_header sample_snapshot = Inr [1, 2, 3, 4]"
  by (simp add: payload_window_Inr_iff)
    (simp add: sample_snapshot_def sample_grant_def sample_header_def mac_target_def slice_def)

lemma sample_authorize:
  "authorize mac_target sample_grant_session (header_encode sample_header) [sample_snapshot] 42 15 =
     Inr (sample_header, [1, 2, 3, 4])"
  unfolding authorize_Inr_iff
  using sample_header_granted sample_grants sample_matches sample_window
  by (simp add: policy_args_def)
    (simp add: sample_snapshot_def sample_grant_session_def sample_header_def header_new_def)

lemma sample_faithful: "faithful sample_memory sample_snapshot"
  by (simp add: faithful_def sample_memory_def sample_snapshot_def sample_grant_def
      length_copy_at) (simp add: copy_at_def slice_def)

section \<open>Normalized inline frames\<close>

definition normalized :: "vf_msg_header \<Rightarrow> bytes \<Rightarrow> sgpu_frame" where
  "normalized h p =
     \<lparr>header = h\<lparr>message_bytes := 64 + payload_bytes h, payload_grant := 0, payload_offset := 0\<rparr>,
      payload = p\<rparr>"

lemma normalized_valid:
  assumes "authorize t g hb table caller now = Inr (h, p)"
  shows "valid_frame (normalized h p)"
    and "checked_add VF_MSG_BYTES (payload_bytes h) = Some (64 + payload_bytes h)"
    and "unat (message_bytes (header (normalized h p))) = 64 + length p"
proof -
  have h: "granted_header h" "family h = VF_FAMILY_SGPU"
    using assms by (auto simp: authorize_Inr_iff)
  have len: "length p = unat (payload_bytes h)" by (rule authorize_length) (rule assms)
  have small: "unat (payload_bytes h) \<le> 16777216"
    using h(1) by (cases "payload_bytes h = 0") (simp_all add: granted_header_def)
  then have sum: "unat (64 + payload_bytes h) = 64 + unat (payload_bytes h)"
    by (simp add: unat_word_ariths)
  show "valid_frame (normalized h p)"
    using h len small sum
    by (simp add: valid_frame_def inline_header_def normalized_def granted_header_def)
  show "checked_add VF_MSG_BYTES (payload_bytes h) = Some (64 + payload_bytes h)"
    using sum by (simp add: checked_add_Some_iff)
  show "unat (message_bytes (header (normalized h p))) = 64 + length p"
    by (simp add: normalized_def sum len)
qed

lemma to_inline_eq:
  assumes "supported_target t" and "authorize t g hb table caller now = Inr (h, p)"
    and "reserve_ok t (length p)"
  shows "to_inline t g hb table caller now = Inr (normalized h p)"
  using normalized_valid [OF assms(2)] assms frame_validate_Inr_iff [OF assms(1), of "normalized h p"]
  by (simp add: to_inline_def Let_def flip: normalized_def)

lemma wire_and_back:
  assumes t: "supported_target t" and v: "valid_frame f" and r: "reserve_ok t (length (payload f))"
  shows "bindE (try_to_wire t f) (from_wire t) =
    (if reserve_ok t (unat (message_bytes (header f))) then Inr f else Inl ResourceLimit)"
proof (cases "reserve_ok t (unat (message_bytes (header f)))")
  case True
  then have "try_to_wire t f = Inr (padded_wire f (fst (zero_pads f)) (snd (zero_pads f)))"
    using v try_to_wire_Inr_iff [OF t] by blast
  then show ?thesis
    using True from_wire_padded [OF t v pad_lengths_zero_pads [OF v] r] by simp
next
  case False
  have "frame_validate t f = Inr ()" "inline_header (header f)"
    using v by (simp_all add: frame_validate_Inr_iff t valid_frame_def)
  then show ?thesis using False by (simp add: try_to_wire_def frame_layout_inline [OF t])
qed

lemma to_inline_Inr:
  fixes f :: sgpu_frame
  assumes "supported_target t"
    and "(to_inline t g hb table caller now :: (_, 'e grant_submit_error) result) = Inr f"
  shows "\<exists>h p. authorize t g hb table caller now = Inr (h, p) \<and> f = normalized h p"
proof -
  obtain h p where a: "authorize t g hb table caller now = Inr (h, p)" "reserve_ok t (length p)"
    using assms(2) unfolding to_inline_def by (auto simp: result_simps split: if_splits)
  then show ?thesis
    using to_inline_eq [OF assms(1) a, where ?'b = 'e] assms(2) by auto
qed

section \<open>Refusal\<close>

lemma validate_grant_header_errors:
  "validate_grant_header h = Inl e \<Longrightarrow> e \<in> {Eabi, Einval, Enotsup, Erange}"
  by (auto simp: validate_grant_header_def split: if_splits)

lemma validate_payload_grant_Eambig_iff:
  "validate_payload_grant h table caller required now = Inl Eambig \<longleftrightarrow>
     policy_args table caller required \<and> granted_header h \<and> payload_bytes h \<noteq> 0 \<and>
     2 \<le> length (filter (matches h caller) table)"
  using validate_grant_header_errors [of h Eambig]
  by (auto simp: validate_payload_grant_eq result_simps validate_grant_header_Inr_iff
      grant_verdict_cases split: list.splits if_splits)

lemma validate_payload_grant_no_match:
  "policy_args table caller required \<Longrightarrow> granted_header h \<Longrightarrow> payload_bytes h \<noteq> 0 \<Longrightarrow>
     filter (matches h caller) table = [] \<Longrightarrow>
     validate_payload_grant h table caller required now = Inl Estale"
  using validate_grant_header_Inr_iff [of h "()"] by (simp add: validate_payload_grant_eq)

text \<open>A request that was authorized, against a table and a time at which its grant fails.\<close>

lemma authorize_policy_error:
  assumes "authorize t g hb table caller now = Inr (h, p)"
    and "validate_payload_grant h table' caller VF_RIGHT_READ now' = Inl e"
  shows "authorize t g hb table' caller now' = Inl e"
proof -
  have "decode_grant_header hb = Inr h" "family h = VF_FAMILY_SGPU"
      "opcode h = VF_SGPU_SUBMIT_COMMAND_LIST" "caller = caller_cell g" "object h = endpoint_handle g"
    using assms(1) by (simp_all add: authorize_Inr_iff decode_grant_header_Inr_iff)
  then show ?thesis using assms(2) by (simp add: authorize_def)
qed

lemma authorize_nonempty:
  assumes "authorize t g hb table caller now = Inr (h, p)" and "p \<noteq> []"
  shows "granted_header h" and "payload_bytes h \<noteq> 0" and "policy_args table caller VF_RIGHT_READ"
  using assms by (auto simp: authorize_Inr_iff split: if_splits)

lemma authorize_refused:
  assumes "authorize t g hb table caller now = Inr (h, p)" and "p \<noteq> []"
    and "length table' = length table" and "filter (matches h caller) table' = [s]"
    and "grant_verdict h s VF_RIGHT_READ now' = Inl e"
  shows "authorize t g hb table' caller now' = Inl e"
  using authorize_nonempty [OF assms(1,2)] assms(3-5) validate_grant_header_Inr_iff [of h "()"]
  by (intro authorize_policy_error [OF assms(1)])
    (auto simp: validate_payload_grant_eq policy_args_def)

lemma authorize_ambiguous:
  assumes "authorize t g hb (ys @ zs) caller now = Inr (h, p)" and "p \<noteq> []"
    and "length (ys @ zs) < 4096" and "matches h caller s"
  shows "authorize t g hb (ys @ s # zs) caller now = Inl Eambig"
proof -
  obtain s' where "filter (matches h caller) (ys @ zs) = [s']"
    using assms(1,2) by (auto simp: authorize_Inr_iff split: if_splits)
  then have "length (filter (matches h caller) (ys @ zs)) = 1" by simp
  then show ?thesis
    using authorize_nonempty [OF assms(1,2)] assms(3,4)
    by (intro authorize_policy_error [OF assms(1)])
      (auto simp: validate_payload_grant_Eambig_iff policy_args_def)
qed

lemma authorize_matched:
  assumes "authorize t g hb table caller now = Inr (h, p)" and "p \<noteq> []"
  obtains s where "filter (matches h caller) table = [s]" and "grants h (entry s) VF_RIGHT_READ now"
    and "payload_window t h s = Inr p"
  using assms by (auto simp: authorize_Inr_iff split: if_splits)

text \<open>Root-side changes of an entry: a new grant state, a new capability state, a new
  generation of the slot, other rights.\<close>

definition map_entry :: "(vf_grant_entry \<Rightarrow> vf_grant_entry) \<Rightarrow> vf_grant_snapshot \<Rightarrow> vf_grant_snapshot" where
  "map_entry f s = s\<lparr>entry := f (entry s)\<rparr>"

definition set_grant_state :: "u32 \<Rightarrow> vf_grant_entry \<Rightarrow> vf_grant_entry" where
  "set_grant_state st g = g\<lparr>grant_state := st\<rparr>"

definition set_cap_state :: "u32 \<Rightarrow> vf_grant_entry \<Rightarrow> vf_grant_entry" where
  "set_cap_state st g = g\<lparr>cap := (cap g)\<lparr>cap_state := st\<rparr>\<rparr>"

definition set_generation :: "u32 \<Rightarrow> vf_grant_entry \<Rightarrow> vf_grant_entry" where
  "set_generation n g = g\<lparr>cap := (cap g)\<lparr>generation := n\<rparr>\<rparr>"

definition set_rights :: "u32 \<Rightarrow> vf_grant_entry \<Rightarrow> vf_grant_entry" where
  "set_rights w g = g\<lparr>cap := (cap g)\<lparr>rights := w\<rparr>\<rparr>"

lemmas entry_updates =
  map_entry_def set_grant_state_def set_cap_state_def set_generation_def set_rights_def

lemma matches_map_entry:
  "matches h caller (map_entry (set_grant_state st) s) = matches h caller s"
  "matches h caller (map_entry (set_cap_state st) s) = matches h caller s"
  "matches h caller (map_entry (set_generation n) s) = matches h caller s"
  "matches h caller (map_entry (set_rights w) s) = matches h caller s"
  by (simp_all add: matches_def entry_updates)

text \<open>The one matching entry in its table.\<close>

lemma filter_singleE:
  assumes "filter P xs = [x]"
  obtains ys zs where "xs = ys @ x # zs" and "P x" and "\<forall>y\<in>set ys \<union> set zs. \<not> P y"
proof -
  obtain ys zs where "xs = ys @ x # zs" and "P x" and "\<forall>y\<in>set ys. \<not> P y" and "filter P zs = []"
    using filter_eq_ConsD [OF assms] by metis
  then show thesis by (intro that [of ys zs]) (auto simp: filter_empty_conv)
qed

lemma unreadable: "w AND VF_RIGHT_READ = 0 \<Longrightarrow> VF_RIGHT_READ AND NOT w \<noteq> 0"
  by (simp add: and_one_eq one_and_eq mod_2_eq_odd)

lemma filter_single:
  "P x \<Longrightarrow> \<forall>y\<in>set ys \<union> set zs. \<not> P y \<Longrightarrow> filter P (ys @ x # zs) = [x]"
  by (auto simp: filter_empty_conv)

lemma unat_cap_handle: "unat (cap_handle c) = 2 ^ 32 * unat (generation c) + unat (slot c)"
proof -
  have "cap_handle c = push_bit 32 (ucast (generation c)) + ucast (slot c)"
    unfolding cap_handle_def
    by (rule disjunctive_add [symmetric]) (auto simp: bit_simps dest: bit_imp_le_length)
  moreover have "unat (push_bit 32 (ucast (generation c) :: u64)) = 2 ^ 32 * unat (generation c)"
    using unat_u32_bound [of "generation c"]
    by (simp add: push_bit_eq_mult unat_word_ariths)
  ultimately show ?thesis
    using unat_u32_bound [of "generation c"] unat_u32_bound [of "slot c"]
    by (simp add: unat_word_ariths)
qed

lemma cap_handle_rights: "cap_handle (c\<lparr>rights := w\<rparr>) = cap_handle c"
  by (simp add: cap_handle_def)

lemma cap_handle_generation:
  "generation c \<noteq> n \<Longrightarrow> cap_handle (c\<lparr>generation := n\<rparr>) \<noteq> cap_handle c"
  by (auto simp: unat_cap_handle word_unat_eq_iff dest!: arg_cong [where f = unat])

section \<open>Properties\<close>

text \<open>C1: Authorization reads exactly the granted bytes. If a request is authorized, its header
  bytes are a granted SUBMIT header for this session's caller and endpoint, and its payload is
  either empty or, for the one table entry of the caller's slot, a live grant with READ right at
  the current time, byte for byte the requested range of that granted object as the root holds
  it.\<close>

theorem authorize_sound:
  assumes "authorize t g hb table caller now = Inr (h, p)"
    and "\<forall>s\<in>set table. faithful mem s"
  shows "hb = header_encode h \<and> granted_header h \<and>
    family h = VF_FAMILY_SGPU \<and> opcode h = VF_SGPU_SUBMIT_COMMAND_LIST \<and>
    caller = caller_cell g \<and> object h = endpoint_handle g \<and>
    length p = unat (payload_bytes h) \<and>
    (p = [] \<or> (\<exists>s. filter (matches h caller) table = [s] \<and>
       grants h (entry s) VF_RIGHT_READ now \<and> p = granted_range mem (entry s) h))"
proof (cases "payload_bytes h = 0")
  case True
  then show ?thesis using assms(1) by (auto simp: authorize_Inr_iff)
next
  case False
  then obtain s where s: "filter (matches h caller) table = [s]"
      "grants h (entry s) VF_RIGHT_READ now" "payload_window t h s = Inr p"
    using assms(1) by (auto simp: authorize_Inr_iff)
  have "s \<in> set (filter (matches h caller) table)" by (simp add: s(1))
  then have "faithful mem s" using assms(2) by simp
  then have "p = granted_range mem (entry s) h" by (rule payload_window_faithful [OF s(3)])
  then show ?thesis
    using assms(1) s authorize_length [OF assms(1)] by (auto simp: authorize_Inr_iff)
qed

lemma authorize_sound_witness:
  "[1, 2, 3, 4] = granted_range sample_memory sample_grant sample_header"
  using authorize_sound [OF sample_authorize, of sample_memory] sample_faithful sample_matches
  by (auto simp: sample_snapshot_def)

text \<open>C21: No valid request is refused. A granted SUBMIT header on the session's route, with a
  single matching entry whose grant covers the range, is live and carries READ, is authorized
  whenever the snapshot window covers the range, with exactly the declared number of bytes.\<close>

theorem authorize_complete:
  assumes "granted_header h" and "family h = VF_FAMILY_SGPU"
    and "opcode h = VF_SGPU_SUBMIT_COMMAND_LIST" and "payload_bytes h \<noteq> 0"
    and "object h = endpoint_handle g" and "caller_cell g \<noteq> 0" and "length table \<le> 4096"
    and "filter (matches h (caller_cell g)) table = [s]"
    and "grants h (entry s) VF_RIGHT_READ now"
    and "ptr_width t = 64"
    and "unat (snapshot_offset s) + length (data s) \<le> unat (grant_bytes (entry s))"
    and "unat (snapshot_offset s) \<le> unat (payload_offset h)"
    and "unat (payload_offset h) + unat (payload_bytes h) \<le> unat (snapshot_offset s) + length (data s)"
  shows "\<exists>p. authorize t g (header_encode h) table (caller_cell g) now = Inr (h, p) \<and>
    length p = unat (payload_bytes h)"
proof -
  have "unat (payload_offset h) - unat (snapshot_offset s) + unat (payload_bytes h) < 2 ^ 64"
    using assms(11-13) unat_bound [of "grant_bytes (entry s)"] by simp
  then obtain p where p: "payload_window t h s = Inr p"
    using assms by (auto simp: payload_window_Inr_iff)
  then have "authorize t g (header_encode h) table (caller_cell g) now = Inr (h, p)"
    using assms by (auto simp: authorize_Inr_iff policy_args_def)
  then show ?thesis using length_payload_window [OF p] by blast
qed

lemma authorize_complete_witness:
  "\<exists>p. authorize mac_target sample_grant_session (header_encode sample_header)
     [sample_snapshot] 42 15 = Inr (sample_header, p) \<and> length p = 4"
  using authorize_complete [of sample_header sample_grant_session "[sample_snapshot]"
      sample_snapshot 15 mac_target]
  using sample_header_granted sample_grants sample_matches
  by (simp add: sample_grant_session_def)
    (simp add: sample_snapshot_def sample_header_def header_new_def sample_grant_def mac_target_def)


text \<open>C20: The grant policy decides exactly. A nonempty request is granted by an entry iff the
  table and the caller are well formed, the header is a granted header, the entry is the only
  one of the caller's slot, and it is live, current, carries the rights and covers the range. It
  is ambiguous iff the caller's slot occurs at least twice, whatever those entries say, and an
  empty request is granted without looking at the table.\<close>

theorem grant_policy_exact:
  "(validate_payload_grant h table caller required now = Inr (Some s) \<longleftrightarrow>
      policy_args table caller required \<and> granted_header h \<and> payload_bytes h \<noteq> 0 \<and>
      filter (matches h caller) table = [s] \<and> grants h (entry s) required now) \<and>
   (validate_payload_grant h table caller required now = Inl Eambig \<longleftrightarrow>
      policy_args table caller required \<and> granted_header h \<and> payload_bytes h \<noteq> 0 \<and>
      2 \<le> length (filter (matches h caller) table)) \<and>
   (validate_payload_grant h table caller required now = Inr None \<longleftrightarrow>
      policy_args table caller required \<and> granted_header h \<and> payload_bytes h = 0)"
  by (intro conjI validate_payload_grant_Some_iff validate_payload_grant_Eambig_iff
      validate_payload_grant_None_iff)

text \<open>C19: Revocation and expiry of one entry take effect at the next request. A nonempty request
  that was authorized is so by one entry of the table. Whatever the other entries are, it is
  refused with \<open>Estale\<close> as soon as the root takes that entry out of the live grant or capability
  state, moves its slot to another generation or removes it, or the time leaves its validity
  interval; with \<open>Eperm\<close> when the entry loses the READ right; and with \<open>Eambig\<close> when another entry
  of the same caller's slot appears anywhere in the table. While the entry stays as it is, the
  other entries can be replaced by any others of other slots without effect.\<close>

theorem revocation_effective:
  assumes "authorize t g hb table caller now = Inr (h, p)" and "p \<noteq> []"
  shows "\<exists>ys s zs. table = ys @ s # zs \<and> matches h caller s \<and>
    (\<forall>st. st \<noteq> VF_GRANT_LIVE \<longrightarrow>
      authorize t g hb (ys @ map_entry (set_grant_state st) s # zs) caller now = Inl Estale) \<and>
    (\<forall>st. st \<noteq> VF_CAP_LIVE \<longrightarrow>
      authorize t g hb (ys @ map_entry (set_cap_state st) s # zs) caller now = Inl Estale) \<and>
    (\<forall>n. n \<noteq> generation (cap (entry s)) \<longrightarrow>
      authorize t g hb (ys @ map_entry (set_generation n) s # zs) caller now = Inl Estale) \<and>
    (\<forall>now'. now' < valid_from (cap (entry s)) \<or> expires_at (cap (entry s)) \<le> now' \<longrightarrow>
      authorize t g hb table caller now' = Inl Estale) \<and>
    authorize t g hb (ys @ zs) caller now = Inl Estale \<and>
    (\<forall>w. w AND VF_RIGHT_READ = 0 \<longrightarrow>
      authorize t g hb (ys @ map_entry (set_rights w) s # zs) caller now = Inl Eperm) \<and>
    (\<forall>as bs s'. table = as @ bs \<longrightarrow> length table < 4096 \<longrightarrow> matches h caller s' \<longrightarrow>
      authorize t g hb (as @ s' # bs) caller now = Inl Eambig) \<and>
    (\<forall>as bs. length (as @ s # bs) \<le> 4096 \<longrightarrow> (\<forall>s'\<in>set as \<union> set bs. \<not> matches h caller s') \<longrightarrow>
      authorize t g hb (as @ s # bs) caller now = Inr (h, p))"
proof -
  obtain s where f: "filter (matches h caller) table = [s]" and gr: "grants h (entry s) VF_RIGHT_READ now"
    and w: "payload_window t h s = Inr p"
    by (rule authorize_matched [OF assms])
  obtain ys zs where t: "table = ys @ s # zs" and m: "matches h caller s"
    and o: "\<forall>y\<in>set ys \<union> set zs. \<not> matches h caller y"
    by (rule filter_singleE [OF f])
  have upd: "authorize t g hb (ys @ s' # zs) caller now' = Inl e"
    if "matches h caller s'" and "grant_verdict h s' VF_RIGHT_READ now' = Inl e" for s' now' e
    using that filter_single [OF that(1) o] t by (intro authorize_refused [OF assms]) simp_all
  have twice: "authorize t g hb (as @ s' # bs) caller now = Inl Eambig"
    if "table = as @ bs" and "length table < 4096" and "matches h caller s'" for as bs s'
    using that assms by (intro authorize_ambiguous) simp_all
  have gone: "authorize t g hb (ys @ zs) caller now = Inl Estale"
    using authorize_nonempty [OF assms] o t
    by (intro authorize_policy_error [OF assms(1)] validate_payload_grant_no_match)
      (auto simp: policy_args_def filter_empty_conv)
  have same: "authorize t g hb (as @ s # bs) caller now = Inr (h, p)"
    if "length (as @ s # bs) \<le> 4096" and "\<forall>s'\<in>set as \<union> set bs. \<not> matches h caller s'" for as bs
    using assms that filter_single [OF m that(2)] gr w by (auto simp: authorize_Inr_iff policy_args_def)
  have stale: "authorize t g hb (ys @ map_entry (set_grant_state st) s # zs) caller now = Inl Estale"
    if "st \<noteq> VF_GRANT_LIVE" for st
    using gr m that
    by (intro upd) (simp_all only: matches_map_entry, simp add: entry_updates grant_verdict_cases grants_def)
  have closed: "authorize t g hb (ys @ map_entry (set_cap_state st) s # zs) caller now = Inl Estale"
    if "st \<noteq> VF_CAP_LIVE" for st
    using m that
    by (intro upd) (simp_all only: matches_map_entry, simp add: entry_updates grant_verdict_cases grants_def)
  have moved: "authorize t g hb (ys @ map_entry (set_generation n) s # zs) caller now = Inl Estale"
    if "n \<noteq> generation (cap (entry s))" for n
  proof (intro upd)
    have "cap_handle ((cap (entry s))\<lparr>generation := n\<rparr>) \<noteq> payload_grant h"
      using cap_handle_generation [of "cap (entry s)" n] that gr by (simp add: grants_def)
    then show "grant_verdict h (map_entry (set_generation n) s) VF_RIGHT_READ now = Inl Estale"
      by (simp add: entry_updates grant_verdict_cases grants_def)
  qed (simp add: matches_map_entry m)
  have time: "authorize t g hb table caller now' = Inl Estale"
    if "now' < valid_from (cap (entry s)) \<or> expires_at (cap (entry s)) \<le> now'" for now'
  proof -
    have "\<not> grants h (entry s) VF_RIGHT_READ now'" using that by (auto simp: grants_def)
    then have "grant_verdict h s VF_RIGHT_READ now' = Inl Estale"
      using that by (simp add: grant_verdict_cases)
    then show ?thesis unfolding t by (rule upd [OF m])
  qed
  have right: "authorize t g hb (ys @ map_entry (set_rights w) s # zs) caller now = Inl Eperm"
    if "w AND VF_RIGHT_READ = 0" for w
  proof (intro upd)
    show "grant_verdict h (map_entry (set_rights w) s) VF_RIGHT_READ now = Inl Eperm"
      using gr unreadable [OF that]
      by (auto simp: cap_handle_rights entry_updates grant_verdict_cases grants_def)
  qed (simp add: matches_map_entry m)
  show ?thesis
    by (intro exI [of _ ys] exI [of _ s] exI [of _ zs] conjI allI impI t m stale closed moved time gone
        right twice same)
qed

lemma revocation_effective_witness:
  "authorize mac_target sample_grant_session (header_encode sample_header)
     [map_entry (set_grant_state 2) sample_snapshot] 42 15 = Inl Estale \<and>
   authorize mac_target sample_grant_session (header_encode sample_header) [sample_snapshot] 42 20 =
     Inl Estale \<and>
   authorize mac_target sample_grant_session (header_encode sample_header)
     [sample_snapshot, sample_snapshot] 42 15 = Inl Eambig"
proof -
  have m: "matches sample_header 42 sample_snapshot"
    by (simp add: matches_def sample_snapshot_def sample_grant_def sample_header_def header_new_def)
  obtain ys s zs where one: "[sample_snapshot] = ys @ s # zs"
    and revoked: "\<forall>st. st \<noteq> VF_GRANT_LIVE \<longrightarrow> authorize mac_target sample_grant_session
      (header_encode sample_header) (ys @ map_entry (set_grant_state st) s # zs) 42 15 = Inl Estale"
    and late: "\<forall>now'. now' < valid_from (cap (entry s)) \<or> expires_at (cap (entry s)) \<le> now' \<longrightarrow>
      authorize mac_target sample_grant_session (header_encode sample_header) [sample_snapshot] 42 now' =
        Inl Estale"
    and twice: "\<forall>as bs s'. [sample_snapshot] = as @ bs \<longrightarrow> length [sample_snapshot] < 4096 \<longrightarrow>
      matches sample_header 42 s' \<longrightarrow> authorize mac_target sample_grant_session
        (header_encode sample_header) (as @ s' # bs) 42 15 = Inl Eambig"
    using revocation_effective [OF sample_authorize list.distinct(2)] by (elim exE conjE) (rule that)
  have s: "ys = []" "s = sample_snapshot" "zs = []" using one by (cases ys; simp)+
  have "expires_at (cap (entry sample_snapshot)) \<le> 20" by (simp add: sample_snapshot_def sample_grant_def)
  then show ?thesis
    using revoked [rule_format, of 2] late [rule_format, of 20]
      twice [rule_format, of "[]" "[sample_snapshot]", OF _ _ m] unfolding s by simp
qed

text \<open>C7: Every GPU submission is mediated. Whatever the compute session does with its bytes,
  a grant submission that is refused leaves the session as it was, and one that is not refused
  hands the compute session exactly the authorized range of the granted object, from offset 0 to
  its length, once; the route (caller and endpoint) never changes.\<close>

theorem submit_mediated:
  assumes "\<forall>s\<in>set table. faithful mem s"
    and "grant_submit t submit_wire hb table caller now g = (r, g')"
  shows "caller_cell g' = caller_cell g \<and> endpoint_handle g' = endpoint_handle g \<and>
    ((\<exists>e. r = Inl (GrantFailed e) \<and> authorize t g hb table caller now = Inl e \<and> g' = g) \<or>
     (\<exists>h p res. hb = header_encode h \<and> authorize t g hb table caller now = Inr (h, p) \<and>
        submit_wire (compute g) p 0 (word_of_nat (length p)) = (res, compute g') \<and>
        r = map_err SubmissionFailed res \<and> unat (word_of_nat (length p) :: u64) = length p \<and>
        (p = [] \<or> (\<exists>s\<in>set table. holder_cell (cap (entry s)) = caller \<and>
           grants h (entry s) VF_RIGHT_READ now \<and> p = granted_range mem (entry s) h))))"
proof (cases "authorize t g hb table caller now")
  case (Inl e)
  then show ?thesis using assms(2) by (simp add: grant_submit_def)
next
  case (Inr hp)
  obtain h p where hp: "hp = (h, p)" by (cases hp) auto
  note a = Inr [unfolded hp]
  obtain res c where sw: "submit_wire (compute g) p 0 (word_of_nat (length p)) = (res, c)"
    by (cases "submit_wire (compute g) p 0 (word_of_nat (length p))") auto
  have small: "unat (word_of_nat (length p) :: u64) = length p"
    using authorize_length [OF a] unat_u32_bound [of "payload_bytes h"] by (simp add: unat_of_nat)
  have src: "p = [] \<or> (\<exists>s\<in>set table. holder_cell (cap (entry s)) = caller \<and>
      grants h (entry s) VF_RIGHT_READ now \<and> p = granted_range mem (entry s) h)"
  proof (rule disjCI)
    assume "\<not> (\<exists>s\<in>set table. holder_cell (cap (entry s)) = caller \<and>
      grants h (entry s) VF_RIGHT_READ now \<and> p = granted_range mem (entry s) h)"
    show "p = []"
    proof (rule ccontr)
      assume "p \<noteq> []"
      then obtain s where s: "filter (matches h caller) table = [s]"
          "grants h (entry s) VF_RIGHT_READ now" "payload_window t h s = Inr p"
        by (rule authorize_matched [OF a])
      have "s \<in> set (filter (matches h caller) table)" by (simp add: s(1))
      then have "s \<in> set table" "holder_cell (cap (entry s)) = caller" by (auto simp: matches_def)
      then show False
        using \<open>\<not> (\<exists>s\<in>set table. _ s)\<close> s payload_window_faithful [OF s(3)] assms(1) by blast
    qed
  qed
  have "hb = header_encode h" using a by (simp add: authorize_Inr_iff)
  with a sw small src assms(2) show ?thesis by (auto simp: grant_submit_def)
qed

definition counting_submit :: "nat \<Rightarrow> bytes \<Rightarrow> u64 \<Rightarrow> u64 \<Rightarrow> (nat, string) result \<times> nat" where
  "counting_submit n bs off len = (Ok (length bs), n + unat len)"

lemma submit_mediated_witness:
  "\<exists>r g'. grant_submit mac_target counting_submit (header_encode sample_header) [sample_snapshot] 42 15
     sample_grant_session = (r, g') \<and> r = Inr 4 \<and> compute g' = 4 \<and> endpoint_handle g' = 0x1122334400000005"
proof -
  obtain r g' where s: "grant_submit mac_target counting_submit (header_encode sample_header)
      [sample_snapshot] 42 15 sample_grant_session = (r, g')"
    by (rule prod.exhaust)
  have "\<forall>s\<in>set [sample_snapshot]. faithful sample_memory s" using sample_faithful by simp
  from submit_mediated [OF this s] sample_authorize s show ?thesis
    by (auto simp: counting_submit_def sample_grant_session_def)
qed


text \<open>C27: A normalized request is an ordinary inline frame. \<open>to_inline\<close> succeeds exactly for the
  authorized requests whose copy can be allocated; an unauthorized request fails with its policy
  error, and a copy that cannot be allocated with a resource limit. The frame passes \<open>validate\<close>,
  carries the authorized payload, names no grant and no offset, keeps every other header field,
  and, where its wire form can be allocated, survives the wire.\<close>

theorem to_inline_exact:
  assumes "supported_target t"
  shows "(to_inline t g hb table caller now :: (_, 'e grant_submit_error) result) =
    (case authorize t g hb table caller now of
       Inl e \<Rightarrow> Inl (GrantFailed e)
     | Inr (h, p) \<Rightarrow>
         if reserve_ok t (length p)
         then Inr \<lparr>header = h\<lparr>message_bytes := 64 + payload_bytes h, payload_grant := 0,
           payload_offset := 0\<rparr>, payload = p\<rparr>
         else Inl (InlineFailed ResourceLimit)) \<and>
    (case (to_inline t g hb table caller now :: (_, 'e grant_submit_error) result) of
       Inl _ \<Rightarrow> True
     | Inr f \<Rightarrow> frame_validate t f = Inr () \<and>
         unat (message_bytes (header f)) = 64 + length (payload f) \<and>
         bindE (try_to_wire t f) (from_wire t) =
           (if reserve_ok t (64 + length (payload f)) then Inr f else Inl ResourceLimit))"
proof (cases "authorize t g hb table caller now")
  case (Inl e)
  then show ?thesis by (simp add: to_inline_def)
next
  case (Inr hp)
  obtain h p where hp: "hp = (h, p)" by (cases hp) auto
  note a = Inr [unfolded hp]
  let ?f = "normalized h p"
  note v = normalized_valid [OF a]
  show ?thesis
  proof (cases "reserve_ok t (length p)")
    case False
    then show ?thesis using v(2) by (simp add: to_inline_def a)
  next
    case True
    then have eq: "(to_inline t g hb table caller now :: (_, 'e grant_submit_error) result) = Inr ?f"
      by (intro to_inline_eq a assms)
    have wire: "bindE (try_to_wire t ?f) (from_wire t) =
        (if reserve_ok t (64 + length p) then Inr ?f else Inl ResourceLimit)"
      using wire_and_back [OF assms v(1)] True v(3) by (simp add: normalized_def)
    show ?thesis
      using a True eq v wire frame_validate_Inr_iff [OF assms, of ?f] by (simp add: normalized_def)
  qed
qed

lemma to_inline_exact_witness:
  "(to_inline mac_target sample_grant_session (header_encode sample_header) [sample_snapshot] 42 15
      :: (_, unit grant_submit_error) result) =
     Inr \<lparr>header = sample_header\<lparr>message_bytes := 68, payload_grant := 0, payload_offset := 0\<rparr>,
       payload = [1, 2, 3, 4]\<rparr> \<and>
   (to_inline (mac_target\<lparr>reserve_ok := \<lambda>n. n < 4\<rparr>) sample_grant_session (header_encode sample_header)
      [sample_snapshot] 42 15 :: (_, unit grant_submit_error) result) = Inl (InlineFailed ResourceLimit)"
proof -
  let ?t = "mac_target\<lparr>reserve_ok := \<lambda>n. n < 4\<rparr>"
  have "supported_target ?t" by (simp add: supported_target_def mac_target_def)
  moreover
  have u: "usize_try_from ?t w = usize_try_from mac_target w" for w :: u64
    by (simp add: usize_try_from_def)
  have window: "payload_window ?t = payload_window mac_target"
    unfolding fun_eq_iff payload_window_def u by simp
  have "authorize ?t sample_grant_session (header_encode sample_header) [sample_snapshot] 42 15 =
      Inr (sample_header, [1, 2, 3, 4])"
    using sample_authorize unfolding authorize_def window .
  ultimately show ?thesis
    using to_inline_exact [where ?'e = unit, of ?t sample_grant_session "header_encode sample_header"
        "[sample_snapshot]" 42 15]
      to_inline_exact [OF supported_mac, where ?'e = unit, of sample_grant_session
        "header_encode sample_header" "[sample_snapshot]" 42 15] sample_authorize
    by (simp add: sample_header_def)
qed

text \<open>A grant entry that hands out a whole inline payload, published at its offset.\<close>

definition published :: "vf_grant_entry \<Rightarrow> u64 \<Rightarrow> bytes \<Rightarrow> vf_grant_snapshot" where
  "published e off p = \<lparr>entry = e, snapshot_offset = off, data = p\<rparr>"

lemma payload_window_published:
  assumes "unat (payload_offset h) + unat (payload_bytes h) \<le> unat (grant_bytes e)"
    and "length p = unat (payload_bytes h)" and "supported_target t"
  shows "payload_window t h (published e (payload_offset h) p) = Inr p"
  using assms unat_u32_bound [of "payload_bytes h"]
  by (auto simp: payload_window_Inr_iff published_def slice_def supported_target_def)

lemma inline_to_grant_Inr_iff:
  assumes "supported_target t"
  shows "(inline_to_grant t f gh off :: (_, 'e grant_submit_error) result) = Inr (hb, p) \<longleftrightarrow>
     valid_frame f \<and> p = payload f \<and>
     granted_header ((header f)\<lparr>message_bytes := 64, payload_grant := gh, payload_offset := off\<rparr>) \<and>
     hb = header_encode ((header f)\<lparr>message_bytes := 64, payload_grant := gh, payload_offset := off\<rparr>)"
  using assms
  by (auto simp: inline_to_grant_def Let_def result_simps frame_validate_Inr_iff
      validate_grant_header_Inr_iff)

text \<open>C28: Inline to grant and back. When an inline SUBMIT frame is converted to a granted
  message and the root publishes its payload under a grant that covers it, the message is
  authorized, and normalizing it gives back the frame: payload and header agree up to the
  message length and offset, which become those of the unpadded frame.\<close>

theorem inline_grant_roundtrip:
  assumes "supported_target t" and "reserve_ok t (length p)"
    and "(inline_to_grant t f gh off :: (_, 'e grant_submit_error) result) = Inr (hb, p)"
    and "p \<noteq> []" and "opcode (header f) = VF_SGPU_SUBMIT_COMMAND_LIST"
    and "object (header f) = endpoint_handle g" and "caller_cell g \<noteq> 0"
    and "holder_cell (cap e) = caller_cell g"
    and "grants ((header f)\<lparr>payload_grant := gh, payload_offset := off\<rparr>) e VF_RIGHT_READ now"
  shows "(to_inline t g hb [published e off p] (caller_cell g) now :: (_, 'e grant_submit_error) result) =
    Inr (f\<lparr>header := (header f)\<lparr>message_bytes := 64 + payload_bytes (header f),
      payload_grant := 0, payload_offset := 0\<rparr>\<rparr>)"
proof -
  let ?h = "(header f)\<lparr>message_bytes := 64, payload_grant := gh, payload_offset := off\<rparr>"
  have v: "valid_frame f" "p = payload f" "granted_header ?h" "hb = header_encode ?h"
    using assms(3) by (simp_all add: inline_to_grant_Inr_iff [OF assms(1)])
  have g: "grants ?h e VF_RIGHT_READ now" using assms(9) by (simp add: grants_def)
  have len: "length p = unat (payload_bytes (header f))" "family (header f) = VF_FAMILY_SGPU"
    using v by (auto simp: valid_frame_def inline_header_def)
  have "slot (cap e) = ucast gh"
  proof -
    have "ucast (cap_handle (cap e)) = slot (cap e)"
      by (rule bit_word_eqI) (auto simp: cap_handle_def bit_simps)
    then show ?thesis using g by (simp add: grants_def)
  qed
  then have m: "filter (matches ?h (caller_cell g)) [published e off p] = [published e off p]"
    using assms(8) by (simp add: matches_def published_def)
  have w: "payload_window t ?h (published e off p) = Inr p"
    using payload_window_published [of ?h e p t] g len assms(1) by (simp add: grants_def)
  have "payload_bytes (header f) \<noteq> 0" using assms(4) len by auto
  then have a: "authorize t g hb [published e off p] (caller_cell g) now = Inr (?h, p)"
    using v len m g w assms(5-7)
    by (auto simp: authorize_Inr_iff policy_args_def published_def)
  have "(to_inline t g hb [published e off p] (caller_cell g) now :: (_, 'e grant_submit_error) result) =
      Inr (normalized ?h p)"
    by (intro to_inline_eq a assms(1,2))
  then show ?thesis by (simp add: normalized_def v(2))
qed

definition sample_inline :: sgpu_frame where
  "sample_inline = \<lparr>header = (header_new VF_FAMILY_SGPU VF_SGPU_SUBMIT_COMMAND_LIST)
     \<lparr>object := 0x1122334400000005, message_bytes := 68, payload_bytes := 4\<rparr>,
     payload = [1, 2, 3, 4]\<rparr>"

lemma inline_grant_roundtrip_witness:
  "\<exists>hb. (to_inline mac_target sample_grant_session hb [published sample_grant 8 [1, 2, 3, 4]] 42 15
      :: (_, unit grant_submit_error) result) = Inr sample_inline"
proof -
  let ?h = "(header sample_inline)\<lparr>message_bytes := 64, payload_grant := 0xaabbccdd00000007,
    payload_offset := 8\<rparr>"
  have v: "valid_frame sample_inline"
    by (simp add: valid_frame_def inline_header_def sample_inline_def header_new_def header_default_def)
  have h: "granted_header ?h"
    by (simp add: granted_header_def sample_inline_def header_new_def header_default_def known_opcode_def)
  have i: "(inline_to_grant mac_target sample_inline 0xaabbccdd00000007 8
      :: (_, unit grant_submit_error) result) = Inr (header_encode ?h, [1, 2, 3, 4])"
    unfolding inline_to_grant_Inr_iff [OF supported_mac]
    using v h by (simp add: sample_inline_def)
  have "grants ((header sample_inline)\<lparr>payload_grant := 0xaabbccdd00000007, payload_offset := 8\<rparr>)
      sample_grant VF_RIGHT_READ 15"
    by (simp add: grants_def sample_grant_def sample_inline_def cap_handle_def)
  from inline_grant_roundtrip [OF supported_mac _ i _ _ _ _ _ this, of sample_grant_session]
  show ?thesis
    by (intro exI [of _ "header_encode ?h"])
      (simp add: sample_grant_session_def sample_grant_def sample_inline_def header_new_def
        header_default_def)
qed

text \<open>Inline frames carry no authority. Feeding the wire header of any nonempty inline
  frame to the grant transport is refused as an ABI mismatch; so are the empty and the truncated
  header, for every table, caller and time.\<close>

theorem inline_no_authority:
  assumes "supported_target t" and "frame_validate t f = Inr ()" and "payload f \<noteq> []"
  shows "authorize t g (header_encode (header f)) table caller now = Inl Eabi \<and>
    (\<forall>hb. length hb \<noteq> 64 \<longrightarrow> authorize t g hb table caller now = Inl Eabi)"
proof -
  have "valid_frame f" using assms by (simp add: frame_validate_Inr_iff)
  moreover have "0 < length (payload f)" using assms(3) by simp
  ultimately have "64 < unat (message_bytes (header f))"
    by (simp only: valid_frame_def inline_header_def) linarith
  then have "message_bytes (header f) \<noteq> 64" by auto
  then have "validate_grant_header (header f) = Inl Eabi"
    by (simp add: validate_grant_header_def)
  moreover have "header_decode hb = Inl Vf_Erange" if "length hb \<noteq> 64" for hb
    using that by (simp add: header_decode_def)
  ultimately show ?thesis by (simp add: authorize_def decode_grant_header_def)
qed

lemma inline_no_authority_witness:
  "authorize mac_target sample_grant_session (header_encode (header sample_frame)) [sample_snapshot] 42 15
     = Inl Eabi"
proof -
  have "frame_validate mac_target sample_frame = Inr ()"
    by (simp add: frame_validate_Inr_iff sample_frame_valid)
  moreover have "length (payload sample_frame) = 8" by (simp add: sample_frame_def)
  then have "payload sample_frame \<noteq> []" by auto
  ultimately show ?thesis using inline_no_authority [OF supported_mac] by blast
qed

end
