(* ===== verification/Grant_Example.thy ===== *)
theory Grant_Example
  imports Grant_Safety
begin

text \<open>
  The grant checks of the validation program \<open>src/examples/sgpu_grant_vulkan.rs\<close>: the message it
  authors, the grant and the unaligned snapshot it publishes, the comparison of the normalized
  frame, and the loop over nine tampered requests. The compute session is a parameter, with the
  two observations the loop makes of it. The rest of the program is in
  \<open>Vulkan_Program\<close>.
\<close>

section \<open>The authored message\<close>

definition CELL :: u32 where "CELL = 42"
definition ENDPOINT :: u64 where "ENDPOINT = 0x1122334400000005"
definition GRANT :: u64 where "GRANT = 0xaabbccdd00000007"
definition SOURCE :: u64 where "SOURCE = 0x1234567800000001"
definition DESTINATION :: u64 where "DESTINATION = 0xfedcba9800000002"
definition KERNEL :: u32 where "KERNEL = 0xf1000001"

definition example_payload :: bytes where
  "example_payload =
     le_bytes 4 (3 :: u32) @ [1] @ concat (map (le_bytes 8) [SOURCE, DESTINATION, 1056]) @
     concat (replicate 2 ([3] @ concat (map (le_bytes 4) [KERNEL, 4, 1, 1, 64, 1, 1])))"

definition example_header :: vf_msg_header where
  "example_header =
     (let h = header_new VF_FAMILY_SGPU VF_SGPU_SUBMIT_COMMAND_LIST;
          h = h\<lparr>request_id := 0xfedcba9876543210\<rparr>;
          h = h\<lparr>object := ENDPOINT\<rparr>;
          h = h\<lparr>payload_bytes := word_of_nat (length example_payload)\<rparr>;
          h = h\<lparr>payload_offset := 3\<rparr>
      in h\<lparr>message_bytes := VF_MSG_BYTES + 3 + payload_bytes h\<rparr>)"

definition example_inline :: sgpu_frame where
  "example_inline = \<lparr>header = example_header, payload = example_payload\<rparr>"

text \<open>The inline frame goes over the wire and becomes a granted message.\<close>

definition example_message :: "target \<Rightarrow> (bytes \<times> bytes, 'e grant_submit_error) result" where
  "example_message t =
     bindE (map_err InlineFailed (bindE (try_to_wire t example_inline) (from_wire t))) (\<lambda>f.
     inline_to_grant t f GRANT 16)"

definition example_grant :: "bytes \<Rightarrow> vf_grant_entry" where
  "example_grant p =
     \<lparr>cap = \<lparr>slot = 7, generation = 0xaabbccdd, holder_cell = CELL, object_type = VF_OBJECT_GRANT,
        rights = VF_RIGHT_READ, cap_state = VF_CAP_LIVE, object_id = 0x9988776655443322,
        valid_from = 10, expires_at = 20\<rparr>,
      grant_bytes = 16 + word_of_nat (length p) + 8, owner_cell = 11, grant_state = VF_GRANT_LIVE\<rparr>"

definition example_snapshot :: "bytes \<Rightarrow> bytes" where
  "example_snapshot p = replicate 9 0x99 @ p @ replicate 8 0x55"

definition example_view :: "vf_grant_entry \<Rightarrow> bytes \<Rightarrow> vf_grant_snapshot" where
  "example_view e d = \<lparr>entry = e, snapshot_offset = 8, data = d\<rparr>"

section \<open>The tampered requests\<close>

datatype tampering =
    Generation | Revoke | Owner | Read_right | Grant_range | Expiry | Route | Snapshot_range
  | Unsupported_opcode

fun kind_name :: "tampering \<Rightarrow> string" where
  "kind_name Generation = ''generation''"
| "kind_name Revoke = ''revoke''"
| "kind_name Owner = ''owner''"
| "kind_name Read_right = ''read-right''"
| "kind_name Grant_range = ''grant-range''"
| "kind_name Expiry = ''expiry''"
| "kind_name Route = ''route''"
| "kind_name Snapshot_range = ''snapshot-range''"
| "kind_name Unsupported_opcode = ''unsupported-opcode''"

definition all_kinds :: "tampering list" where
  "all_kinds = [Generation, Revoke, Owner, Read_right, Grant_range, Expiry, Route, Snapshot_range,
     Unsupported_opcode]"

text \<open>The changed entry, header, data and time of a kind.\<close>

fun tamper ::
    "tampering \<Rightarrow> bytes \<Rightarrow> vf_msg_header \<Rightarrow> vf_grant_entry \<times> vf_msg_header \<times> bytes \<times> u64" where
  "tamper Generation p h =
     (let g = example_grant p in
      (g\<lparr>cap := (cap g)\<lparr>generation := generation (cap g) + 1\<rparr>\<rparr>, h, drop 1 (example_snapshot p), 15))"
| "tamper Revoke p h =
     (let g = example_grant p in
      (g\<lparr>grant_state := 2, cap := (cap g)\<lparr>cap_state := 2\<rparr>\<rparr>, h, drop 1 (example_snapshot p), 15))"
| "tamper Owner p h =
     ((example_grant p)\<lparr>owner_cell := 0\<rparr>, h, drop 1 (example_snapshot p), 15)"
| "tamper Read_right p h =
     (let g = example_grant p in
      (g\<lparr>cap := (cap g)\<lparr>rights := VF_RIGHT_WRITE\<rparr>\<rparr>, h, drop 1 (example_snapshot p), 15))"
| "tamper Grant_range p h =
     ((example_grant p)\<lparr>grant_bytes := 16 + word_of_nat (length p) - 1\<rparr>, h, drop 1 (example_snapshot p), 15)"
| "tamper Expiry p h = (example_grant p, h, drop 1 (example_snapshot p), 20)"
| "tamper Route p h =
     (example_grant p, h\<lparr>object := object h + 1\<rparr>, drop 1 (example_snapshot p), 15)"
| "tamper Snapshot_range p h = (example_grant p, h, slice (example_snapshot p) 1 8, 15)"
| "tamper Unsupported_opcode p h =
     (example_grant p, h\<lparr>opcode := VF_SGPU_PRESENT\<rparr>, drop 1 (example_snapshot p), 15)"

text \<open>What the loop reads of the compute session after each request.\<close>

record 'c compute_view =
  destination_bytes :: "'c \<Rightarrow> (bytes, string) result"
  completed_command_count :: "'c \<Rightarrow> nat"

definition reject_one ::
    "target \<Rightarrow> ('c \<Rightarrow> bytes \<Rightarrow> u64 \<Rightarrow> u64 \<Rightarrow> (nat, 'e) result \<times> 'c) \<Rightarrow> 'c compute_view \<Rightarrow>
     ('e grant_submit_error \<Rightarrow> string) \<Rightarrow> bytes \<Rightarrow> bytes \<Rightarrow> bytes \<Rightarrow> tampering \<Rightarrow> 'c grant_session \<Rightarrow>
     (string \<times> string, string) result \<times> 'c grant_session" where
  "reject_one t submit_wire V describe wire p before kind g =
     (case decode_grant_header wire of
        Inl e \<Rightarrow> (Err (describe (GrantFailed e)), g)
      | Inr h \<Rightarrow>
         (let (changed, h', d, now) = tamper kind p h;
              (r, g) = grant_submit t submit_wire (header_encode h') [example_view changed d] CELL now g
          in case r of
              Inr _ \<Rightarrow> (Err ''invalid grant unexpectedly executed'', g)
            | Inl error \<Rightarrow>
               (case destination_bytes V (compute g) of
                  Inl m \<Rightarrow> (Err m, g)
                | Inr after' \<Rightarrow>
                   (if after' \<noteq> before \<or> completed_command_count V (compute g) \<noteq> 6
                    then (Err ''rejected grant changed data or completion count'', g)
                    else (Ok (kind_name kind, describe error), g)))))"

fun reject_loop ::
    "target \<Rightarrow> ('c \<Rightarrow> bytes \<Rightarrow> u64 \<Rightarrow> u64 \<Rightarrow> (nat, 'e) result \<times> 'c) \<Rightarrow> 'c compute_view \<Rightarrow>
     ('e grant_submit_error \<Rightarrow> string) \<Rightarrow> bytes \<Rightarrow> bytes \<Rightarrow> bytes \<Rightarrow> tampering list \<Rightarrow> 'c grant_session \<Rightarrow>
     ((string \<times> string) list, string) result \<times> 'c grant_session" where
  "reject_loop t submit_wire V describe wire p before [] g = (Ok [], g)"
| "reject_loop t submit_wire V describe wire p before (kind # kinds) g =
     (case reject_one t submit_wire V describe wire p before kind g of
        (Inl m, g) \<Rightarrow> (Err m, g)
      | (Inr x, g) \<Rightarrow>
         (case reject_loop t submit_wire V describe wire p before kinds g of
            (Inl m, g) \<Rightarrow> (Err m, g)
          | (Inr xs, g) \<Rightarrow> (Ok (x # xs), g)))"

section \<open>The message is granted\<close>

lemma length_example_payload: "length example_payload = 87"
  by (simp add: example_payload_def numeral_2_eq_2)

lemma example_valid: "valid_frame example_inline"
  by (simp add: valid_frame_def inline_header_def example_inline_def example_header_def Let_def
      header_new_def header_default_def length_example_payload)

definition example_granted :: vf_msg_header where
  "example_granted = example_header\<lparr>message_bytes := 64, payload_grant := GRANT, payload_offset := 16\<rparr>"

lemmas example_header_simps = example_granted_def example_header_def Let_def header_new_def
  header_default_def length_example_payload ENDPOINT_def GRANT_def CELL_def

lemma example_granted_header: "granted_header example_granted"
  by (simp add: granted_header_def known_opcode_def example_header_simps)

lemma example_message_eq:
  assumes "supported_target t" and "\<forall>n. reserve_ok t n"
  shows "(example_message t :: (_, 'e grant_submit_error) result) =
    Inr (header_encode example_granted, example_payload)"
proof -
  have "bindE (try_to_wire t example_inline) (from_wire t) = Inr example_inline"
    using from_wire_padded [OF assms(1) example_valid pad_lengths_zero_pads [OF example_valid]] assms
    by (simp add: try_to_wire_Inr_iff [OF assms(1), THEN iffD2] example_valid)
  moreover have "(inline_to_grant t example_inline GRANT 16 :: (_, 'e grant_submit_error) result) =
      Inr (header_encode example_granted, example_payload)"
    using example_valid example_granted_header
    by (simp add: inline_to_grant_Inr_iff [OF assms(1)] example_inline_def example_granted_def)
  ultimately show ?thesis by (simp add: example_message_def)
qed

text \<open>The decision on a single matching entry, on the session's route.\<close>

lemma authorize_single:
  assumes "granted_header h" and "payload_bytes h \<noteq> 0" and "family h = VF_FAMILY_SGPU"
    and "opcode h = VF_SGPU_SUBMIT_COMMAND_LIST" and "object h = endpoint_handle g"
    and "caller_cell g = caller" and "caller \<noteq> 0" and "matches h caller s"
  shows "authorize t g (header_encode h) [s] caller now =
    bindE (grant_verdict h s VF_RIGHT_READ now) (\<lambda>sn.
    bindE (case sn of Some s \<Rightarrow> payload_window t h s | None \<Rightarrow> Ok []) (\<lambda>p. Ok (h, p)))"
proof -
  have "decode_grant_header (header_encode h) = Inr h"
    using assms(1) by (simp add: decode_grant_header_Inr_iff)
  moreover have "validate_payload_grant h [s] caller VF_RIGHT_READ now = grant_verdict h s VF_RIGHT_READ now"
    using assms(1,2,7,8) validate_grant_header_Inr_iff [of h "()"]
    by (simp add: validate_payload_grant_eq policy_args_def)
  ultimately show ?thesis using assms(3-6) by (simp add: authorize_def)
qed

text \<open>What each tampered request is refused with.\<close>

fun expected_error :: "tampering \<Rightarrow> grant_error" where
  "expected_error Generation = Estale"
| "expected_error Revoke = Estale"
| "expected_error Owner = Estale"
| "expected_error Read_right = Eperm"
| "expected_error Grant_range = Erange"
| "expected_error Expiry = Estale"
| "expected_error Route = Eperm"
| "expected_error Snapshot_range = Erange"
| "expected_error Unsupported_opcode = Enotsup"

lemma example_grants: "grants example_granted (example_grant example_payload) VF_RIGHT_READ 15"
  by (simp add: grants_def example_grant_def cap_handle_def example_header_simps)

lemma example_matches:
  "slot (cap e) = 7 \<Longrightarrow> holder_cell (cap e) = CELL \<Longrightarrow> matches example_granted CELL (example_view e d)"
  by (simp add: matches_def example_view_def example_header_simps)

lemma example_window:
  assumes "supported_target t"
  shows "payload_window t example_granted
    (example_view (example_grant example_payload) (drop 1 (example_snapshot example_payload))) =
    Inr example_payload"
proof -
  have "drop 1 (example_snapshot example_payload) = replicate 8 0x99 @ example_payload @ replicate 8 0x55"
    by (simp add: example_snapshot_def numeral_eq_Suc)
  moreover have "(95 :: nat) < 2 ^ ptr_width t" using assms by (auto simp: supported_target_def)
  ultimately show ?thesis
    using length_example_payload
    by (simp add: payload_window_Inr_iff example_view_def example_grant_def slice_def)
      (simp add: example_header_simps slice_def)
qed

lemma example_window_short:
  "payload_window t example_granted
     (example_view (example_grant example_payload) (slice (example_snapshot example_payload) 1 8)) =
     Inl Erange"
proof -
  have "payload_window t example_granted
      (example_view (example_grant example_payload) (slice (example_snapshot example_payload) 1 8)) \<noteq> Inr p" for p
    by (simp add: payload_window_Inr_iff example_view_def length_slice)
      (simp add: example_header_simps example_snapshot_def)
  moreover have "payload_window t h s = Inl e \<Longrightarrow> e = Erange" for h s e
    by (auto simp: payload_window_def result_simps split: if_splits)
  ultimately show ?thesis
    by (cases "payload_window t example_granted
      (example_view (example_grant example_payload) (slice (example_snapshot example_payload) 1 8))") auto
qed

lemma tampered_refused:
  assumes "tamper kind example_payload example_granted = (e, h, d, now)"
    and "caller_cell g = CELL" and "endpoint_handle g = ENDPOINT"
  shows "authorize t g (header_encode h) [example_view e d] CELL now = Inl (expected_error kind)"
proof -
  have single: "authorize t g (header_encode example_granted) [example_view e d] CELL now =
      bindE (grant_verdict example_granted (example_view e d) VF_RIGHT_READ now) (\<lambda>sn.
      bindE (case sn of Some s \<Rightarrow> payload_window t example_granted s | None \<Rightarrow> Ok []) (\<lambda>p.
      Ok (example_granted, p)))"
    if "slot (cap e) = 7" "holder_cell (cap e) = CELL" for e d now
    using assms(2,3) that
    by (intro authorize_single example_granted_header example_matches)
      (simp_all add: example_header_simps)
  have refused: "authorize t g (header_encode example_granted) [example_view e d] CELL now = Inl er"
    if "slot (cap e) = 7 \<and> holder_cell (cap e) = CELL"
      and "grant_verdict example_granted (example_view e d) VF_RIGHT_READ now = Inl er" for e d now er
    using single [of e d now] that by simp
  have route: "granted_header (example_granted\<lparr>object := o'\<rparr>)"
      "granted_header (example_granted\<lparr>opcode := VF_SGPU_PRESENT\<rparr>)" for o'
    by (simp_all add: granted_header_def known_opcode_def example_header_simps)
  have decode: "granted_header h' \<Longrightarrow> decode_grant_header (header_encode h') = Inr h'" for h'
    by (simp add: decode_grant_header_Inr_iff)
  show ?thesis
  proof (cases kind)
    case Route
    then show ?thesis using assms decode [OF route(1)]
      by (auto simp: authorize_def example_header_simps)
  next
    case Unsupported_opcode
    then show ?thesis using assms decode [OF route(2)] by (auto simp: authorize_def)
  next
    case Snapshot_range
    then show ?thesis
      using assms(1) single [of e d now] example_grants example_window_short
      by (auto simp: grant_verdict_cases example_view_def example_grant_def)
  qed (use assms(1) in \<open>auto simp: Let_def intro!: refused\<close>,
      simp_all add: grant_verdict_cases grants_def example_view_def example_grant_def cap_handle_def
        example_header_simps)
qed

lemma reject_one_eq:
  assumes "caller_cell g = CELL" and "endpoint_handle g = ENDPOINT"
    and "destination_bytes V (compute g) = Inr before" and "completed_command_count V (compute g) = 6"
  shows "reject_one t submit_wire V describe (header_encode example_granted) example_payload before kind g =
    (Inr (kind_name kind, describe (GrantFailed (expected_error kind))), g)"
proof -
  obtain e h d now where tm: "tamper kind example_payload example_granted = (e, h, d, now)"
    by (cases "tamper kind example_payload example_granted") auto
  have "decode_grant_header (header_encode example_granted) = Inr example_granted"
    using example_granted_header by (simp add: decode_grant_header_Inr_iff)
  then show ?thesis
    using tampered_refused [OF tm assms(1,2), of t] assms(3,4)
    by (simp add: reject_one_def tm grant_submit_def)
qed

lemma reject_loop_eq:
  assumes "caller_cell g = CELL" and "endpoint_handle g = ENDPOINT"
    and "destination_bytes V (compute g) = Inr before" and "completed_command_count V (compute g) = 6"
  shows "reject_loop t submit_wire V describe (header_encode example_granted) example_payload before kinds g =
    (Inr (map (\<lambda>k. (kind_name k, describe (GrantFailed (expected_error k)))) kinds), g)"
  by (induction kinds) (simp_all add: reject_one_eq [OF assms])

lemma example_authorized:
  assumes "supported_target t" and "caller_cell g = CELL" and "endpoint_handle g = ENDPOINT"
  shows "authorize t g (header_encode example_granted)
    [example_view (example_grant example_payload) (drop 1 (example_snapshot example_payload))] CELL 15 =
    Inr (example_granted, example_payload)"
proof -
  let ?s = "example_view (example_grant example_payload) (drop 1 (example_snapshot example_payload))"
  have "grant_verdict example_granted ?s VF_RIGHT_READ 15 = Inr (Some ?s)"
    using example_grants by (simp add: grant_verdict_cases example_view_def)
  moreover have "matches example_granted CELL ?s"
    by (rule example_matches) (simp_all add: example_grant_def)
  moreover have "payload_bytes example_granted \<noteq> 0" "family example_granted = VF_FAMILY_SGPU"
      "opcode example_granted = VF_SGPU_SUBMIT_COMMAND_LIST" "object example_granted = ENDPOINT"
      "CELL \<noteq> 0"
    by (simp_all add: example_header_simps)
  ultimately show ?thesis
    using authorize_single [OF example_granted_header, of g CELL ?s t 15] assms(2,3)
      example_window [OF assms(1)] by simp
qed

section \<open>Property\<close>

text \<open>The validation program's grant checks cannot fail for a reason of the grant transport. For
  every compute session on its route whose destination reads back and that completed six
  commands, its own message is authorized and normalized to exactly the authored payload with no
  grant and no offset, and each of the nine tampered requests (generation, revocation, owner,
  right, grant range, expiry, route, snapshot range, opcode) is refused with its own error
  before the compute session is called, whatever that session would do.\<close>

theorem tampered_requests_rejected:
  assumes "supported_target t" and "\<forall>n. reserve_ok t n"
    and "(example_message t :: (_, 'e grant_submit_error) result) = Inr (wire, p)"
    and "caller_cell g = CELL" and "endpoint_handle g = ENDPOINT"
    and "destination_bytes V (compute g) = Inr before" and "completed_command_count V (compute g) = 6"
  shows "(\<exists>f. (to_inline t g wire [example_view (example_grant p) (drop 1 (example_snapshot p))] CELL 15
        :: (_, 'e grant_submit_error) result) = Inr f \<and>
      payload f = p \<and> payload_grant (header f) = 0 \<and> payload_offset (header f) = 0) \<and>
    reject_loop t submit_wire V describe wire p before all_kinds g =
      (Inr (map (\<lambda>k. (kind_name k, describe (GrantFailed (expected_error k)))) all_kinds), g)"
proof -
  have m: "wire = header_encode example_granted" "p = example_payload"
    using assms(3) example_message_eq [OF assms(1,2), where ?'e = 'e] by simp_all
  have "(to_inline t g wire [example_view (example_grant p) (drop 1 (example_snapshot p))] CELL 15
      :: (_, 'e grant_submit_error) result) = Inr (normalized example_granted example_payload)"
    unfolding m using assms(2)
    by (intro to_inline_eq [OF assms(1) example_authorized [OF assms(1,4,5)]]) simp
  then show ?thesis
    using reject_loop_eq [OF assms(4-7)] by (simp add: m normalized_def)
qed

definition counting_view :: "nat compute_view" where
  "counting_view = \<lparr>destination_bytes = (\<lambda>_. Ok [7]), completed_command_count = (\<lambda>n. n)\<rparr>"

lemma tampered_requests_rejected_witness:
  "snd (reject_loop mac_target counting_submit counting_view (\<lambda>_. ''refused'')
      (header_encode example_granted) example_payload [7] all_kinds
      \<lparr>caller_cell = CELL, endpoint_handle = ENDPOINT, compute = 6\<rparr>) =
    \<lparr>caller_cell = CELL, endpoint_handle = ENDPOINT, compute = 6\<rparr>"
proof -
  let ?g = "\<lparr>caller_cell = CELL, endpoint_handle = ENDPOINT, compute = 6 :: nat\<rparr>"
  have m: "(example_message mac_target :: (_, string grant_submit_error) result) =
      Inr (header_encode example_granted, example_payload)"
    by (rule example_message_eq [OF supported_mac]) (simp add: mac_target_def)
  have "\<forall>n. reserve_ok mac_target n" by (simp add: mac_target_def)
  from tampered_requests_rejected [OF supported_mac this m, of ?g counting_view "[7]" counting_submit
      "\<lambda>_. ''refused''"]
  show ?thesis by (simp add: counting_view_def)
qed

end
