(* ===== verification/Vf_Policy.thy ===== *)
theory Vf_Policy
  imports Vf_Abi
begin

text \<open>
  The product policy of \<open>src/vf_policy.rs\<close>: the configuration records of the plist, their
  normalization \<open>from_plist_bytes\<close> to a \<open>VskPolicy\<close>, the feature check, the denial, the hash
  receipt, and \<open>VfGrant\<close> with its range check. The plist parser (which also rejects unknown
  keys) and SHA-256 are third-party code and arguments of the definitions.
\<close>

section \<open>Policy data\<close>

datatype platform_policy = AppleIntelOnly

fun platform_as_str :: "platform_policy \<Rightarrow> string" where
  "platform_as_str AppleIntelOnly = ''AppleIntelOnly''"

datatype guest_profile = MacOS26Tahoe | MacOS27GoldenGate

fun profile_as_str :: "guest_profile \<Rightarrow> string" where
  "profile_as_str MacOS26Tahoe = ''macos26-tahoe''"
| "profile_as_str MacOS27GoldenGate = ''macos27-golden-gate''"

datatype denial_reason = NoSignatureVerifier | NoHardwareExecutor | UnknownConfig

fun denial_as_str :: "denial_reason \<Rightarrow> string" where
  "denial_as_str NoSignatureVerifier = ''no signature verifier''"
| "denial_as_str NoHardwareExecutor = ''no hardware executor''"
| "denial_as_str UnknownConfig = ''unknown config''"

datatype policy_error =
    Plist string
  | UnknownKey
  | PlatformPolicy string
  | WeakenedSecurity string
  | GuestProfile string
  | PolicyVf vf_error

record vsk_policy =
  platform :: platform_policy
  policy_profile :: "guest_profile option"
  require_vmx :: bool
  require_ept :: bool
  require_iommu :: bool
  require_interrupt_remapping :: bool
  guest_mib :: u64
  host_reserve_mib :: u64
  jit_cache_mib :: u64
  config_sha256 :: bytes
  boot_authorized_field :: bool
  denial :: denial_reason

definition policy_boot_authorized :: "vsk_policy \<Rightarrow> bool" where
  "policy_boot_authorized p = False"

definition policy_deny :: "vsk_policy \<Rightarrow> bool \<times> string" where
  "policy_deny p = (False, denial_as_str (denial p))"

definition required_features_present :: "vsk_policy \<Rightarrow> bool \<Rightarrow> bool \<Rightarrow> bool \<Rightarrow> bool" where
  "required_features_present p has_vmx has_ept has_irq =
     (if require_vmx p \<and> \<not> has_vmx then False
      else if require_ept p \<and> \<not> has_ept then False
      else if require_interrupt_remapping p \<and> \<not> has_irq then False
      else True)"

section \<open>The configuration file\<close>

record cpu_config =
  minimum_isa :: "string option"
  codegen :: "string option"
  hybrid_scheduling :: "string option"
  vcpus :: "string option"
  service_logical_cpus :: "u32 option"
  smt_policy :: "string option"

record security_config =
  vmx_required :: "bool option"
  ept_required :: "bool option"
  iommu_required :: "bool option"
  interrupt_remapping_required :: "bool option"
  dma_bypass :: "bool option"

record memory_config =
  cfg_guest_mib :: "u64 option"
  cfg_host_reserve_mib :: "u64 option"
  cfg_jit_cache_mib :: "u64 option"

record graphics_config =
  gfx_device :: "string option"
  driver_policy :: "string option"
  minimum_profile :: "string option"
  on_unsupported :: "string option"

record storage_device =
  storage_id :: "string option"
  storage_backend :: "string option"
  device_serial :: "string option"
  disk_guid :: "string option"
  partition_guid :: "string option"
  sector_bytes :: "u32 option"
  read_only :: "bool option"

record guest_config =
  profile_id :: "string option"
  require_metal :: "bool option"

record raw_policy =
  raw_schema_version :: "int option"
  raw_platform_policy :: "string option"
  raw_cpu :: "cpu_config option"
  raw_security :: "security_config option"
  raw_memory :: "memory_config option"
  raw_storage :: "storage_device list option"
  raw_graphics :: "graphics_config option"
  raw_guest :: "guest_config option"

section \<open>Normalization\<close>

text \<open>\<open>str::eq_ignore_ascii_case\<close>.\<close>

definition ascii_lower :: "char \<Rightarrow> char" where
  "ascii_lower c = (let n = of_char c :: nat in if 65 \<le> n \<and> n \<le> 90 then char_of (n + 32) else c)"

definition eq_ignore_ascii_case :: "string \<Rightarrow> string \<Rightarrow> bool" where
  "eq_ignore_ascii_case s s' \<longleftrightarrow> map ascii_lower s = map ascii_lower s'"

definition unwrap_or :: "'a option \<Rightarrow> 'a \<Rightarrow> 'a" where
  "unwrap_or x d = (case x of None \<Rightarrow> d | Some y \<Rightarrow> y)"

definition normalize_platform :: "string option \<Rightarrow> (platform_policy, policy_error) result" where
  "normalize_platform s =
     (case s of
        None \<Rightarrow> Ok AppleIntelOnly
      | Some other \<Rightarrow>
          if other = ''AppleIntelOnly'' then Ok AppleIntelOnly else Err (PlatformPolicy other))"

definition check_isa :: "string option \<Rightarrow> (unit, policy_error) result" where
  "check_isa s =
     (case s of
        None \<Rightarrow> Ok ()
      | Some isa \<Rightarrow>
          if eq_ignore_ascii_case isa ''sse4.2'' \<or> eq_ignore_ascii_case isa ''sse42'' then Ok ()
          else Err (GuestProfile isa))"

definition normalize_profile :: "string option \<Rightarrow> (guest_profile option, policy_error) result" where
  "normalize_profile s =
     (case s of
        None \<Rightarrow> Ok None
      | Some other \<Rightarrow>
          if other = '''' then Ok None
          else if other = ''macos26-tahoe'' then Ok (Some MacOS26Tahoe)
          else if other = ''macos27-golden-gate'' then Ok (Some MacOS27GoldenGate)
          else Err (GuestProfile other))"

definition from_plist_bytes ::
    "(bytes \<Rightarrow> (raw_policy, string) result) \<Rightarrow> (bytes \<Rightarrow> bytes) \<Rightarrow> bytes \<Rightarrow>
     (vsk_policy, policy_error) result" where
  "from_plist_bytes parse_plist sha256 bs =
     (let hash = sha256 bs in
      bindE (map_err Plist (parse_plist bs)) (\<lambda>raw.
      bindE (normalize_platform (raw_platform_policy raw)) (\<lambda>plat.
      bindE (ok_or (raw_cpu raw) UnknownKey) (\<lambda>cpu.
      bindE (check_isa (minimum_isa cpu)) (\<lambda>_.
      bindE (ok_or (raw_security raw) UnknownKey) (\<lambda>security.
      if dma_bypass security = Some True then Err (WeakenedSecurity ''DMA bypass enabled'')
      else
      let vmx = unwrap_or (vmx_required security) False;
          ept = unwrap_or (ept_required security) False;
          iommu = unwrap_or (iommu_required security) False;
          irq = unwrap_or (interrupt_remapping_required security) False in
      bindE (ok_or (raw_memory raw) UnknownKey) (\<lambda>memory.
      let guest = unwrap_or (cfg_guest_mib memory) 0;
          reserve = unwrap_or (cfg_host_reserve_mib memory) 0;
          jit = unwrap_or (cfg_jit_cache_mib memory) 0 in
      if guest = 0 \<or> reserve = 0 \<or> jit = 0 then Err UnknownKey
      else
      bindE (ok_or (raw_guest raw) UnknownKey) (\<lambda>gc.
      bindE (normalize_profile (profile_id gc)) (\<lambda>profile.
      Ok \<lparr>platform = plat, policy_profile = profile, require_vmx = vmx, require_ept = ept,
          require_iommu = iommu, require_interrupt_remapping = irq, guest_mib = guest,
          host_reserve_mib = reserve, jit_cache_mib = jit, config_sha256 = hash,
          boot_authorized_field = False, denial = NoSignatureVerifier\<rparr>)))))))))"

section \<open>The hash receipt\<close>

definition hex_digit :: "nat \<Rightarrow> char" where
  "hex_digit n = ''0123456789abcdef'' ! n"

text \<open>\<open>format!("{b:02x}")\<close>.\<close>

definition hex_byte :: "u8 \<Rightarrow> string" where
  "hex_byte b = [hex_digit (unat (drop_bit 4 b)), hex_digit (unat (b AND 15))]"

definition config_hash_hex :: "vsk_policy \<Rightarrow> string" where
  "config_hash_hex p = concat (map hex_byte (config_sha256 p))"

section \<open>Range-checked grants\<close>

record vf_grant =
  vfg_object_id :: u64
  vfg_offset :: u64
  vfg_length :: u64
  vfg_restricted :: bool

definition vf_grant_new :: "u64 \<Rightarrow> u64 \<Rightarrow> u64 \<Rightarrow> vf_grant" where
  "vf_grant_new oid off len =
     \<lparr>vfg_object_id = oid, vfg_offset = off, vfg_length = len, vfg_restricted = False\<rparr>"

definition range_check :: "vf_grant \<Rightarrow> u64 \<Rightarrow> (unit, vf_error) result" where
  "range_check g within_object_len =
     bindE (ok_or (checked_add (vfg_offset g) (vfg_length g)) Vf_Erange) (\<lambda>end'.
     if end' > within_object_len then Err Vf_Erange else Ok ())"

section \<open>Lemmas\<close>

lemma unwrap_or_simps [simp]:
  "unwrap_or None d = d"
  "unwrap_or (Some x) d = x"
  by (simp_all add: unwrap_or_def)

lemma normalize_platform_Inr_iff:
  "normalize_platform s = Inr p \<longleftrightarrow> s = None \<or> s = Some (platform_as_str p)"
  by (cases p) (auto simp: normalize_platform_def split: option.splits)

lemma check_isa_Inr_iff:
  "check_isa s = Inr u \<longleftrightarrow>
     (\<forall>isa. s = Some isa \<longrightarrow> eq_ignore_ascii_case isa ''sse4.2'' \<or> eq_ignore_ascii_case isa ''sse42'')"
  by (auto simp: check_isa_def split: option.splits)

lemma normalize_profile_Inr_iff:
  "normalize_profile s = Inr p \<longleftrightarrow>
     (case p of None \<Rightarrow> s = None \<or> s = Some '''' | Some q \<Rightarrow> s = Some (profile_as_str q))"
proof (cases p)
  case None
  then show ?thesis by (auto simp: normalize_profile_def split: option.splits if_splits)
next
  case (Some q)
  then show ?thesis
    by (cases q) (auto simp: normalize_profile_def split: option.splits if_splits)
qed

lemma hex_digit_inject: "m < 16 \<Longrightarrow> n < 16 \<Longrightarrow> hex_digit m = hex_digit n \<longleftrightarrow> m = n"
  unfolding hex_digit_def
  by (subst nth_eq_iff_index_eq) simp_all

lemma nibbles:
  fixes b :: u8
  shows "unat (drop_bit 4 b) = unat b div 16" and "unat (b AND 15) = unat b mod 16"
proof -
  show "unat (drop_bit 4 b) = unat b div 16"
    using unat_bound [of b]
    by (simp only: unsigned_drop_bit_eq) (simp add: drop_bit_eq_div take_bit_nat_eq_self)
  have "b AND 15 = take_bit 4 b" by (simp add: take_bit_eq_mask mask_eq_exp_minus_1)
  then show "unat (b AND 15) = unat b mod 16"
    by (simp only: unsigned_take_bit_eq) (simp add: take_bit_eq_mod)
qed

lemma hex_byte_inject: "hex_byte b = hex_byte c \<longleftrightarrow> b = c"
proof
  assume "hex_byte b = hex_byte c"
  moreover have "unat b div 16 < 16" "unat c div 16 < 16"
    using unat_bound [of b] unat_bound [of c] by simp_all
  ultimately have "unat b div 16 = unat c div 16 \<and> unat b mod 16 = unat c mod 16"
    by (simp add: hex_byte_def nibbles hex_digit_inject)
  then show "b = c" by (metis div_mult_mod_eq word_unat_eq_iff)
qed simp

lemma length_hex_byte [simp]: "length (hex_byte b) = 2"
  by (simp add: hex_byte_def)

lemma concat_hex_inject: "concat (map hex_byte xs) = concat (map hex_byte ys) \<longleftrightarrow> xs = ys"
proof (induction xs arbitrary: ys)
  case Nil
  then show ?case by (cases ys) (auto simp: hex_byte_def)
next
  case (Cons x xs)
  then show ?case by (cases ys) (auto simp: hex_byte_inject, simp_all add: hex_byte_def)
qed

lemma length_concat_hex: "length (concat (map hex_byte xs)) = 2 * length xs"
  by (induction xs) simp_all

lemma set_hex_byte: "set (hex_byte b) \<subseteq> set ''0123456789abcdef''"
proof -
  have "unat b div 16 < 16" using unat_bound [of b] by simp
  then have "hex_digit (unat b div 16) \<in> set ''0123456789abcdef''"
    and "hex_digit (unat b mod 16) \<in> set ''0123456789abcdef''"
    unfolding hex_digit_def by (intro nth_mem; simp)+
  then show ?thesis by (simp add: hex_byte_def nibbles)
qed


lemma from_plist_bytes_Inr_iff:
  "from_plist_bytes parse_plist sha256 bs = Inr p \<longleftrightarrow>
     (\<exists>raw cpu security memory gc.
       parse_plist bs = Inr raw \<and> normalize_platform (raw_platform_policy raw) = Inr (platform p) \<and>
       raw_cpu raw = Some cpu \<and> check_isa (minimum_isa cpu) = Inr () \<and>
       raw_security raw = Some security \<and> dma_bypass security \<noteq> Some True \<and>
       raw_memory raw = Some memory \<and> raw_guest raw = Some gc \<and>
       cfg_guest_mib memory = Some (guest_mib p) \<and> guest_mib p \<noteq> 0 \<and>
       cfg_host_reserve_mib memory = Some (host_reserve_mib p) \<and> host_reserve_mib p \<noteq> 0 \<and>
       cfg_jit_cache_mib memory = Some (jit_cache_mib p) \<and> jit_cache_mib p \<noteq> 0 \<and>
       normalize_profile (profile_id gc) = Inr (policy_profile p) \<and>
       require_vmx p = unwrap_or (vmx_required security) False \<and>
       require_ept p = unwrap_or (ept_required security) False \<and>
       require_iommu p = unwrap_or (iommu_required security) False \<and>
       require_interrupt_remapping p = unwrap_or (interrupt_remapping_required security) False \<and>
       config_sha256 p = sha256 bs \<and> \<not> boot_authorized_field p \<and> denial p = NoSignatureVerifier)"
proof -
  have nz: "unwrap_or x 0 \<noteq> 0 \<longleftrightarrow> (\<exists>v. x = Some v \<and> v \<noteq> 0)" for x :: "u64 option"
    by (cases x) auto
  show ?thesis
    unfolding from_plist_bytes_def Let_def
    by (cases p) (auto simp: result_simps nz split: if_splits)
qed


text \<open>The names of the one accepted ISA floor: \<open>sse4.2\<close> or \<open>sse42\<close>, the letters in either case.\<close>

definition sse42_name :: "string \<Rightarrow> bool" where
  "sse42_name isa \<longleftrightarrow>
     (\<exists>a\<in>{CHR ''s'', CHR ''S''}. \<exists>b\<in>{CHR ''s'', CHR ''S''}. \<exists>c\<in>{CHR ''e'', CHR ''E''}.
      \<exists>v\<in>{''4.2'', ''42''}. isa = a # b # c # v)"

lemma of_char_ascii_lower:
  "(of_char (ascii_lower c) :: nat) =
     (let n = of_char c in if 65 \<le> n \<and> n \<le> 90 then n + 32 else n)"
  by (simp add: ascii_lower_def Let_def)

lemma char_eq_iff_nat: "x = y \<longleftrightarrow> (of_char x :: nat) = of_char y"
  by simp

lemma ascii_lower_letters:
  "ascii_lower c = CHR ''s'' \<longleftrightarrow> c = CHR ''s'' \<or> c = CHR ''S''"
  "ascii_lower c = CHR ''e'' \<longleftrightarrow> c = CHR ''e'' \<or> c = CHR ''E''"
  "ascii_lower c = CHR ''4'' \<longleftrightarrow> c = CHR ''4''"
  "ascii_lower c = CHR ''2'' \<longleftrightarrow> c = CHR ''2''"
  "ascii_lower c = CHR ''.'' \<longleftrightarrow> c = CHR ''.''"
  unfolding char_eq_iff_nat [of "ascii_lower c"] char_eq_iff_nat [of c] of_char_ascii_lower Let_def
  by simp_all arith+

lemma ascii_lower_literals:
  "ascii_lower CHR ''s'' = CHR ''s''" "ascii_lower CHR ''e'' = CHR ''e''" "ascii_lower CHR ''4'' = CHR ''4''"
  "ascii_lower CHR ''2'' = CHR ''2''" "ascii_lower CHR ''.'' = CHR ''.''"
  by (simp_all add: ascii_lower_letters)

lemma Cons_step:
  "xs = y # ys \<longleftrightarrow> xs \<noteq> [] \<and> hd xs = y \<and> tl xs = ys"
  "map f xs = y # ys \<longleftrightarrow> xs \<noteq> [] \<and> f (hd xs) = y \<and> map f (tl xs) = ys"
  by (cases xs; auto)+

lemma eq_ignore_version:
  "map ascii_lower w = ''4.2'' \<longleftrightarrow> w = ''4.2''"
  "map ascii_lower w = ''42'' \<longleftrightarrow> w = ''42''"
  by (simp_all only: Cons_step(2) ascii_lower_letters map_is_Nil_conv) (simp_all only: Cons_step(1))

lemma three_letters:
  "(\<exists>a\<in>{p, q}. \<exists>b\<in>{p, q}. \<exists>c\<in>{r, t}. \<exists>v\<in>{x, y}. isa = a # b # c # v) \<longleftrightarrow>
     isa \<noteq> [] \<and> (hd isa = p \<or> hd isa = q) \<and> tl isa \<noteq> [] \<and> (hd (tl isa) = p \<or> hd (tl isa) = q) \<and>
     tl (tl isa) \<noteq> [] \<and> (hd (tl (tl isa)) = r \<or> hd (tl (tl isa)) = t) \<and>
     (tl (tl (tl isa)) = x \<or> tl (tl (tl isa)) = y)"
  unfolding Cons_step by blast

lemma eq_ignore_sse42:
  "eq_ignore_ascii_case isa ''sse4.2'' \<or> eq_ignore_ascii_case isa ''sse42'' \<longleftrightarrow> sse42_name isa"
proof -
  have sse: "map ascii_lower isa = CHR ''s'' # CHR ''s'' # CHR ''e'' # v \<longleftrightarrow>
      isa \<noteq> [] \<and> (hd isa = CHR ''s'' \<or> hd isa = CHR ''S'') \<and> tl isa \<noteq> [] \<and>
      (hd (tl isa) = CHR ''s'' \<or> hd (tl isa) = CHR ''S'') \<and> tl (tl isa) \<noteq> [] \<and>
      (hd (tl (tl isa)) = CHR ''e'' \<or> hd (tl (tl isa)) = CHR ''E'') \<and> map ascii_lower (tl (tl (tl isa))) = v"
    for v by (simp only: Cons_step(2) ascii_lower_letters conj_assoc)
  show ?thesis
    unfolding eq_ignore_ascii_case_def sse42_name_def three_letters list.map ascii_lower_literals sse
      eq_ignore_version
    by argo
qed
lemma check_isa_accepts:
  "check_isa s = Inr () \<longleftrightarrow> (case s of None \<Rightarrow> True | Some isa \<Rightarrow> sse42_name isa)"
  by (cases s) (simp_all add: check_isa_def eq_ignore_sse42 [symmetric])

text \<open>The configurations the product accepts, read off the parsed file.\<close>

definition acceptable :: "raw_policy \<Rightarrow> bool" where
  "acceptable raw \<longleftrightarrow>
     raw_platform_policy raw \<in> {None, Some ''AppleIntelOnly''} \<and>
     (case raw_cpu raw of None \<Rightarrow> False | Some c \<Rightarrow> (case minimum_isa c of None \<Rightarrow> True | Some isa \<Rightarrow> sse42_name isa)) \<and>
     (case raw_security raw of None \<Rightarrow> False | Some s \<Rightarrow> dma_bypass s \<noteq> Some True) \<and>
     (case raw_memory raw of None \<Rightarrow> False
      | Some m \<Rightarrow> (\<forall>x\<in>{cfg_guest_mib m, cfg_host_reserve_mib m, cfg_jit_cache_mib m}.
          x \<noteq> None \<and> x \<noteq> Some 0)) \<and>
     (case raw_guest raw of None \<Rightarrow> False
      | Some g \<Rightarrow> profile_id g \<in> {None, Some '''', Some ''macos26-tahoe'', Some ''macos27-golden-gate''})"

lemma normalize_profile_accepts:
  "(\<exists>p. normalize_profile s = Inr p) \<longleftrightarrow>
     s \<in> {None, Some '''', Some ''macos26-tahoe'', Some ''macos27-golden-gate''}"
  by (auto simp: normalize_profile_def split: option.splits if_splits)

lemma normalize_platform_accepts:
  "(\<exists>p. normalize_platform s = Inr p) \<longleftrightarrow> s \<in> {None, Some ''AppleIntelOnly''}"
  by (auto simp: normalize_platform_def split: option.splits if_splits)

lemma from_plist_accepts:
  assumes "parse_plist bs = Inr raw"
  shows "(\<exists>p. from_plist_bytes parse_plist sha256 bs = Inr p) \<longleftrightarrow> acceptable raw"
proof
  assume "\<exists>p. from_plist_bytes parse_plist sha256 bs = Inr p"
  then obtain p where p: "from_plist_bytes parse_plist sha256 bs = Inr p" by blast
  have "\<exists>p. normalize_platform (raw_platform_policy raw) = Inr p"
    and "\<exists>gc q. raw_guest raw = Some gc \<and> normalize_profile (profile_id gc) = Inr q"
    using p assms by (auto simp: from_plist_bytes_Inr_iff)
  then show "acceptable raw"
    using p assms unfolding acceptable_def normalize_platform_accepts [symmetric]
      normalize_profile_accepts [symmetric] check_isa_accepts [symmetric]
    by (auto simp: from_plist_bytes_Inr_iff)
next
  assume a: "acceptable raw"
  then obtain c sec m gc where parts: "raw_cpu raw = Some c" "raw_security raw = Some sec"
      "raw_memory raw = Some m" "raw_guest raw = Some gc"
    by (auto simp: acceptable_def split: option.splits)
  have "\<exists>plat. normalize_platform (raw_platform_policy raw) = Inr plat"
    and "\<exists>q. normalize_profile (profile_id gc) = Inr q"
    unfolding normalize_platform_accepts normalize_profile_accepts
    using a parts by (simp_all add: acceptable_def)
  then obtain plat q where norm: "normalize_platform (raw_platform_policy raw) = Inr plat"
      "normalize_profile (profile_id gc) = Inr q"
    by blast
  obtain g r j where mem: "cfg_guest_mib m = Some g" "g \<noteq> 0" "cfg_host_reserve_mib m = Some r"
      "r \<noteq> 0" "cfg_jit_cache_mib m = Some j" "j \<noteq> 0"
    using a parts by (auto simp: acceptable_def)
  show "\<exists>p. from_plist_bytes parse_plist sha256 bs = Inr p"
    using a parts norm mem assms
    by (simp add: from_plist_bytes_def acceptable_def check_isa_accepts [symmetric])
qed

definition sample_raw :: raw_policy where
  "sample_raw =
     \<lparr>raw_schema_version = Some 1, raw_platform_policy = Some ''AppleIntelOnly'',
      raw_cpu = Some \<lparr>minimum_isa = Some ''SSE4.2'', codegen = None, hybrid_scheduling = None,
        vcpus = None, service_logical_cpus = Some 2, smt_policy = None\<rparr>,
      raw_security = Some \<lparr>vmx_required = Some True, ept_required = Some True,
        iommu_required = Some True, interrupt_remapping_required = Some True,
        dma_bypass = Some False\<rparr>,
      raw_memory = Some \<lparr>cfg_guest_mib = Some 8192, cfg_host_reserve_mib = Some 4096,
        cfg_jit_cache_mib = Some 512\<rparr>,
      raw_storage = None, raw_graphics = None,
      raw_guest = Some \<lparr>profile_id = Some ''macos26-tahoe'', require_metal = Some True\<rparr>\<rparr>"

definition sample_plist :: "bytes \<Rightarrow> (raw_policy, string) result" where
  "sample_plist bs =
     (if bs = [] then Err ''empty''
      else if bs = [0] then
        Ok (sample_raw\<lparr>raw_security := Some \<lparr>vmx_required = Some False, ept_required = None,
          iommu_required = Some False, interrupt_remapping_required = None, dma_bypass = None\<rparr>\<rparr>)
      else Ok sample_raw)"

definition sample_sha256 :: "bytes \<Rightarrow> bytes" where
  "sample_sha256 bs = replicate 31 0 @ [word_of_nat (length bs)]"

lemma check_isa_sample: "check_isa (Some ''SSE4.2'') = Inr ()"
  by code_simp

lemma sample_raw_acceptable: "acceptable sample_raw"
  using check_isa_sample by (simp add: acceptable_def sample_raw_def check_isa_accepts)

lemma sample_accepted:
  assumes "bs \<noteq> []" and "bs \<noteq> [0]"
  obtains p where "from_plist_bytes sample_plist sample_sha256 bs = Inr p"
  using from_plist_accepts [of sample_plist bs sample_raw sample_sha256] sample_raw_acceptable assms
  by (auto simp: sample_plist_def)

section \<open>Properties\<close>

text \<open>C39: Policy normalization. A configuration is accepted exactly when it parses, names no
  platform but \<open>AppleIntelOnly\<close>, has a CPU section whose minimum ISA, if given, is SSE4.2 by name
  (every other name is refused, also those of higher levels), a security section that does not
  enable DMA bypass, three nonzero memory sizes, and a guest section with no profile or a known
  one. The accepted policy carries the configured memory sizes, security flags (absent means not
  required) and profile, and the hash of exactly the bytes parsed, and it denies boot. Nothing
  else of the security section is looked at: contrary to the comments of \<open>vf_policy.rs\<close> (lines 6-13
  and 229-230), settings that drop VMX, EPT, IOMMU or interrupt remapping are accepted.\<close>

theorem policy_normalization:
  "case from_plist_bytes parse_plist sha256 bs of
     Inl e \<Rightarrow> (case parse_plist bs of Inl m \<Rightarrow> e = Plist m | Inr raw \<Rightarrow> \<not> acceptable raw)
   | Inr p \<Rightarrow> (case parse_plist bs of
         Inl _ \<Rightarrow> False
       | Inr raw \<Rightarrow> acceptable raw \<and>
           Some (Some (guest_mib p)) = map_option cfg_guest_mib (raw_memory raw) \<and>
           Some (Some (host_reserve_mib p)) = map_option cfg_host_reserve_mib (raw_memory raw) \<and>
           Some (Some (jit_cache_mib p)) = map_option cfg_jit_cache_mib (raw_memory raw) \<and>
           Some [require_vmx p, require_ept p, require_iommu p, require_interrupt_remapping p] =
             map_option (\<lambda>s. [vmx_required s = Some True, ept_required s = Some True,
               iommu_required s = Some True, interrupt_remapping_required s = Some True])
               (raw_security raw) \<and>
           map_option profile_id (raw_guest raw) \<in>
             (case policy_profile p of
                None \<Rightarrow> {Some None, Some (Some '''')}
              | Some MacOS26Tahoe \<Rightarrow> {Some (Some ''macos26-tahoe'')}
              | Some MacOS27GoldenGate \<Rightarrow> {Some (Some ''macos27-golden-gate'')})) \<and>
       0 < guest_mib p \<and> 0 < host_reserve_mib p \<and> 0 < jit_cache_mib p \<and>
       config_sha256 p = sha256 bs \<and> \<not> boot_authorized_field p \<and> \<not> policy_boot_authorized p \<and>
       policy_deny p = (False, ''no signature verifier'')"
proof (cases "parse_plist bs")
  case (Inl m)
  then show ?thesis by (simp add: from_plist_bytes_def)
next
  case (Inr raw)
  note acc = from_plist_accepts [of parse_plist, OF Inr, of sha256]
  show ?thesis
  proof (cases "from_plist_bytes parse_plist sha256 bs")
    case (Inl e)
    then show ?thesis using acc Inr by simp
  next
    case ok: (Inr p)
    then have a: "acceptable raw" using acc by blast
    obtain memory security gc where parts: "raw_memory raw = Some memory"
        "raw_security raw = Some security" "raw_guest raw = Some gc"
        "cfg_guest_mib memory = Some (guest_mib p)"
        "cfg_host_reserve_mib memory = Some (host_reserve_mib p)"
        "cfg_jit_cache_mib memory = Some (jit_cache_mib p)"
        "guest_mib p \<noteq> 0" "host_reserve_mib p \<noteq> 0" "jit_cache_mib p \<noteq> 0"
        "config_sha256 p = sha256 bs" "\<not> boot_authorized_field p" "denial p = NoSignatureVerifier"
      and profile: "normalize_profile (profile_id gc) = Inr (policy_profile p)"
      and flags: "require_vmx p = unwrap_or (vmx_required security) False"
        "require_ept p = unwrap_or (ept_required security) False"
        "require_iommu p = unwrap_or (iommu_required security) False"
        "require_interrupt_remapping p = unwrap_or (interrupt_remapping_required security) False"
      using ok Inr unfolding from_plist_bytes_Inr_iff by fastforce
    have u: "unwrap_or x False \<longleftrightarrow> x = Some True" for x by (cases x) auto
    have "Some (profile_id gc) \<in> (case policy_profile p of
        None \<Rightarrow> {Some None, Some (Some '''')}
      | Some MacOS26Tahoe \<Rightarrow> {Some (Some ''macos26-tahoe'')}
      | Some MacOS27GoldenGate \<Rightarrow> {Some (Some ''macos27-golden-gate'')})"
      using profile unfolding normalize_profile_Inr_iff by (auto split: option.splits guest_profile.splits)
    then show ?thesis
      using parts flags u
      by (simp add: Inr ok a policy_boot_authorized_def policy_deny_def word_neq_0_conv)
  qed
qed

text \<open>C40: The security section never refuses a configuration except for DMA bypass. Replacing
  the section of an accepted configuration by any other without DMA bypass is accepted too; a
  section that requires nothing yields a policy whose feature check passes on hardware without
  VMX, EPT and interrupt remapping, and the IOMMU requirement is never checked.\<close>

theorem security_section_not_enforced:
  assumes "from_plist_bytes parse_plist sha256 bs = Inr p" and "parse_plist bs = Inr raw"
    and "parse_plist bs' = Inr (raw\<lparr>raw_security := Some sec\<rparr>)" and "dma_bypass sec \<noteq> Some True"
  shows "\<exists>p'. from_plist_bytes parse_plist sha256 bs' = Inr p' \<and>
    guest_mib p' = guest_mib p \<and>
    required_features_present p' has_vmx has_ept has_irq =
      required_features_present (p'\<lparr>require_iommu := b\<rparr>) has_vmx has_ept has_irq \<and>
    required_features_present p' False False False =
      (vmx_required sec \<noteq> Some True \<and> ept_required sec \<noteq> Some True \<and>
       interrupt_remapping_required sec \<noteq> Some True)"
proof -
  have "acceptable raw" using from_plist_accepts [of parse_plist, OF assms(2)] assms(1) by blast
  then have "acceptable (raw\<lparr>raw_security := Some sec\<rparr>)"
    using assms(4) by (simp add: acceptable_def)
  then obtain p' where p': "from_plist_bytes parse_plist sha256 bs' = Inr p'"
    using from_plist_accepts [of parse_plist, OF assms(3)] by blast
  then have r: "require_vmx p' = unwrap_or (vmx_required sec) False"
      "require_ept p' = unwrap_or (ept_required sec) False"
      "require_interrupt_remapping p' = unwrap_or (interrupt_remapping_required sec) False"
      "guest_mib p' = guest_mib p"
    using assms(1-3) unfolding from_plist_bytes_Inr_iff by (elim exE conjE, simp)+
  have u: "unwrap_or x False \<longleftrightarrow> x = Some True" for x by (cases x) auto
  show ?thesis using p' r by (auto simp: required_features_present_def u)
qed

lemma security_section_not_enforced_witness:
  "\<exists>p. from_plist_bytes sample_plist sample_sha256 [0] = Inr p \<and>
     required_features_present p False False False"
proof -
  obtain p where p: "from_plist_bytes sample_plist sample_sha256 [1] = Inr p"
    by (rule sample_accepted [of "[1]"]) simp_all
  have raw: "sample_plist [1] = Inr sample_raw" by (simp add: sample_plist_def)
  show ?thesis
    using security_section_not_enforced [OF p raw, of "[0]"
        "\<lparr>vmx_required = Some False, ept_required = None, iommu_required = Some False,
          interrupt_remapping_required = None, dma_bypass = None\<rparr>"]
    by (fastforce simp: sample_plist_def [of "[0]"])
qed

text \<open>The hash receipt identifies the configuration hash. With a 32-byte digest the
  receipt of an accepted configuration is 64 lowercase hexadecimal digits, and two accepted
  configurations have the same receipt exactly when their digests are equal.\<close>

theorem receipt_identifies_hash:
  assumes "\<forall>bs. length (sha256 bs) = 32"
    and "from_plist_bytes parse_plist sha256 bs = Inr p"
    and "from_plist_bytes parse_plist sha256 bs' = Inr p'"
  shows "length (config_hash_hex p) = 64 \<and> set (config_hash_hex p) \<subseteq> set ''0123456789abcdef'' \<and>
    (config_hash_hex p = config_hash_hex p' \<longleftrightarrow> sha256 bs = sha256 bs')"
proof -
  have h: "config_sha256 p = sha256 bs" "config_sha256 p' = sha256 bs'"
    using assms(2,3) by (auto simp: from_plist_bytes_Inr_iff)
  have "set (concat (map hex_byte xs)) \<subseteq> set ''0123456789abcdef''" for xs
    unfolding set_concat set_map using set_hex_byte by blast
  then show ?thesis
    using assms(1) by (simp only: config_hash_hex_def h concat_hex_inject length_concat_hex) simp
qed

lemma receipt_identifies_hash_witness:
  "\<exists>p p'. from_plist_bytes sample_plist sample_sha256 [1] = Inr p \<and>
     from_plist_bytes sample_plist sample_sha256 [1, 2] = Inr p' \<and>
     length (config_hash_hex p) = 64 \<and> config_hash_hex p \<noteq> config_hash_hex p'"
proof -
  obtain p where p: "from_plist_bytes sample_plist sample_sha256 [1] = Inr p"
    by (rule sample_accepted [of "[1]"]) simp_all
  obtain p' where p': "from_plist_bytes sample_plist sample_sha256 [1, 2] = Inr p'"
    by (rule sample_accepted [of "[1, 2]"]) simp_all
  have "\<forall>bs. length (sample_sha256 bs) = 32" by (simp add: sample_sha256_def)
  from receipt_identifies_hash [OF this p p'] p p' show ?thesis
    by (auto simp: sample_sha256_def)
qed

text \<open>C35: The range check of a grant is exact and cannot be bypassed by wrap-around: it
  succeeds iff offset and length, as natural numbers, fit the object, and fails with
  \<open>Erange\<close> otherwise.\<close>

theorem range_check_exact:
  "range_check (vf_grant_new oid off len) n =
     (if unat off + unat len \<le> unat n then Inr () else Inl Vf_Erange)"
proof (cases "unat off + unat len < 2 ^ 64")
  case True
  then have "checked_add off len = Some (off + len)" "unat (off + len) = unat off + unat len"
    by (simp_all add: checked_add_def unat_word_ariths)
  then show ?thesis by (simp add: range_check_def vf_grant_new_def word_less_nat_alt)
next
  case False
  then have "checked_add off len = None" by (simp add: checked_add_None_iff)
  moreover have "unat n < unat off + unat len" using False unat_u64_bound [of n] by simp
  ultimately show ?thesis by (simp add: range_check_def vf_grant_new_def)
qed

end
