(* ===== verification/Guest_Plan.thy ===== *)
theory Guest_Plan
  imports Wire_Codec
begin

text \<open>
  The guest specification and the serialized launch plan of \<open>src/guest.rs\<close>: \<open>GuestSpec\<close>,
  \<open>XstateDomain\<close>, \<open>GuestLaunchPlan\<close> with its builder, its encoder and its cursor-based decoder.
  The cursor is a natural number. The operations that panic are explicit and the decoder returns
  an \<open>outcome\<close>: the addition \<open>*p + n\<close> where it exceeds \<open>usize\<close>, the slice index \<open>buf[*p..*p + n]\<close>
  where the range is inverted or ends outside the buffer, and the \<open>unwrap\<close> of the conversion of a
  slice to an array of another length. The lemmas give, for each reader, the exact bytes it accepts.
\<close>

section \<open>Specifications\<close>

datatype guest_error =
    UnsupportedHost string
  | InvalidSpec string
  | BackendUnavailable
  | FrameworkSymbol string
  | AbiPending string

record guest_spec =
  cpu_count :: u32
  memory_bytes :: u64

definition spec_validate :: "guest_spec \<Rightarrow> (unit, guest_error) result" where
  "spec_validate s =
     (if cpu_count s = 0 \<or> cpu_count s > 255 then Err (InvalidSpec ''cpu_count out of range'')
      else if memory_bytes s < 128 * 1024 * 1024 then Err (InvalidSpec ''memory below 128 MiB'')
      else Ok ())"

datatype guest_state = Stopped | Running | Paused | Faulted string

section \<open>XSTATE domains\<close>

definition XCR0_X87 :: u64 where "XCR0_X87 = push_bit 0 1"
definition XCR0_SSE :: u64 where "XCR0_SSE = push_bit 1 1"
definition XCR0_AVX :: u64 where "XCR0_AVX = push_bit 2 1"
definition XCR0_SSE4_2_FLOOR :: u64 where "XCR0_SSE4_2_FLOOR = XCR0_X87 OR XCR0_SSE"

record xstate_domain =
  xcr0 :: u64

definition from_xcr0 :: "u64 \<Rightarrow> xstate_domain" where
  "from_xcr0 v = \<lparr>xcr0 = v\<rparr>"

definition has_floored_state :: "xstate_domain \<Rightarrow> bool" where
  "has_floored_state d \<longleftrightarrow> xcr0 d AND XCR0_SSE4_2_FLOOR = XCR0_SSE4_2_FLOOR"

definition has_avx_state :: "xstate_domain \<Rightarrow> bool" where
  "has_avx_state d \<longleftrightarrow> xcr0 d AND XCR0_AVX \<noteq> 0"

definition ise_gpr_saved_count :: "xstate_domain \<Rightarrow> u32" where
  "ise_gpr_saved_count d = 16"

section \<open>Launch plans\<close>

record guest_launch_plan =
  spec :: guest_spec
  boot_disk :: string
  smbios_override :: "(string \<times> string) list"
  device_map :: "(u32 \<times> u32 \<times> u64) list"

definition plan_new :: "guest_spec \<Rightarrow> string \<Rightarrow> (guest_launch_plan, guest_error) result" where
  "plan_new s disk =
     bindE (spec_validate s) (\<lambda>_.
     if disk = [] then Err (InvalidSpec ''empty boot disk'')
     else Ok \<lparr>spec = s, boot_disk = disk, smbios_override = [], device_map = []\<rparr>)"

definition smbios :: "string \<Rightarrow> string \<Rightarrow> guest_launch_plan \<Rightarrow> guest_launch_plan" where
  "smbios k v plan = plan\<lparr>smbios_override := smbios_override plan @ [(k, v)]\<rparr>"

definition map_device :: "u32 \<Rightarrow> u32 \<Rightarrow> u64 \<Rightarrow> guest_launch_plan \<Rightarrow> guest_launch_plan" where
  "map_device vid did len plan = plan\<lparr>device_map := device_map plan @ [(vid, did, len)]\<rparr>"

text \<open>\<open>(n as u32).to_le_bytes()\<close> keeps the low 32 bits of a length.\<close>

definition len_u32 :: "nat \<Rightarrow> bytes" where
  "len_u32 n = le_bytes 4 (word_of_nat n :: u32)"

definition plan_encode :: "guest_launch_plan \<Rightarrow> bytes" where
  "plan_encode plan =
     le_bytes 4 (cpu_count (spec plan)) @ le_bytes 8 (memory_bytes (spec plan)) @
     len_u32 (length (boot_disk plan)) @ as_bytes (boot_disk plan) @
     len_u32 (length (smbios_override plan)) @
     concat (map (\<lambda>(k, v). len_u32 (length k) @ as_bytes k @ len_u32 (length v) @ as_bytes v)
       (smbios_override plan)) @
     len_u32 (length (device_map plan)) @
     concat (map (\<lambda>(vid, did, len). le_bytes 4 vid @ le_bytes 4 did @ le_bytes 8 len)
       (device_map plan))"

section \<open>The decoder\<close>

text \<open>A reader takes the cursor and returns a value with the new cursor, an error, or panics.\<close>

type_synonym 'a read = "('a \<times> nat, guest_error) result outcome"

definition bindR :: "'a read \<Rightarrow> ('a \<Rightarrow> nat \<Rightarrow> 'b read) \<Rightarrow> 'b read" where
  "bindR m f =
     (case m of
        Panicked \<Rightarrow> Panicked
      | Returned (Inl e) \<Rightarrow> Returned (Inl e)
      | Returned (Inr (x, p)) \<Rightarrow> f x p)"

text \<open>A fallible computation that does not read.\<close>

definition liftR :: "nat \<Rightarrow> ('a, guest_error) result \<Rightarrow> 'a read" where
  "liftR p r = Returned (case r of Inl e \<Rightarrow> Inl e | Inr x \<Rightarrow> Inr (x, p))"

text \<open>\<open>buf[a..b]\<close>, and \<open>s.try_into().unwrap()\<close> to an array of \<open>n\<close> bytes.\<close>

definition index_range :: "bytes \<Rightarrow> nat \<Rightarrow> nat \<Rightarrow> bytes outcome" where
  "index_range buf a b = (if a \<le> b \<and> b \<le> length buf then Returned (slice buf a b) else Panicked)"

definition to_array :: "nat \<Rightarrow> bytes \<Rightarrow> nat \<Rightarrow> bytes read" where
  "to_array n s p = (if length s = n then Returned (Ok (s, p)) else Panicked)"

definition take_bytes :: "target \<Rightarrow> bytes \<Rightarrow> nat \<Rightarrow> nat \<Rightarrow> bytes read" where
  "take_bytes t buf p n =
     (if p + n \<ge> 2 ^ ptr_width t then Panicked
      else if p + n > length buf then Returned (Err (InvalidSpec ''truncated plan''))
      else (case index_range buf p (p + n) of
          Panicked \<Rightarrow> Panicked
        | Returned s \<Rightarrow> Returned (Ok (s, p + n))))"

definition take_u32 :: "target \<Rightarrow> bytes \<Rightarrow> nat \<Rightarrow> u32 read" where
  "take_u32 t buf p =
     bindR (take_bytes t buf p 4) (\<lambda>s p.
     bindR (to_array 4 s p) (\<lambda>a p. Returned (Ok (of_le_bytes a, p))))"

definition take_u64 :: "target \<Rightarrow> bytes \<Rightarrow> nat \<Rightarrow> u64 read" where
  "take_u64 t buf p =
     bindR (take_bytes t buf p 8) (\<lambda>s p.
     bindR (to_array 8 s p) (\<lambda>a p. Returned (Ok (of_le_bytes a, p))))"

definition take_string :: "target \<Rightarrow> string \<Rightarrow> bytes \<Rightarrow> nat \<Rightarrow> string read" where
  "take_string t what buf p =
     bindR (take_u32 t buf p) (\<lambda>len p.
     bindR (take_bytes t buf p (unat len)) (\<lambda>s p.
     liftR p (ok_or (from_utf8 s) (InvalidSpec what))))"

primrec smbios_loop ::
    "target \<Rightarrow> bytes \<Rightarrow> nat \<Rightarrow> guest_launch_plan \<Rightarrow> nat \<Rightarrow> guest_launch_plan read" where
  "smbios_loop t buf 0 plan p = Returned (Ok (plan, p))"
| "smbios_loop t buf (Suc n) plan p =
     bindR (take_string t ''smbios key not utf-8'' buf p) (\<lambda>k p.
     bindR (take_string t ''smbios value not utf-8'' buf p) (\<lambda>v p.
     smbios_loop t buf n (plan\<lparr>smbios_override := smbios_override plan @ [(k, v)]\<rparr>) p))"

primrec device_loop ::
    "target \<Rightarrow> bytes \<Rightarrow> nat \<Rightarrow> guest_launch_plan \<Rightarrow> nat \<Rightarrow> guest_launch_plan read" where
  "device_loop t buf 0 plan p = Returned (Ok (plan, p))"
| "device_loop t buf (Suc n) plan p =
     bindR (take_u32 t buf p) (\<lambda>vid p.
     bindR (take_u32 t buf p) (\<lambda>did p.
     bindR (take_u64 t buf p) (\<lambda>len p.
     device_loop t buf n (plan\<lparr>device_map := device_map plan @ [(vid, did, len)]\<rparr>) p)))"

definition plan_decode ::
    "target \<Rightarrow> bytes \<Rightarrow> (guest_launch_plan, guest_error) result outcome" where
  "plan_decode t buf =
     (case
        bindR (take_u32 t buf 0) (\<lambda>cpus p.
        bindR (take_u64 t buf p) (\<lambda>mem p.
        let s = \<lparr>cpu_count = cpus, memory_bytes = mem\<rparr> in
        bindR (liftR p (spec_validate s)) (\<lambda>_ p.
        bindR (take_string t ''boot disk not utf-8'' buf p) (\<lambda>disk p.
        bindR (liftR p (plan_new s disk)) (\<lambda>plan p.
        bindR (take_u32 t buf p) (\<lambda>smbios_count p.
        bindR (smbios_loop t buf (unat smbios_count) plan p) (\<lambda>plan p.
        bindR (take_u32 t buf p) (\<lambda>n_dev p.
        bindR (device_loop t buf (unat n_dev) plan p) (\<lambda>plan p.
        if p \<noteq> length buf then Returned (Err (InvalidSpec ''trailing bytes''))
        else Returned (Ok (plan, p)))))))))))
      of
        Panicked \<Rightarrow> Panicked
      | Returned (Inl e) \<Rightarrow> Returned (Inl e)
      | Returned (Inr (plan, _)) \<Rightarrow> Returned (Inr plan))"

section \<open>Accepted bytes of each reader\<close>

lemma bindR_simps [simp]:
  "bindR Panicked f = Panicked"
  "bindR (Returned (Inl e)) f = Returned (Inl e)"
  "bindR (Returned (Inr (x, p))) f = f x p"
  by (simp_all add: bindR_def)

lemma bindR_Ok_iff:
  "bindR m f = Returned (Inr y) \<longleftrightarrow> (\<exists>x p. m = Returned (Inr (x, p)) \<and> f x p = Returned (Inr y))"
  by (auto simp: bindR_def split: outcome.splits sum.splits)

lemma liftR_Ok_iff: "liftR p r = Returned (Inr (x, q)) \<longleftrightarrow> r = Inr x \<and> q = p"
  by (auto simp: liftR_def split: sum.splits)

text \<open>Where overflow is not checked, \<open>*p + n\<close> wraps around, passes the length test and inverts the
  slice range, so the build without overflow checks panics in the same cases, one operation later.\<close>

definition take_bytes_wrapping :: "target \<Rightarrow> bytes \<Rightarrow> nat \<Rightarrow> nat \<Rightarrow> bytes read" where
  "take_bytes_wrapping t buf p n =
     (let e = (p + n) mod 2 ^ ptr_width t in
      if e > length buf then Returned (Err (InvalidSpec ''truncated plan''))
      else (case index_range buf p e of
          Panicked \<Rightarrow> Panicked
        | Returned s \<Rightarrow> Returned (Ok (s, e))))"

lemma take_bytes_wrapping:
  assumes "p \<le> length buf" and "length buf < 2 ^ ptr_width t" and "n < 2 ^ ptr_width t"
  shows "take_bytes_wrapping t buf p n = take_bytes t buf p n"
proof (cases "p + n < 2 ^ ptr_width t")
  case True
  then show ?thesis by (simp add: take_bytes_wrapping_def take_bytes_def Let_def)
next
  case False
  then have "(p + n) mod 2 ^ ptr_width t = p + n - 2 ^ ptr_width t"
    using assms by (simp add: mod_if)
  then have "(p + n) mod 2 ^ ptr_width t < p" using False assms(3) by linarith
  then show ?thesis
    using False assms(1) by (simp add: take_bytes_wrapping_def take_bytes_def index_range_def Let_def)
qed

text \<open>A reader that consumed the bytes \<open>bs\<close> between two cursors.\<close>

definition consumed :: "target \<Rightarrow> bytes \<Rightarrow> nat \<Rightarrow> nat \<Rightarrow> bytes \<Rightarrow> bool" where
  "consumed t buf p q bs \<longleftrightarrow>
     q = p + length bs \<and> q \<le> length buf \<and> q < 2 ^ ptr_width t \<and> slice buf p q = bs"

lemma consumed_append:
  "consumed t buf p r (bs @ cs) \<longleftrightarrow>
     (\<exists>q. consumed t buf p q bs \<and> consumed t buf q r cs)"
proof
  assume c: "consumed t buf p r (bs @ cs)"
  then have r: "r = p + length bs + length cs" "r \<le> length buf" "r < 2 ^ ptr_width t"
    and s: "slice buf p r = bs @ cs" by (auto simp: consumed_def)
  have "slice buf p (p + length bs) @ slice buf (p + length bs) r = bs @ cs"
    using r s by (simp add: slice_join)
  moreover have "length (slice buf p (p + length bs)) = length bs"
    using r by (simp add: length_slice)
  ultimately have "slice buf p (p + length bs) = bs \<and> slice buf (p + length bs) r = cs" by simp
  then show "\<exists>q. consumed t buf p q bs \<and> consumed t buf q r cs"
    using r by (intro exI [of _ "p + length bs"]) (simp add: consumed_def)
next
  assume "\<exists>q. consumed t buf p q bs \<and> consumed t buf q r cs"
  then obtain q where q: "consumed t buf p q bs" "consumed t buf q r cs" by blast
  then have "slice buf p q @ slice buf q r = slice buf p r"
    by (intro slice_join) (simp_all add: consumed_def)
  with q show "consumed t buf p r (bs @ cs)" by (auto simp: consumed_def)
qed

lemma consumed_Nil: "consumed t buf p q [] \<longleftrightarrow> q = p \<and> p \<le> length buf \<and> p < 2 ^ ptr_width t"
  by (auto simp: consumed_def slice_def)

lemma consumed_bound: "consumed t buf p q bs \<Longrightarrow> q \<le> length buf \<and> q < 2 ^ ptr_width t"
  by (simp add: consumed_def)

lemma take_bytes_Ok_iff:
  "take_bytes t buf p n = Returned (Inr (s, q)) \<longleftrightarrow> consumed t buf p q s \<and> length s = n"
  by (auto simp: take_bytes_def index_range_def consumed_def length_slice)

lemma to_array_Ok_iff: "to_array n s p = Returned (Inr (a, q)) \<longleftrightarrow> length s = n \<and> a = s \<and> q = p"
  by (auto simp: to_array_def)

lemma take_u32_Ok_iff:
  "take_u32 t buf p = Returned (Inr (x, q)) \<longleftrightarrow> consumed t buf p q (le_bytes 4 x)"
proof -
  have "le_bytes 4 (of_le_bytes s :: u32) = s" if "length s = 4" for s :: bytes
    using that le_bytes_of_le_bytes [of s, where ?'a = 32] by simp
  moreover have "of_le_bytes (le_bytes 4 x) = x" by (simp add: of_le_bytes_le_bytes)
  ultimately show ?thesis
    unfolding take_u32_def by (auto simp: bindR_Ok_iff take_bytes_Ok_iff to_array_Ok_iff)
qed

lemma take_u64_Ok_iff:
  "take_u64 t buf p = Returned (Inr (x, q)) \<longleftrightarrow> consumed t buf p q (le_bytes 8 x)"
proof -
  have "le_bytes 8 (of_le_bytes s :: u64) = s" if "length s = 8" for s :: bytes
    using that le_bytes_of_le_bytes [of s, where ?'a = 64] by simp
  moreover have "of_le_bytes (le_bytes 8 x) = x" by (simp add: of_le_bytes_le_bytes)
  ultimately show ?thesis
    unfolding take_u64_def by (auto simp: bindR_Ok_iff take_bytes_Ok_iff to_array_Ok_iff)
qed

text \<open>Strings whose length fits the 32-bit length field.\<close>

definition wire_str :: "string \<Rightarrow> bool" where
  "wire_str s \<longleftrightarrow> is_str s \<and> length s < 2 ^ 32"

definition enc_str :: "string \<Rightarrow> bytes" where
  "enc_str s = len_u32 (length s) @ as_bytes s"

lemma le_bytes_4_inject: "le_bytes 4 m = le_bytes 4 n \<longleftrightarrow> m = (n :: u32)"
proof -
  have "of_le_bytes (le_bytes 4 k) = k" for k :: u32 by (simp add: of_le_bytes_le_bytes)
  then show ?thesis by metis
qed

lemma word_of_nat_u32_iff: "n = word_of_nat k \<and> k < 2 ^ 32 \<longleftrightarrow> k = unat (n :: u32)"
proof
  assume "n = word_of_nat k \<and> k < 2 ^ 32"
  then have "unat n = take_bit 32 k" and "k < 2 ^ 32"
    using unat_of_nat [of k, where ?'a = 32] by (simp_all add: take_bit_eq_mod)
  then show "k = unat n" by (simp add: take_bit_nat_eq_self)
next
  assume "k = unat n"
  then show "n = word_of_nat k \<and> k < 2 ^ 32" using unat_bound [of n] by simp
qed

lemma len_u32_iff: "le_bytes 4 (len :: u32) = len_u32 (length s) \<and> length s < 2 ^ 32 \<longleftrightarrow> length s = unat len"
  unfolding len_u32_def le_bytes_4_inject by (rule word_of_nat_u32_iff)

lemma take_string_Ok_iff:
  "take_string t what buf p = Returned (Inr (s, q)) \<longleftrightarrow> wire_str s \<and> consumed t buf p q (enc_str s)"
proof -
  note len = len_u32_iff [of _ s]
  show ?thesis (is "?l \<longleftrightarrow> ?r")
  proof
    assume ?l
    then obtain n :: u32 and r where "consumed t buf p r (le_bytes 4 n)" "consumed t buf r q (as_bytes s)"
        "length s = unat n" "is_str s"
      unfolding take_string_def bindR_Ok_iff liftR_Ok_iff take_u32_Ok_iff take_bytes_Ok_iff
        ok_or_Inr_iff from_utf8_Some_iff
      by (metis length_as_bytes)
    then show ?r using len [of n] unfolding enc_str_def consumed_append wire_str_def by metis
  next
    assume r: ?r
    then obtain m where m: "consumed t buf p m (len_u32 (length s))" "consumed t buf m q (as_bytes s)"
      unfolding enc_str_def consumed_append by blast
    have n: "length s = unat (word_of_nat (length s) :: u32)"
      using r word_of_nat_u32_iff [of _ "length s"] by (metis wire_str_def)
    have "take_u32 t buf p = Returned (Inr (word_of_nat (length s), m))"
      using m(1) by (simp add: take_u32_Ok_iff len_u32_def)
    moreover have "take_bytes t buf m (unat (word_of_nat (length s) :: u32)) = Returned (Inr (as_bytes s, q))"
      using m(2) n by (simp add: take_bytes_Ok_iff)
    ultimately show ?l
      using r by (simp add: take_string_def liftR_def from_utf8_as_bytes wire_str_def)
  qed
qed

definition enc_pair :: "string \<times> string \<Rightarrow> bytes" where
  "enc_pair kv = enc_str (fst kv) @ enc_str (snd kv)"

definition enc_device :: "u32 \<times> u32 \<times> u64 \<Rightarrow> bytes" where
  "enc_device d = le_bytes 4 (fst d) @ le_bytes 4 (fst (snd d)) @ le_bytes 8 (snd (snd d))"

lemma ex_length_Suc:
  "(\<exists>xs. length xs = Suc n \<and> P xs) \<longleftrightarrow> (\<exists>x xs. length xs = n \<and> P (x # xs))"
  by (auto simp: length_Suc_conv)

lemma smbios_loop_Ok_iff:
  assumes "p \<le> length buf" and "p < 2 ^ ptr_width t"
  shows "smbios_loop t buf n plan p = Returned (Inr (plan', q)) \<longleftrightarrow>
     (\<exists>kvs. length kvs = n \<and> (\<forall>(k, v)\<in>set kvs. wire_str k \<and> wire_str v) \<and>
        plan' = plan\<lparr>smbios_override := smbios_override plan @ kvs\<rparr> \<and>
        consumed t buf p q (concat (map enc_pair kvs)))"
  using assms
proof (induction n arbitrary: plan p)
  case 0
  then show ?case by (auto simp: consumed_Nil)
next
  case (Suc n)
  have step: "smbios_loop t buf (Suc n) plan p = Returned (Inr (plan', q)) \<longleftrightarrow>
     (\<exists>k v m. wire_str k \<and> wire_str v \<and> consumed t buf p m (enc_pair (k, v)) \<and>
        smbios_loop t buf n (plan\<lparr>smbios_override := smbios_override plan @ [(k, v)]\<rparr>) m =
          Returned (Inr (plan', q)))"
    unfolding smbios_loop.simps bindR_Ok_iff take_string_Ok_iff enc_pair_def consumed_append
      fst_conv snd_conv
    by blast
  have IH: "smbios_loop t buf n (plan\<lparr>smbios_override := smbios_override plan @ [(k, v)]\<rparr>) m =
        Returned (Inr (plan', q)) \<longleftrightarrow>
      (\<exists>kvs. length kvs = n \<and> (\<forall>(k, v)\<in>set kvs. wire_str k \<and> wire_str v) \<and>
        plan' = plan\<lparr>smbios_override := smbios_override plan @ (k, v) # kvs\<rparr> \<and>
        consumed t buf m q (concat (map enc_pair kvs)))"
    if "consumed t buf p m (enc_pair (k, v))" for k v m
    using Suc.IH [of m] consumed_bound [OF that] by simp
  have step': "consumed t buf p m (enc_pair (k, v)) \<and>
      smbios_loop t buf n (plan\<lparr>smbios_override := smbios_override plan @ [(k, v)]\<rparr>) m =
        Returned (Inr (plan', q)) \<longleftrightarrow>
      (\<exists>kvs. consumed t buf p m (enc_pair (k, v)) \<and> length kvs = n \<and>
        (\<forall>(k, v)\<in>set kvs. wire_str k \<and> wire_str v) \<and>
        plan' = plan\<lparr>smbios_override := smbios_override plan @ (k, v) # kvs\<rparr> \<and>
        consumed t buf m q (concat (map enc_pair kvs)))" for k v m
    using IH by blast
  show ?case
    unfolding step step' ex_length_Suc split_paired_Ex list.set ball_simps list.map concat.simps
      consumed_append case_prod_conv
    by blast
qed

lemma device_loop_Ok_iff:
  assumes "p \<le> length buf" and "p < 2 ^ ptr_width t"
  shows "device_loop t buf n plan p = Returned (Inr (plan', q)) \<longleftrightarrow>
     (\<exists>ds. length ds = n \<and> plan' = plan\<lparr>device_map := device_map plan @ ds\<rparr> \<and>
        consumed t buf p q (concat (map enc_device ds)))"
  using assms
proof (induction n arbitrary: plan p)
  case 0
  then show ?case by (auto simp: consumed_Nil)
next
  case (Suc n)
  have step: "device_loop t buf (Suc n) plan p = Returned (Inr (plan', q)) \<longleftrightarrow>
     (\<exists>d m. consumed t buf p m (enc_device d) \<and>
        device_loop t buf n (plan\<lparr>device_map := device_map plan @ [d]\<rparr>) m = Returned (Inr (plan', q)))"
    unfolding device_loop.simps bindR_Ok_iff take_u32_Ok_iff take_u64_Ok_iff enc_device_def
      consumed_append split_paired_Ex fst_conv snd_conv
    by blast
  have IH: "device_loop t buf n (plan\<lparr>device_map := device_map plan @ [d]\<rparr>) m = Returned (Inr (plan', q)) \<longleftrightarrow>
      (\<exists>ds. length ds = n \<and> plan' = plan\<lparr>device_map := device_map plan @ d # ds\<rparr> \<and>
        consumed t buf m q (concat (map enc_device ds)))"
    if "consumed t buf p m (enc_device d)" for d m
    using Suc.IH [of m] consumed_bound [OF that] by simp
  have step': "consumed t buf p m (enc_device d) \<and>
      device_loop t buf n (plan\<lparr>device_map := device_map plan @ [d]\<rparr>) m = Returned (Inr (plan', q)) \<longleftrightarrow>
      (\<exists>ds. consumed t buf p m (enc_device d) \<and> length ds = n \<and>
        plan' = plan\<lparr>device_map := device_map plan @ d # ds\<rparr> \<and>
        consumed t buf m q (concat (map enc_device ds)))" for d m
    using IH by blast
  show ?case
    unfolding step step' ex_length_Suc list.map concat.simps consumed_append
    by blast
qed

section \<open>Accepted plans\<close>

definition valid_spec :: "guest_spec \<Rightarrow> bool" where
  "valid_spec s \<longleftrightarrow> 1 \<le> unat (cpu_count s) \<and> unat (cpu_count s) \<le> 255 \<and>
     134217728 \<le> unat (memory_bytes s)"

lemma spec_validate_Inr_iff: "spec_validate s = Inr u \<longleftrightarrow> valid_spec s"
  by (auto simp: spec_validate_def valid_spec_def word_less_nat_alt word_unat_eq_iff)

text \<open>The plans whose fields fit the wire format.\<close>

definition wire_plan :: "guest_launch_plan \<Rightarrow> bool" where
  "wire_plan plan \<longleftrightarrow>
     valid_spec (spec plan) \<and> boot_disk plan \<noteq> [] \<and> wire_str (boot_disk plan) \<and>
     length (smbios_override plan) < 2 ^ 32 \<and>
     (\<forall>(k, v)\<in>set (smbios_override plan). wire_str k \<and> wire_str v) \<and>
     length (device_map plan) < 2 ^ 32"

lemma plan_encode_eq:
  "plan_encode plan =
     le_bytes 4 (cpu_count (spec plan)) @ le_bytes 8 (memory_bytes (spec plan)) @
     enc_str (boot_disk plan) @
     len_u32 (length (smbios_override plan)) @ concat (map enc_pair (smbios_override plan)) @
     len_u32 (length (device_map plan)) @ concat (map enc_device (device_map plan))"
proof -
  have "enc_pair = (\<lambda>(k, v). len_u32 (length k) @ as_bytes k @ len_u32 (length v) @ as_bytes v)"
    and "enc_device = (\<lambda>(vid, did, len). le_bytes 4 vid @ le_bytes 4 did @ le_bytes 8 len)"
    by (auto simp: fun_eq_iff enc_pair_def enc_device_def enc_str_def)
  then show ?thesis by (simp add: plan_encode_def enc_str_def)
qed

lemma count_iff:
  "(\<exists>n. take_u32 t buf p = Returned (Inr (n, q)) \<and> length xs = unat n) \<longleftrightarrow>
     length xs < 2 ^ 32 \<and> consumed t buf p q (len_u32 (length xs))"
  unfolding take_u32_Ok_iff by (metis len_u32_iff word_of_nat_u32_iff)

lemma spec_eta: "\<lparr>cpu_count = cpu_count s, memory_bytes = memory_bytes s\<rparr> = s"
  by simp

lemma plan_decode_consumed:
  assumes "wire_plan plan" and "consumed t buf 0 r (plan_encode plan)"
  shows "plan_decode t buf =
    (if r = length buf then Returned (Inr plan) else Returned (Inl (InvalidSpec ''trailing bytes'')))"
proof -
  let ?s = "spec plan" and ?n = "length (smbios_override plan)" and ?m = "length (device_map plan)"
  let ?p1 = "\<lparr>spec = ?s, boot_disk = boot_disk plan, smbios_override = [], device_map = []\<rparr>"
  let ?p2 = "?p1\<lparr>smbios_override := smbios_override plan\<rparr>"
  obtain p0 p1 p2 p3 p4 p5 where
      c: "consumed t buf 0 p0 (le_bytes 4 (cpu_count ?s))"
      "consumed t buf p0 p1 (le_bytes 8 (memory_bytes ?s))"
      "consumed t buf p1 p2 (enc_str (boot_disk plan))" "consumed t buf p2 p3 (len_u32 ?n)"
      "consumed t buf p3 p4 (concat (map enc_pair (smbios_override plan)))"
      "consumed t buf p4 p5 (len_u32 ?m)"
      "consumed t buf p5 r (concat (map enc_device (device_map plan)))"
    using assms(2) unfolding plan_encode_eq consumed_append by blast
  obtain n m where nm: "take_u32 t buf p2 = Returned (Inr (n, p3))" "?n = unat n"
      "take_u32 t buf p4 = Returned (Inr (m, p5))" "?m = unat m"
    using count_iff c(4,6) assms(1) unfolding wire_plan_def by meson
  have b: "p3 \<le> length buf" "p3 < 2 ^ ptr_width t" "p5 \<le> length buf" "p5 < 2 ^ ptr_width t"
    using consumed_bound [OF c(4)] consumed_bound [OF c(6)] by auto
  have "smbios_loop t buf (unat n) ?p1 p3 = Returned (Inr (?p2, p4))"
    using assms(1) c(5) by (simp add: smbios_loop_Ok_iff b flip: nm(2)) (simp add: wire_plan_def)
  moreover have "device_loop t buf (unat m) ?p2 p5 = Returned (Inr (plan, r))"
    unfolding device_loop_Ok_iff [OF b(3,4)]
    using c(7) nm(4) by (intro exI [of _ "device_map plan"]) simp
  moreover have "take_string t w buf p1 = Returned (Inr (boot_disk plan, p2))" for w
    using assms(1) c(3) by (simp add: take_string_Ok_iff wire_plan_def)
  moreover have "spec_validate \<lparr>cpu_count = cpu_count ?s, memory_bytes = memory_bytes ?s\<rparr> = Inr ()"
      "plan_new \<lparr>cpu_count = cpu_count ?s, memory_bytes = memory_bytes ?s\<rparr> (boot_disk plan) = Inr ?p1"
    using assms(1) spec_validate_Inr_iff [of ?s "()"] by (auto simp: spec_eta wire_plan_def plan_new_def)
  moreover have "take_u32 t buf 0 = Returned (Inr (cpu_count ?s, p0))"
      "take_u64 t buf p0 = Returned (Inr (memory_bytes ?s, p1))"
    using c(1,2) by (simp_all add: take_u32_Ok_iff take_u64_Ok_iff)
  ultimately show ?thesis
    using nm(1,3) by (simp add: plan_decode_def liftR_def Let_def)
qed

lemma plan_decode_Ok_iff:
  "plan_decode t buf = Returned (Inr plan) \<longleftrightarrow>
     wire_plan plan \<and> plan_encode plan = buf \<and> length buf < 2 ^ ptr_width t"
  (is "?l \<longleftrightarrow> ?r")
proof
  assume ?l
  then obtain cpus mem p0 p1 p2 p3 p4 p5 disk n m plan1 plan2 where
      r: "take_u32 t buf 0 = Returned (Inr (cpus, p0))" "take_u64 t buf p0 = Returned (Inr (mem, p1))"
      "take_string t ''boot disk not utf-8'' buf p1 = Returned (Inr (disk, p2))"
      "take_u32 t buf p2 = Returned (Inr (n, p3))"
      "smbios_loop t buf (unat n) plan1 p3 = Returned (Inr (plan2, p4))"
      "take_u32 t buf p4 = Returned (Inr (m, p5))"
      "device_loop t buf (unat m) plan2 p5 = Returned (Inr (plan, length buf))"
    and s: "spec_validate \<lparr>cpu_count = cpus, memory_bytes = mem\<rparr> = Inr ()"
      "plan_new \<lparr>cpu_count = cpus, memory_bytes = mem\<rparr> disk = Inr plan1"
    unfolding plan_decode_def Let_def
    by (auto simp: bindR_Ok_iff liftR_Ok_iff split: outcome.splits sum.splits if_splits)
  have c: "consumed t buf 0 p0 (le_bytes 4 cpus)" "consumed t buf p0 p1 (le_bytes 8 mem)"
      "wire_str disk" "consumed t buf p1 p2 (enc_str disk)"
    using r(1-3) by (simp_all add: take_u32_Ok_iff take_u64_Ok_iff take_string_Ok_iff)
  have b: "p3 \<le> length buf" "p3 < 2 ^ ptr_width t" "p5 \<le> length buf" "p5 < 2 ^ ptr_width t"
    using r(4,6) by (auto simp: take_u32_Ok_iff dest: consumed_bound)
  obtain kvs ds where l: "length kvs = unat n" "\<forall>(k, v)\<in>set kvs. wire_str k \<and> wire_str v"
      "plan2 = plan1\<lparr>smbios_override := smbios_override plan1 @ kvs\<rparr>"
      "consumed t buf p3 p4 (concat (map enc_pair kvs))" "length ds = unat m"
      "plan = plan2\<lparr>device_map := device_map plan2 @ ds\<rparr>"
      "consumed t buf p5 (length buf) (concat (map enc_device ds))"
    using r(5,7) b by (auto simp: smbios_loop_Ok_iff device_loop_Ok_iff)
  have n: "length kvs < 2 ^ 32" "consumed t buf p2 p3 (len_u32 (length kvs))"
      "length ds < 2 ^ 32" "consumed t buf p4 p5 (len_u32 (length ds))"
    using count_iff r(4,6) l(1,5) by blast+
  have plan: "plan = \<lparr>spec = \<lparr>cpu_count = cpus, memory_bytes = mem\<rparr>, boot_disk = disk,
      smbios_override = kvs, device_map = ds\<rparr>" and disk: "disk \<noteq> []"
    using s(2) l(3,6) by (auto simp: plan_new_def result_simps)
  have "consumed t buf 0 (length buf) (plan_encode plan)"
    unfolding plan_encode_eq consumed_append plan guest_launch_plan.simps guest_spec.simps
    using c n l(4,7) by blast
  then show ?r
    using s(1) c(3) n(1,3) l(2) disk
    by (auto simp: consumed_def slice_all wire_plan_def plan spec_validate_Inr_iff)
next
  assume r: ?r
  then have "consumed t buf 0 (length buf) (plan_encode plan)"
    by (auto simp: consumed_def slice_all)
  then show ?l using r plan_decode_consumed [of plan t buf "length buf"] by auto
qed


lemma consumed_extend: "consumed t buf p q bs \<Longrightarrow> consumed t (buf @ xs) p q bs"
  by (auto simp: consumed_def slice_append_left)

text \<open>The decoder as a codec, the client of which sees acceptance only.\<close>

definition plan_decode_opt :: "target \<Rightarrow> bytes \<Rightarrow> guest_launch_plan option" where
  "plan_decode_opt t buf = (case plan_decode t buf of Returned (Inr plan) \<Rightarrow> Some plan | _ \<Rightarrow> None)"

lemma plan_decode_opt_Some_iff:
  "plan_decode_opt t buf = Some plan \<longleftrightarrow> plan_decode t buf = Returned (Inr plan)"
  by (auto simp: plan_decode_opt_def split: outcome.splits sum.splits)

interpretation plan_codec:
  wire_codec "\<lambda>plan. wire_plan plan \<and> length (plan_encode plan) < 2 ^ ptr_width t" plan_encode
    "plan_decode_opt t" for t
  by unfold_locales (auto simp: plan_decode_opt_Some_iff plan_decode_Ok_iff)

section \<open>Absence of panics\<close>

lemma bindR_no_panic:
  "m \<noteq> Panicked \<Longrightarrow> (\<And>x p. m = Returned (Inr (x, p)) \<Longrightarrow> f x p \<noteq> Panicked) \<Longrightarrow> bindR m f \<noteq> Panicked"
  by (auto simp: bindR_def split: outcome.splits sum.splits)

lemma liftR_no_panic: "liftR p r \<noteq> Panicked"
  by (simp add: liftR_def)

definition wide :: "target \<Rightarrow> bytes \<Rightarrow> bool" where
  "wide t buf \<longleftrightarrow> ptr_width t = 64 \<and> length buf < 2 ^ 63"

lemma take_bytes_no_panic:
  assumes "wide t buf" and "p \<le> length buf" and "n < 2 ^ 32"
  shows "take_bytes t buf p n \<noteq> Panicked"
  using assms by (simp add: take_bytes_def index_range_def wide_def)

lemma to_array_no_panic: "take_bytes t buf p n = Returned (Inr (s, q)) \<Longrightarrow> to_array n s q \<noteq> Panicked"
  by (simp add: take_bytes_Ok_iff to_array_def)

lemma readers_no_panic:
  assumes "wide t buf" and "p \<le> length buf"
  shows "take_u32 t buf p \<noteq> Panicked" and "take_u64 t buf p \<noteq> Panicked"
    and "take_string t what buf p \<noteq> Panicked"
proof -
  note tb = take_bytes_no_panic [OF assms(1)]
  show u: "take_u32 t buf p \<noteq> Panicked" and "take_u64 t buf p \<noteq> Panicked"
    unfolding take_u32_def take_u64_def by (intro bindR_no_panic tb assms; simp add: to_array_no_panic)+
  have "take_bytes t buf q (unat (n :: u32)) \<noteq> Panicked" if "take_u32 t buf p = Returned (Inr (n, q))" for n q
    using that unat_u32_bound [of n] by (intro tb) (auto simp: take_u32_Ok_iff dest: consumed_bound)
  then show "take_string t what buf p \<noteq> Panicked"
    unfolding take_string_def by (intro bindR_no_panic u liftR_no_panic)
qed

lemma reader_cursors:
  "take_u32 t buf p = Returned (Inr (x, q)) \<Longrightarrow> q \<le> length buf"
  "take_u64 t buf p = Returned (Inr (y, q)) \<Longrightarrow> q \<le> length buf"
  "take_string t what buf p = Returned (Inr (z, q)) \<Longrightarrow> q \<le> length buf"
  by (auto simp: take_u32_Ok_iff take_u64_Ok_iff take_string_Ok_iff dest: consumed_bound)

lemma smbios_loop_cursor:
  "smbios_loop t buf n plan p = Returned (Inr (plan', q)) \<Longrightarrow> p \<le> length buf \<Longrightarrow> q \<le> length buf"
proof (induction n arbitrary: plan p)
  case 0
  then show ?case by simp
next
  case (Suc n)
  then show ?case by (fastforce simp: bindR_Ok_iff dest: reader_cursors(3))
qed

lemma smbios_loop_no_panic:
  assumes "wide t buf"
  shows "p \<le> length buf \<Longrightarrow> smbios_loop t buf n plan p \<noteq> Panicked"
proof (induction n arbitrary: plan p)
  case 0
  then show ?case by simp
next
  case (Suc n)
  show ?case
    unfolding smbios_loop.simps
    by (intro bindR_no_panic readers_no_panic assms Suc) (auto intro: Suc reader_cursors)
qed

lemma device_loop_no_panic:
  assumes "wide t buf"
  shows "p \<le> length buf \<Longrightarrow> device_loop t buf n plan p \<noteq> Panicked"
proof (induction n arbitrary: plan p)
  case 0
  then show ?case by simp
next
  case (Suc n)
  show ?case
    unfolding device_loop.simps
    by (intro bindR_no_panic readers_no_panic assms Suc) (auto intro: Suc reader_cursors)
qed

lemma outcome_cases_no_panic:
  "m \<noteq> Panicked \<Longrightarrow>
     (case m of Panicked \<Rightarrow> Panicked | Returned (Inl e) \<Rightarrow> Returned (Inl e)
      | Returned (Inr (plan, _)) \<Rightarrow> Returned (Inr plan)) \<noteq> Panicked"
  by (auto split: outcome.splits sum.splits)

lemma plan_decode_no_panic:
  assumes w: "wide t buf"
  shows "plan_decode t buf \<noteq> Panicked"
  unfolding plan_decode_def Let_def
  by (intro outcome_cases_no_panic bindR_no_panic readers_no_panic w liftR_no_panic
      device_loop_no_panic [OF w] smbios_loop_no_panic [OF w])
    (auto simp: liftR_Ok_iff dest: reader_cursors smbios_loop_cursor)

section \<open>Properties\<close>

text \<open>A plan with one SMBIOS override and one device, of 55 wire bytes.\<close>

definition sample_plan :: guest_launch_plan where
  "sample_plan =
     \<lparr>spec = \<lparr>cpu_count = 4, memory_bytes = 134217728\<rparr>, boot_disk = ''disk'',
      smbios_override = [(''k'', ''v1'')], device_map = [(4203, 7, 4096)]\<rparr>"

lemma ascii_wire_str:
  "list_all (\<lambda>c. (of_char c :: nat) < 128) s \<Longrightarrow> length s < 2 ^ 32 \<Longrightarrow> wire_str s"
  by (simp add: wire_str_def ascii_is_str)

lemma sample_plan_wire: "wire_plan sample_plan"
  by (simp add: wire_plan_def sample_plan_def valid_spec_def ascii_wire_str)

lemma length_sample_plan: "length (plan_encode sample_plan) = 55"
  by (simp add: plan_encode_def sample_plan_def len_u32_def)

lemma sample_plan_decode: "plan_decode mac_target (plan_encode sample_plan) = Returned (Inr sample_plan)"
  by (simp add: plan_decode_Ok_iff sample_plan_wire length_sample_plan) (simp add: mac_target_def)

text \<open>C9: The launch plan format is canonical. The decoder accepts a byte string as a plan
  exactly when the string is the encoding of that plan and the plan is well formed: 1 to 255
  CPUs, at least 128 MiB, a nonempty boot disk, UTF-8 strings and 32-bit lengths.\<close>

theorem plan_wire_exact:
  "plan_decode t buf = Returned (Inr plan) \<longleftrightarrow>
     wire_plan plan \<and> plan_encode plan = buf \<and> length buf < 2 ^ ptr_width t"
  by (rule plan_decode_Ok_iff)

text \<open>C36: Plans built by the API. A plan made by \<open>new\<close>, \<open>smbios\<close> and \<open>map_device\<close> carries its
  overrides and devices in order; encoding and decoding it gives it back exactly when all its
  lengths are below \<open>2 ^ 32\<close>, the encoder's \<open>as u32\<close> being the only loss.\<close>

theorem built_plan_roundtrip:
  assumes "plan_new s disk = Inr base" and "ptr_width t = 64"
    and "plan = fold (\<lambda>(vid, did, len). map_device vid did len) devices
      (fold (\<lambda>(k, v). smbios k v) overrides base)"
    and "is_str disk" and "\<forall>(k, v)\<in>set overrides. is_str k \<and> is_str v"
    and "length (plan_encode plan) < 2 ^ 63"
  shows "boot_disk plan = disk \<and> smbios_override plan = overrides \<and> device_map plan = devices \<and>
    (plan_decode t (plan_encode plan) = Returned (Inr plan) \<longleftrightarrow>
       length disk < 2 ^ 32 \<and> length overrides < 2 ^ 32 \<and> length devices < 2 ^ 32 \<and>
       (\<forall>(k, v)\<in>set overrides. length k < 2 ^ 32 \<and> length v < 2 ^ 32))"
proof -
  have sm: "fold (\<lambda>(k, v). smbios k v) kvs p = p\<lparr>smbios_override := smbios_override p @ kvs\<rparr>" for kvs p
    by (induction kvs arbitrary: p) (auto simp: smbios_def)
  have dm: "fold (\<lambda>(vid, did, len). map_device vid did len) ds p = p\<lparr>device_map := device_map p @ ds\<rparr>" for ds p
    by (induction ds arbitrary: p) (auto simp: map_device_def)
  have base: "base = \<lparr>spec = s, boot_disk = disk, smbios_override = [], device_map = []\<rparr>"
      "valid_spec s" "disk \<noteq> []"
    using assms(1) by (auto simp: plan_new_def result_simps spec_validate_Inr_iff)
  then have plan: "plan = \<lparr>spec = s, boot_disk = disk, smbios_override = overrides, device_map = devices\<rparr>"
    using assms(3) by (simp add: sm dm)
  have "wire_plan plan \<longleftrightarrow> length disk < 2 ^ 32 \<and> length overrides < 2 ^ 32 \<and> length devices < 2 ^ 32 \<and>
       (\<forall>(k, v)\<in>set overrides. length k < 2 ^ 32 \<and> length v < 2 ^ 32)"
    using base(2,3) assms(4,5) by (auto simp: wire_plan_def plan wire_str_def)
  then show ?thesis
    using assms(2,6) by (simp add: plan_decode_Ok_iff plan)
qed

lemma built_plan_roundtrip_witness:
  "plan_decode mac_target (plan_encode (map_device 4203 7 4096 (smbios ''k'' ''v1''
     \<lparr>spec = \<lparr>cpu_count = 4, memory_bytes = 134217728\<rparr>, boot_disk = ''disk'',
      smbios_override = [], device_map = []\<rparr>))) = Returned (Inr sample_plan)"
proof -
  let ?base = "\<lparr>spec = \<lparr>cpu_count = 4, memory_bytes = 134217728\<rparr>, boot_disk = ''disk'',
      smbios_override = [], device_map = []\<rparr>"
  let ?plan = "map_device 4203 7 4096 (smbios ''k'' ''v1'' ?base)"
  have plan: "?plan = sample_plan" by (simp add: map_device_def smbios_def sample_plan_def)
  have base: "plan_new (spec sample_plan) ''disk'' = Inr ?base"
    by (simp add: plan_new_def spec_validate_def sample_plan_def)
  have str: "is_str ''disk''" "is_str ''k''" "is_str ''v1''"
    using ascii_wire_str [of "''disk''"] ascii_wire_str [of "''k''"] ascii_wire_str [of "''v1''"]
    by (simp_all add: wire_str_def)
  have "length (plan_encode ?plan) < 2 ^ 63" by (simp add: plan length_sample_plan)
  with built_plan_roundtrip [OF base, of mac_target ?plan "[(4203, 7, 4096)]" "[(''k'', ''v1'')]"] str
  show ?thesis by (simp add: plan) (simp add: mac_target_def)
qed

text \<open>No slack in serialized plans. Bytes after an accepted plan are reported as
  trailing, and no proper prefix of an accepted plan is accepted.\<close>

theorem plan_no_slack:
  assumes "plan_decode t buf = Returned (Inr plan)"
  shows "(\<forall>xs. xs \<noteq> [] \<longrightarrow>
      plan_decode t (buf @ xs) = Returned (Inl (InvalidSpec ''trailing bytes''))) \<and>
    (\<forall>k < length buf. \<forall>plan'. plan_decode t (take k buf) \<noteq> Returned (Inr plan'))"
proof -
  have tail: "plan_decode t (bs @ xs) = Returned (Inl (InvalidSpec ''trailing bytes''))"
    if "plan_decode t bs = Returned (Inr p)" and "xs \<noteq> []" for bs xs p
  proof -
    have "wire_plan p" and "consumed t bs 0 (length bs) (plan_encode p)"
      using that(1) by (auto simp: plan_decode_Ok_iff consumed_def slice_all)
    with that(2) show ?thesis using plan_decode_consumed [OF _ consumed_extend] by simp
  qed
  have "plan_decode t (take k buf) \<noteq> Returned (Inr plan')" if "k < length buf" for k plan'
    using tail [of "take k buf" plan' "drop k buf"] that assms by auto
  with tail [OF assms] show ?thesis by blast
qed

lemma plan_no_slack_witness:
  "plan_decode mac_target (plan_encode sample_plan @ [0]) = Returned (Inl (InvalidSpec ''trailing bytes''))"
  using plan_no_slack [OF sample_plan_decode] by blast

text \<open>C37: Decoding is total on 64-bit targets. Whatever bytes are given (a slice is shorter than
  \<open>2 ^ 63\<close> bytes), the decoder returns a plan or an error: the cursor addition never overflows, every
  slice index is inside the buffer and every conversion to an array has the right length.\<close>

theorem plan_decode_total:
  assumes "ptr_width t = 64" and "length buf < 2 ^ 63"
  shows "\<exists>r. plan_decode t buf = Returned r"
  using plan_decode_no_panic [of t buf] assms
  by (cases "plan_decode t buf") (auto simp: wide_def)

lemma plan_decode_total_witness: "\<exists>r. plan_decode mac_target [255, 255, 255] = Returned r"
  using plan_decode_total [of mac_target "[255, 255, 255]"] by (simp add: mac_target_def)

text \<open>C38: On a 32-bit target the decoder can be made to panic: after a valid specification, a
  boot-disk length of \<open>2 ^ 32 - 1\<close> overflows the cursor, whatever follows.\<close>

theorem plan_decode_panics_32:
  assumes "ptr_width t = 32" and "spec_validate s = Inr ()" and "length rest < 2 ^ 31"
  shows "plan_decode t (le_bytes 4 (cpu_count s) @ le_bytes 8 (memory_bytes s) @
    le_bytes 4 (0xFFFFFFFF :: u32) @ rest) = Panicked"
proof -
  let ?buf = "le_bytes 4 (cpu_count s) @ le_bytes 8 (memory_bytes s) @
    le_bytes 4 (0xFFFFFFFF :: u32) @ rest"
  have "take_u32 t ?buf 0 = Returned (Inr (cpu_count s, 4))"
    and "take_u64 t ?buf 4 = Returned (Inr (memory_bytes s, 12))"
    and "take_u32 t ?buf 12 = Returned (Inr (0xFFFFFFFF, 16))"
    unfolding take_u32_Ok_iff take_u64_Ok_iff
    by (simp_all add: consumed_def slice_def assms(1))
  moreover have "take_bytes t ?buf 16 (unat (0xFFFFFFFF :: u32)) = Panicked"
    by (simp add: take_bytes_def assms(1))
  ultimately show ?thesis
    using assms(2) by (simp add: plan_decode_def take_string_def liftR_def spec_eta Let_def)
qed

lemma plan_decode_panics_32_witness:
  "plan_decode (mac_target\<lparr>ptr_width := 32\<rparr>)
     (le_bytes 4 (4 :: u32) @ le_bytes 8 (134217728 :: u64) @ le_bytes 4 (0xFFFFFFFF :: u32) @ []) = Panicked"
  using plan_decode_panics_32 [of "mac_target\<lparr>ptr_width := 32\<rparr>"
      "\<lparr>cpu_count = 4, memory_bytes = 134217728\<rparr>" "[]"]
  by (simp add: spec_validate_def)

end
