(* ===== verification/Runner_Json.thy ===== *)
theory Runner_Json
  imports Apls_Prelude
begin

text \<open>
  The part of \<open>serde_json::Value\<close> that \<open>src/runner.rs\<close> reads: values, the total indexing
  \<open>v["key"]\<close> (null where there is no such entry), \<open>get\<close> and the \<open>as_*\<close> views, and the
  decimal rendering of integers. The parser itself is an argument of its callers.
\<close>

text \<open>A float is carried by its IEEE bits; the code never looks at it.\<close>

datatype json_number = PosInt u64 | NegInt u64 | Float u64

datatype json =
    JNull
  | JBool bool
  | JNumber json_number
  | JString string
  | JArray "json list"
  | JObject "(string \<times> json) list"

fun json_get :: "json \<Rightarrow> string \<Rightarrow> json option" where
  "json_get (JObject kvs) key = map_of kvs key"
| "json_get _ _ = None"

definition json_index :: "json \<Rightarrow> string \<Rightarrow> json" where
  "json_index v key = (case json_get v key of Some x \<Rightarrow> x | None \<Rightarrow> JNull)"

text \<open>\<open>v["a"]["b"]...\<close>\<close>

definition json_path :: "json \<Rightarrow> string list \<Rightarrow> json" where
  "json_path v keys = foldl json_index v keys"

fun as_bool :: "json \<Rightarrow> bool option" where
  "as_bool (JBool b) = Some b"
| "as_bool _ = None"

fun as_str :: "json \<Rightarrow> string option" where
  "as_str (JString s) = Some s"
| "as_str _ = None"

fun as_array :: "json \<Rightarrow> json list option" where
  "as_array (JArray xs) = Some xs"
| "as_array _ = None"

fun as_u64 :: "json \<Rightarrow> u64 option" where
  "as_u64 (JNumber (PosInt n)) = Some n"
| "as_u64 _ = None"

fun as_i64 :: "json \<Rightarrow> int option" where
  "as_i64 (JNumber (PosInt n)) = (if unat n < 2 ^ 63 then Some (uint n) else None)"
| "as_i64 (JNumber (NegInt n)) = Some (sint n)"
| "as_i64 _ = None"

fun is_null :: "json \<Rightarrow> bool" where
  "is_null JNull = True"
| "is_null _ = False"

fun is_object :: "json \<Rightarrow> bool" where
  "is_object (JObject _) = True"
| "is_object _ = False"

text \<open>\<open>as_array().into_iter().flatten()\<close>: the items of an array, none of anything else.\<close>

definition array_items :: "json \<Rightarrow> json list" where
  "array_items v = (case as_array v of Some xs \<Rightarrow> xs | None \<Rightarrow> [])"

text \<open>\<open>Iterator::min\<close>.\<close>

definition iter_min :: "u64 list \<Rightarrow> u64 option" where
  "iter_min xs = (case xs of [] \<Rightarrow> None | y # ys \<Rightarrow> Some (fold min ys y))"

text \<open>\<open>to_string\<close> of an unsigned integer.\<close>

definition decimal_digit :: "nat \<Rightarrow> char" where
  "decimal_digit d = ''0123456789'' ! d"

fun decimal :: "nat \<Rightarrow> string" where
  "decimal n = (if n < 10 then [decimal_digit n] else decimal (n div 10) @ [decimal_digit (n mod 10)])"

declare decimal.simps [simp del]

section \<open>Lemmas\<close>

lemma json_index_simps [simp]:
  "json_index JNull k = JNull"
  "json_index (JBool b) k = JNull"
  "json_index (JNumber n) k = JNull"
  "json_index (JString s) k = JNull"
  "json_index (JArray xs) k = JNull"
  by (simp_all add: json_index_def)

lemma json_path_simps [simp]:
  "json_path v [] = v"
  "json_path v (k # ks) = json_path (json_index v k) ks"
  by (simp_all add: json_path_def)

lemma iter_min_None_iff: "iter_min xs = None \<longleftrightarrow> xs = []"
  by (simp add: iter_min_def split: list.splits)

lemma iter_min_SomeD:
  assumes "iter_min xs = Some m"
  shows "m \<in> set xs \<and> (\<forall>x\<in>set xs. m \<le> x)"
proof (cases xs)
  case Nil
  then show ?thesis using assms by (simp add: iter_min_def)
next
  case (Cons y ys)
  then have "m = Min (set xs)"
    using assms by (simp only: iter_min_def list.case option.inject Min.set_eq_fold)
  moreover have "Min (set xs) \<in> set xs" and "\<forall>x\<in>set xs. Min (set xs) \<le> x"
    using Min_in [of "set xs"] Min_le [of "set xs"] Cons by blast+
  ultimately show ?thesis by simp
qed

lemma decimal_digit_in: "d < 10 \<Longrightarrow> decimal_digit d \<in> set ''0123456789''"
  unfolding decimal_digit_def by (rule nth_mem) simp

lemma decimal_nonempty: "decimal n \<noteq> []"
  by (subst decimal.simps) simp

lemma decimal_digits: "set (decimal n) \<subseteq> set ''0123456789''"
proof (induction n rule: decimal.induct)
  case (1 n)
  show ?case
  proof (cases "n < 10")
    case True
    then show ?thesis using decimal_digit_in [of n] by (subst decimal.simps) simp
  next
    case False
    have "set [decimal_digit (n mod 10)] \<subseteq> set ''0123456789''"
      using decimal_digit_in [of "n mod 10"] by simp
    moreover have "decimal n = decimal (n div 10) @ [decimal_digit (n mod 10)]"
      using False by (subst decimal.simps) simp
    ultimately show ?thesis using 1 [OF False] by (simp only: set_append Un_subset_iff)
  qed
qed

end
