(* ===== verification/Runner_Request.thy ===== *)
theory Runner_Request
  imports Runner_Json
begin

text \<open>
  The request side of \<open>src/runner.rs\<close>: hosts, backends, requests and the checked construction
  of the worker invocation. A path is the string of its bytes; \<open>to_str\<close> fails when they are not
  UTF-8. The lemmas give the exact acceptance condition of each stage.
\<close>

section \<open>Requests\<close>

datatype runner_error =
    InvalidRequest string
  | RunnerUnsupportedHost
  | RunnerIo string
  | RunnerJson string

type_synonym path = string

definition to_str :: "path \<Rightarrow> string option" where
  "to_str p = (if is_str p then Some p else None)"

datatype runner_host =
    Local path
  | Wsl string path

datatype firmware_kind = Avpbooter | IbootStage2

fun firmware_argument :: "firmware_kind \<Rightarrow> string" where
  "firmware_argument Avpbooter = ''avpbooter''"
| "firmware_argument IbootStage2 = ''iboot-stage2''"

record tcg_config =
  tcg_qemu :: path
  tcg_qemu_img :: path
  tcg_firmware :: path
  tcg_firmware_kind :: firmware_kind
  tcg_memory_mib :: u32
  tcg_smp :: u32

record recovery_config =
  qemu :: path
  qemu_img :: path
  firmware :: path
  memory_mib :: u32
  smp :: u32
  build_manifest :: path
  tss_helper :: path
  original_ibss :: path
  original_ibec :: path
  restore_role_dir :: path
  transition_timeout_secs :: u32
  restore_timeout_secs :: u32
  total_timeout_secs :: u32
  optional_rpc_unavailable :: bool

datatype runner_backend =
    Native path
  | Tcg tcg_config
  | TcgRecovery recovery_config

fun backend_schema :: "runner_backend \<Rightarrow> string" where
  "backend_schema (Native _) = ''26x86.macosvm-native/1''"
| "backend_schema (Tcg _) = ''26x86.vmapple-tcg/1''"
| "backend_schema (TcgRecovery _) = ''nextcore.recovery-supervisor/1''"

fun backend_engine :: "runner_backend \<Rightarrow> string" where
  "backend_engine (Native _) = ''macosvm''"
| "backend_engine (Tcg _) = ''qemu-vmapple-tcg''"
| "backend_engine (TcgRecovery _) = ''qemu-vmapple-recovery''"

fun is_recovery :: "runner_backend \<Rightarrow> bool" where
  "is_recovery (TcgRecovery _) = True"
| "is_recovery _ = False"

fun is_native :: "runner_backend \<Rightarrow> bool" where
  "is_native (Native _) = True"
| "is_native _ = False"

fun is_local :: "runner_host \<Rightarrow> bool" where
  "is_local (Local _) = True"
| "is_local _ = False"

record runner_request =
  host :: runner_host
  run_backend :: runner_backend
  repository :: path
  vm_json :: path
  output_path :: path
  host_receipt_dir :: path
  target_major :: u16
  observation_timeout_secs :: u32
  duration_secs :: u32
  research_only :: bool

record invocation =
  executable :: path
  arguments :: "string list"
  current_dir :: "path option"

section \<open>Paths and flags\<close>

definition NUL :: char where "NUL = CHR 0x00"

definition text_path :: "path \<Rightarrow> (string, runner_error) result" where
  "text_path p =
     (case to_str p of
        Some s \<Rightarrow> if s \<noteq> [] \<and> NUL \<notin> set s then Ok s
          else Err (InvalidRequest ''paths must be nonempty UTF-8 without NUL'')
      | None \<Rightarrow> Err (InvalidRequest ''paths must be nonempty UTF-8 without NUL''))"

text \<open>The loop \<open>for (flag, path) in [..] { arguments.extend([flag.into(), text_path(path)?]) }\<close>.\<close>

primrec path_flags :: "(string \<times> path) list \<Rightarrow> (string list, runner_error) result" where
  "path_flags [] = Ok []"
| "path_flags (fp # fps) =
     bindE (text_path (snd fp)) (\<lambda>p.
     bindE (path_flags fps) (\<lambda>rest. Ok (fst fp # p # rest)))"

definition number_flags :: "(string \<times> u32) list \<Rightarrow> string list" where
  "number_flags fvs = concat (map (\<lambda>(flag, v). [flag, decimal (unat v)]) fvs)"

definition RECOVERY_CLEANUP_GRACE_SECS :: u32 where [simp]: "RECOVERY_CLEANUP_GRACE_SECS = 5"

section \<open>The invocation\<close>

definition tcg_arguments :: "tcg_config \<Rightarrow> (string list, runner_error) result" where
  "tcg_arguments c =
     (if \<not> (128 \<le> tcg_memory_mib c \<and> tcg_memory_mib c \<le> 262144) \<or>
         \<not> (1 \<le> tcg_smp c \<and> tcg_smp c \<le> 255)
      then Err (InvalidRequest ''TCG memory/CPU count out of range'')
      else
      bindE (text_path (tcg_qemu c)) (\<lambda>q.
      bindE (text_path (tcg_qemu_img c)) (\<lambda>qi.
      bindE (text_path (tcg_firmware c)) (\<lambda>fw.
      Ok [''-m'', ''x86'', ''vmapple'', ''run-tcg'', ''--qemu'', q, ''--qemu-img'', qi,
          ''--firmware'', fw, ''--firmware-kind'', firmware_argument (tcg_firmware_kind c),
          ''--memory-mib'', decimal (unat (tcg_memory_mib c)),
          ''--smp'', decimal (unat (tcg_smp c)), ''--display'', ''none'']))))"

definition native_arguments :: "path \<Rightarrow> (string list, runner_error) result" where
  "native_arguments macosvm =
     bindE (text_path macosvm) (\<lambda>m.
     Ok [''-m'', ''x86'', ''vmapple'', ''run-native'', ''--macosvm'', m])"

definition recovery_arguments :: "u32 \<Rightarrow> recovery_config \<Rightarrow> (string list, runner_error) result" where
  "recovery_arguments duration c =
     (if \<not> (512 \<le> memory_mib c \<and> memory_mib c \<le> 1048576) \<or> \<not> (1 \<le> smp c \<and> smp c \<le> 32)
      then Err (InvalidRequest ''recovery memory must be 512..1048576 MiB and CPU count 1..32'')
      else if \<not> (1 \<le> transition_timeout_secs c \<and> transition_timeout_secs c \<le> 300) \<or>
         \<not> (1 \<le> restore_timeout_secs c \<and> restore_timeout_secs c \<le> 300) \<or>
         \<not> (30 \<le> total_timeout_secs c \<and> total_timeout_secs c \<le> 86400) \<or>
         total_timeout_secs c \<le> duration + RECOVERY_CLEANUP_GRACE_SECS
      then Err (InvalidRequest ''recovery phase timeouts must be 1..300 seconds; total 30..86400 and greater than post duration plus 5 seconds cleanup'')
      else
      bindE (path_flags
        [(''--qemu'', qemu c), (''--qemu-img'', qemu_img c), (''--firmware'', firmware c),
         (''--build-manifest'', build_manifest c), (''--tss-helper'', tss_helper c),
         (''--original-ibss'', original_ibss c), (''--original-ibec'', original_ibec c),
         (''--restore-role-dir'', restore_role_dir c)]) (\<lambda>paths.
      Ok ([''-m'', ''x86.recovery_supervisor''] @ paths @
        number_flags
          [(''--memory-mib'', memory_mib c), (''--smp'', smp c),
           (''--transition-timeout'', transition_timeout_secs c),
           (''--restore-timeout'', restore_timeout_secs c),
           (''--total-timeout'', total_timeout_secs c),
           (''--cleanup-grace'', RECOVERY_CLEANUP_GRACE_SECS)] @
        (if optional_rpc_unavailable c then [''--optional-rpc-unavailable''] else []))))"

definition backend_arguments :: "u32 \<Rightarrow> runner_backend \<Rightarrow> (string list, runner_error) result" where
  "backend_arguments duration b =
     (case b of
        Native macosvm \<Rightarrow> native_arguments macosvm
      | Tcg c \<Rightarrow> tcg_arguments c
      | TcgRecovery c \<Rightarrow> recovery_arguments duration c)"

definition host_invocation ::
    "target \<Rightarrow> runner_request \<Rightarrow> string \<Rightarrow> string list \<Rightarrow> (invocation, runner_error) result" where
  "host_invocation t r repo args =
     (case host r of
        Local python \<Rightarrow>
          bindE (text_path python) (\<lambda>_.
          Ok \<lparr>executable = python, arguments = args, current_dir = Some (repository r)\<rparr>)
      | Wsl distribution python \<Rightarrow>
          if target_os t \<noteq> ''windows''
          then Err (InvalidRequest ''WSL transport requires Windows host'')
          else if distribution = [] \<or> NUL \<in> set distribution
          then Err (InvalidRequest ''WSL distribution must be explicit'')
          else
          bindE (text_path python) (\<lambda>py.
          Ok \<lparr>executable = ''wsl.exe'',
              arguments = [''--distribution'', distribution, ''--cd'', repo, ''--exec'', py] @ args,
              current_dir = None\<rparr>))"

definition invocation_of :: "target \<Rightarrow> runner_request \<Rightarrow> (invocation, runner_error) result" where
  "invocation_of t r =
     (if \<not> research_only r
      then Err (InvalidRequest ''explicit research_only acknowledgement required'')
      else if \<not> (target_major r = 26 \<or> target_major r = 27)
      then Err (InvalidRequest ''target must be 26 or 27'')
      else
      let recovery = is_recovery (run_backend r) in
      if (\<not> recovery \<and> \<not> (1 \<le> observation_timeout_secs r \<and> observation_timeout_secs r \<le> 86400)) \<or>
         \<not> (1 \<le> duration_secs r \<and> duration_secs r \<le> 86400)
      then Err (InvalidRequest ''timeouts must be 1..86400 seconds'')
      else if is_native (run_backend r) \<and>
         (\<not> (target_os t = ''macos'' \<and> target_arch t = ''aarch64'') \<or> \<not> is_local (host r))
      then Err RunnerUnsupportedHost
      else
      bindE (text_path (host_receipt_dir r)) (\<lambda>_.
      bindE (text_path (repository r)) (\<lambda>repo.
      bindE (backend_arguments (duration_secs r) (run_backend r)) (\<lambda>args.
      bindE (text_path (vm_json r)) (\<lambda>vm.
      bindE (text_path (output_path r)) (\<lambda>out.
      let args = args @
        [''--target'', decimal (unat (target_major r)), ''--vm-json'', vm, ''--output'', out,
         ''--duration'', decimal (unat (duration_secs r))];
          args = (if recovery then args
            else args @ [''--observation-timeout'', decimal (unat (observation_timeout_secs r)),
              ''--research-only'', ''--json''])
      in host_invocation t r repo args))))))"

section \<open>Accepted requests\<close>

text \<open>The paths \<open>text_path\<close> accepts; it returns them unchanged.\<close>

definition clean :: "string \<Rightarrow> bool" where
  "clean p \<longleftrightarrow> is_str p \<and> p \<noteq> [] \<and> NUL \<notin> set p"

lemma text_path_Inr_iff [result_simps]: "text_path p = Inr s \<longleftrightarrow> clean p \<and> s = p"
  by (auto simp: text_path_def to_str_def clean_def)

lemma text_path_Inl_iff:
  "text_path p = Inl e \<longleftrightarrow>
     \<not> clean p \<and> e = InvalidRequest ''paths must be nonempty UTF-8 without NUL''"
  by (auto simp: text_path_def to_str_def clean_def)

lemma path_flags_Inr_iff:
  "path_flags fps = Inr args \<longleftrightarrow>
     (\<forall>fp\<in>set fps. clean (snd fp)) \<and> args = concat (map (\<lambda>fp. [fst fp, snd fp]) fps)"
  by (induction fps arbitrary: args) (auto simp: result_simps)

definition in_range :: "u32 \<Rightarrow> nat \<Rightarrow> nat \<Rightarrow> bool" where
  "in_range w lo hi \<longleftrightarrow> lo \<le> unat w \<and> unat w \<le> hi"

lemma in_rangeI:
  "128 \<le> w \<and> w \<le> 262144 \<longleftrightarrow> in_range w 128 262144"
  "1 \<le> w \<and> w \<le> 255 \<longleftrightarrow> in_range w 1 255"
  "512 \<le> w \<and> w \<le> 1048576 \<longleftrightarrow> in_range w 512 1048576"
  "1 \<le> w \<and> w \<le> 32 \<longleftrightarrow> in_range w 1 32"
  "1 \<le> w \<and> w \<le> 300 \<longleftrightarrow> in_range w 1 300"
  "30 \<le> w \<and> w \<le> 86400 \<longleftrightarrow> in_range w 30 86400"
  "1 \<le> w \<and> w \<le> 86400 \<longleftrightarrow> in_range w 1 86400"
  by (simp_all add: in_range_def word_le_nat_alt)

text \<open>The parameters each backend accepts.\<close>

fun backend_ok :: "nat \<Rightarrow> runner_backend \<Rightarrow> bool" where
  "backend_ok duration (Native macosvm) = clean macosvm"
| "backend_ok duration (Tcg c) =
     (in_range (tcg_memory_mib c) 128 262144 \<and> in_range (tcg_smp c) 1 255 \<and>
      clean (tcg_qemu c) \<and> clean (tcg_qemu_img c) \<and> clean (tcg_firmware c))"
| "backend_ok duration (TcgRecovery c) =
     (in_range (memory_mib c) 512 1048576 \<and> in_range (smp c) 1 32 \<and>
      in_range (transition_timeout_secs c) 1 300 \<and> in_range (restore_timeout_secs c) 1 300 \<and>
      in_range (total_timeout_secs c) 30 86400 \<and> duration + 5 < unat (total_timeout_secs c) \<and>
      (\<forall>p\<in>{qemu c, qemu_img c, firmware c, build_manifest c, tss_helper c, original_ibss c,
         original_ibec c, restore_role_dir c}. clean p))"

fun host_ok :: "target \<Rightarrow> runner_host \<Rightarrow> bool" where
  "host_ok t (Local python) = clean python"
| "host_ok t (Wsl distribution python) =
     (target_os t = ''windows'' \<and> distribution \<noteq> [] \<and> NUL \<notin> set distribution \<and> clean python)"

definition request_ok :: "target \<Rightarrow> runner_request \<Rightarrow> bool" where
  "request_ok t r \<longleftrightarrow>
     research_only r \<and> unat (target_major r) \<in> {26, 27} \<and>
     (is_recovery (run_backend r) \<or> in_range (observation_timeout_secs r) 1 86400) \<and>
     in_range (duration_secs r) 1 86400 \<and>
     (\<not> is_native (run_backend r) \<or>
       (target_os t = ''macos'' \<and> target_arch t = ''aarch64'' \<and> is_local (host r))) \<and>
     (\<forall>p\<in>{host_receipt_dir r, repository r, vm_json r, output_path r}. clean p) \<and>
     backend_ok (unat (duration_secs r)) (run_backend r) \<and> host_ok t (host r)"

lemma backend_arguments_accepts:
  assumes "in_range duration 1 86400"
  shows "(\<exists>args. backend_arguments duration b = Inr args) \<longleftrightarrow> backend_ok (unat duration) b"
proof (cases b)
  case (Native m)
  then show ?thesis by (simp add: backend_arguments_def native_arguments_def result_simps)
next
  case (Tcg c)
  then show ?thesis
    unfolding backend_arguments_def tcg_arguments_def in_rangeI
    by (auto simp: result_simps)
next
  case (TcgRecovery c)
  have "unat (duration + 5) = unat duration + 5"
    using assms by (auto simp: in_range_def unat_word_ariths)
  then have "total_timeout_secs c \<le> duration + 5 \<longleftrightarrow> \<not> unat duration + 5 < unat (total_timeout_secs c)"
    by (simp add: word_le_nat_alt not_less)
  then show ?thesis
    unfolding TcgRecovery backend_arguments_def recovery_arguments_def in_rangeI
    by (simp add: result_simps path_flags_Inr_iff) blast
qed

lemma host_invocation_accepts:
  "(\<exists>inv. host_invocation t r repo args = Inr inv) \<longleftrightarrow> host_ok t (host r)"
  by (cases "host r"; simp add: host_invocation_def result_simps; blast)

lemma target_major_iff: "m = 26 \<or> m = 27 \<longleftrightarrow> unat (m :: u16) \<in> {26, 27}"
  by (auto simp: word_unat_eq_iff)

text \<open>The arguments of an accepted request, by stage.\<close>

definition common_arguments :: "runner_request \<Rightarrow> string list" where
  "common_arguments r =
     [''--target'', decimal (unat (target_major r)), ''--vm-json'', vm_json r,
      ''--output'', output_path r, ''--duration'', decimal (unat (duration_secs r))] @
     (if is_recovery (run_backend r) then []
      else [''--observation-timeout'', decimal (unat (observation_timeout_secs r)),
        ''--research-only'', ''--json''])"

lemma invocation_of_Inr_iff:
  "invocation_of t r = Inr iv \<longleftrightarrow>
     research_only r \<and> unat (target_major r) \<in> {26, 27} \<and>
     (is_recovery (run_backend r) \<or> in_range (observation_timeout_secs r) 1 86400) \<and>
     in_range (duration_secs r) 1 86400 \<and>
     (\<not> is_native (run_backend r) \<or>
       (target_os t = ''macos'' \<and> target_arch t = ''aarch64'' \<and> is_local (host r))) \<and>
     (\<forall>p\<in>{host_receipt_dir r, repository r, vm_json r, output_path r}. clean p) \<and>
     (\<exists>args. backend_arguments (duration_secs r) (run_backend r) = Inr args \<and>
        host_invocation t r (repository r) (args @ common_arguments r) = Inr iv)"
  unfolding invocation_of_def target_major_iff in_rangeI Let_def
  by (auto simp: result_simps common_arguments_def)

lemma invocation_accepted_iff: "(\<exists>iv. invocation_of t r = Inr iv) \<longleftrightarrow> request_ok t r"
proof (cases "in_range (duration_secs r) 1 86400")
  case True
  then show ?thesis
    unfolding invocation_of_Inr_iff request_ok_def
    using backend_arguments_accepts [OF True, of "run_backend r"]
      host_invocation_accepts [of t r "repository r"]
    by blast
next
  case False
  then show ?thesis by (simp add: invocation_of_Inr_iff request_ok_def)
qed

lemma isl_invocation_of: "isl (invocation_of t r) \<longleftrightarrow> \<not> request_ok t r"
  by (cases "invocation_of t r") (simp_all flip: invocation_accepted_iff)

section \<open>Arguments without NUL\<close>

definition argument_ok :: "string \<Rightarrow> bool" where
  "argument_ok a \<longleftrightarrow> a \<noteq> [] \<and> NUL \<notin> set a"

lemma clean_argument: "clean p \<Longrightarrow> argument_ok p"
  by (simp add: clean_def argument_ok_def)

lemma decimal_argument: "argument_ok (decimal n)"
proof -
  have "NUL \<notin> set ''0123456789''" by (simp add: NUL_def)
  then show ?thesis
    using decimal_digits [of n] decimal_nonempty [of n] unfolding argument_ok_def by blast
qed

lemma literal_arguments:
  "list_all argument_ok
     [''-m'', ''x86'', ''vmapple'', ''run-native'', ''--macosvm'', ''run-tcg'', ''--qemu'', ''--qemu-img'',
      ''--firmware'', ''--firmware-kind'', ''avpbooter'', ''iboot-stage2'', ''--memory-mib'', ''--smp'',
      ''--display'', ''none'', ''x86.recovery_supervisor'', ''--build-manifest'', ''--tss-helper'',
      ''--original-ibss'', ''--original-ibec'', ''--restore-role-dir'', ''--transition-timeout'',
      ''--restore-timeout'', ''--total-timeout'', ''--cleanup-grace'', ''--optional-rpc-unavailable'',
      ''--target'', ''--vm-json'', ''--output'', ''--duration'', ''--observation-timeout'',
      ''--research-only'', ''--json'', ''--distribution'', ''--cd'', ''--exec'', ''wsl.exe'']"
  by (simp add: argument_ok_def NUL_def)

lemma firmware_argument_ok: "argument_ok (firmware_argument k)"
  using literal_arguments by (cases k) simp_all

lemmas arguments_ok = literal_arguments [unfolded list.pred_inject] decimal_argument
  firmware_argument_ok clean_argument

lemma backend_arguments_ok:
  assumes "backend_arguments duration b = Inr args"
  shows "list_all argument_ok args"
proof (cases b)
  case (Native m)
  then show ?thesis
    using assms arguments_ok by (auto simp: backend_arguments_def native_arguments_def result_simps)
next
  case (Tcg c)
  then show ?thesis
    using assms arguments_ok
    by (auto simp: backend_arguments_def tcg_arguments_def result_simps split: if_splits)
next
  case (TcgRecovery c)
  then show ?thesis
    using assms arguments_ok
    by (auto simp: backend_arguments_def recovery_arguments_def number_flags_def result_simps
        path_flags_Inr_iff split: if_splits)
qed

lemma common_arguments_ok:
  "clean (vm_json r) \<Longrightarrow> clean (output_path r) \<Longrightarrow> list_all argument_ok (common_arguments r)"
  using arguments_ok by (simp add: common_arguments_def)

section \<open>Sample requests\<close>

definition sample_request :: runner_request where
  "sample_request =
     \<lparr>host = Local ''python3'',
      run_backend = Tcg \<lparr>tcg_qemu = ''/opt/qemu custom'', tcg_qemu_img = ''/usr/bin/qemu-img'',
        tcg_firmware = ''/input/original firmware.bin'', tcg_firmware_kind = Avpbooter,
        tcg_memory_mib = 4096, tcg_smp = 2\<rparr>,
      repository = ''/source'', vm_json = ''/input/my bundle/macosvm.json'',
      output_path = ''/output/new-run'', host_receipt_dir = ''/receipts/new-run'',
      target_major = 27, observation_timeout_secs = 5, duration_secs = 5, research_only = True\<rparr>"

definition sample_recovery_request :: runner_request where
  "sample_recovery_request = sample_request
     \<lparr>duration_secs := 10, run_backend := TcgRecovery
       \<lparr>qemu = ''/qemu tools/qemu-system-aarch64'', qemu_img = ''/qemu tools/qemu-img'',
        firmware = ''/inputs/AVPBooter.bin'', memory_mib = 4096, smp = 2,
        build_manifest = ''/inputs/BuildManifest.plist'',
        tss_helper = ''/helper tools/request-encoder'',
        original_ibss = ''/inputs/original iBSS.im4p'',
        original_ibec = ''/inputs/original iBEC.im4p'', restore_role_dir = ''/inputs/restore roles'',
        transition_timeout_secs = 20, restore_timeout_secs = 30, total_timeout_secs = 75,
        optional_rpc_unavailable = False\<rparr>\<rparr>"

lemma sample_request_ok: "request_ok linux_target sample_request"
  by (simp add: request_ok_def sample_request_def in_range_def clean_def ascii_is_str NUL_def)

lemma sample_recovery_request_ok: "request_ok linux_target sample_recovery_request"
  by (simp add: request_ok_def sample_recovery_request_def sample_request_def in_range_def clean_def
      ascii_is_str NUL_def)

section \<open>Properties\<close>

text \<open>C29: Requests are accepted exactly when they are well formed. An invocation is built iff
  research use is acknowledged, the target is 26 or 27, all timeouts are in range (for recovery:
  the total exceeds the duration plus the 5 seconds of cleanup, without wrap-around), native runs
  are local on Apple-Silicon macOS, WSL runs are on Windows, memory and CPU counts are in the
  backend's range and every path is nonempty UTF-8 without NUL.\<close>

theorem invocation_accepts_exact:
  "(\<exists>iv. invocation_of t r = Inr iv) \<longleftrightarrow> request_ok t r"
  by (rule invocation_accepted_iff)

text \<open>C30: What an invocation runs. The executable and every argument are nonempty and free of
  NUL, so nothing is cut off when they are passed to the host; a local run executes the given
  interpreter in the repository, a WSL run executes \<open>wsl.exe\<close> with the distribution, the
  repository and the interpreter as separate arguments; then come the backend's own arguments
  and the target, paths and timeouts of the request.\<close>

theorem invocation_safe:
  assumes "invocation_of t r = Inr iv"
  shows "argument_ok (executable iv) \<and> list_all argument_ok (arguments iv) \<and>
    (\<exists>args. backend_arguments (duration_secs r) (run_backend r) = Inr args \<and>
      (case host r of
         Local python \<Rightarrow> executable iv = python \<and> current_dir iv = Some (repository r) \<and>
           arguments iv = args @ common_arguments r
       | Wsl distribution python \<Rightarrow> target_os t = ''windows'' \<and> executable iv = ''wsl.exe'' \<and>
           current_dir iv = None \<and>
           arguments iv = [''--distribution'', distribution, ''--cd'', repository r, ''--exec'', python] @
             args @ common_arguments r))"
proof -
  obtain args where a: "backend_arguments (duration_secs r) (run_backend r) = Inr args"
      "host_invocation t r (repository r) (args @ common_arguments r) = Inr iv"
    and paths: "clean (repository r)" "clean (vm_json r)" "clean (output_path r)"
    using assms by (auto simp: invocation_of_Inr_iff)
  have args: "list_all argument_ok (args @ common_arguments r)"
    using backend_arguments_ok [OF a(1)] common_arguments_ok [OF paths(2,3)] by simp
  show ?thesis
  proof (cases "host r")
    case (Local python)
    then show ?thesis
      using a args arguments_ok by (auto simp: host_invocation_def result_simps)
  next
    case (Wsl distribution python)
    then have "argument_ok distribution" "clean python"
      using a(2) by (auto simp: host_invocation_def result_simps argument_ok_def split: if_splits)
    then show ?thesis
      using a args arguments_ok paths(1) Wsl
      by (auto simp: host_invocation_def result_simps split: if_splits)
  qed
qed

lemma invocation_safe_witness:
  "\<exists>iv. invocation_of linux_target sample_request = Inr iv \<and> executable iv = ''python3'' \<and>
     list_all argument_ok (arguments iv) \<and> current_dir iv = Some ''/source''"
proof -
  obtain args where args: "backend_arguments (duration_secs sample_request) (run_backend sample_request) = Inr args"
    using sample_request_ok backend_arguments_accepts [of "duration_secs sample_request"]
    by (auto simp: request_ok_def)
  obtain iv where iv: "invocation_of linux_target sample_request = Inr iv"
    using sample_request_ok args host_invocation_accepts [of linux_target sample_request "repository sample_request"]
    unfolding invocation_of_Inr_iff request_ok_def by blast
  from invocation_safe [OF this] iv show ?thesis
    by (auto simp: sample_request_def)
qed

end
