(* ===== verification/Error_Texts.thy ===== *)
theory Error_Texts
  imports Sgpu_Grant Vf_Policy Guest_Plan Runner_Request
begin

text \<open>
  The texts of the error types of \<open>src/src\<close>: \<open>Display\<close> as the \<open>#[error(...)]\<close> attributes of
  \<open>thiserror\<close> declare it. A field \<open>{0}\<close> is shown by its own text, \<open>transparent\<close> forwards to the
  inner error. The texts of errors of other crates are inside the values or parameters.
\<close>

fun vf_error_text :: "vf_error \<Rightarrow> string" where
  "vf_error_text Vf_Einval = ''invalid argument''"
| "vf_error_text (Vf_Eabi s) = ''ABI mismatch: '' @ s"
| "vf_error_text Vf_Enotsup = ''operation not supported''"
| "vf_error_text Vf_Eperm = ''capability or grant denied''"
| "vf_error_text Vf_Erange = ''out of range''"
| "vf_error_text Vf_Ebusy = ''busy''"
| "vf_error_text Vf_Enoent = ''object not found''"

fun sgpu_error_text :: "sgpu_error \<Rightarrow> string" where
  "sgpu_error_text (ResourceNotFound h) = ''resource not found: '' @ decimal (unat h)"
| "sgpu_error_text (ResourceExists h) = ''resource already exists: '' @ decimal (unat h)"
| "sgpu_error_text (Gpu s) = ''GPU backend error: '' @ s"
| "sgpu_error_text (Vf e) = ''ABI error: '' @ vf_error_text e"
| "sgpu_error_text Payload = ''payload decode error''"
| "sgpu_error_text ResourceLimit = ''SGPU resource or transfer allocation limit exceeded''"

fun grant_error_text :: "grant_error \<Rightarrow> string" where
  "grant_error_text Einval = ''invalid grant argument''"
| "grant_error_text Eabi = ''VSK grant header ABI mismatch''"
| "grant_error_text Enotsup = ''unsupported operation''"
| "grant_error_text Estale = ''stale grant capability or lifecycle''"
| "grant_error_text Eperm = ''grant permission or route denied''"
| "grant_error_text Erange = ''grant or snapshot range exceeded''"
| "grant_error_text Eambig = ''ambiguous caller-scoped grant slot''"

fun grant_submit_text :: "('e \<Rightarrow> string) \<Rightarrow> 'e grant_submit_error \<Rightarrow> string" where
  "grant_submit_text submission_text (GrantFailed e) = grant_error_text e"
| "grant_submit_text submission_text (InlineFailed e) = ''inline SGPU frame: '' @ sgpu_error_text e"
| "grant_submit_text submission_text (SubmissionFailed e) = submission_text e"

fun policy_error_text :: "policy_error \<Rightarrow> string" where
  "policy_error_text (Plist s) = ''plist parse failed: '' @ s"
| "policy_error_text UnknownKey = ''duplicate or unknown config key''"
| "policy_error_text (PlatformPolicy s) = ''unsupported platform policy: '' @ s"
| "policy_error_text (WeakenedSecurity s) = ''weakened security setting rejected: '' @ s"
| "policy_error_text (GuestProfile s) = ''unsupported guest profile: '' @ s"
| "policy_error_text (PolicyVf e) = ''ABI violation: '' @ vf_error_text e"

fun guest_error_text :: "guest_error \<Rightarrow> string" where
  "guest_error_text (UnsupportedHost s) = ''unsupported host: '' @ s"
| "guest_error_text (InvalidSpec s) = ''invalid spec: '' @ s"
| "guest_error_text BackendUnavailable = ''backend unavailable''"
| "guest_error_text (FrameworkSymbol s) = ''framework symbol missing: '' @ s"
| "guest_error_text (AbiPending s) = ''Apple Virtualization launch ABI pending: '' @ s"

fun runner_error_text :: "runner_error \<Rightarrow> string" where
  "runner_error_text (InvalidRequest s) = ''invalid runner request: '' @ s"
| "runner_error_text RunnerUnsupportedHost = ''native worker requires local Apple-Silicon macOS''"
| "runner_error_text (RunnerIo s) = ''runner I/O: '' @ s"
| "runner_error_text (RunnerJson s) = ''runner receipt: '' @ s"

text \<open>A reader of a report can tell the grant statuses apart.\<close>

lemma grant_error_text_inject: "grant_error_text a = grant_error_text b \<longleftrightarrow> a = b"
  by (cases a; cases b) simp_all

end
