(* ===== verification/Vulkan_Program.thy ===== *)
theory Vulkan_Program
  imports Grant_Example Error_Texts
begin

text \<open>
  The whole of the validation program \<open>src/examples/sgpu_grant_vulkan.rs\<close>: the device selectors on
  the command line, the set-up of the compute session, the two granted submissions with their
  independent readback, the rejected requests of Grant_Example and the printed report. The GPU crate
  is the record \<open>gpu_crate\<close> of the calls the program makes; the files are the record \<open>example_env\<close>.
  The property says exactly which behaviour of the device makes the program report success.
\<close>

section \<open>Fallible programs over a state\<close>

type_synonym ('s, 'a) prog = "'s \<Rightarrow> ('a, string) result \<times> 's"

named_theorems prog_simps \<open>successful runs of a program\<close>

definition return_p :: "'a \<Rightarrow> ('s, 'a) prog" where
  "return_p x s = (Ok x, s)"

definition bind_p :: "('s, 'a) prog \<Rightarrow> ('a \<Rightarrow> ('s, 'b) prog) \<Rightarrow> ('s, 'b) prog" where
  "bind_p m f s = (case m s of (Inl e, s) \<Rightarrow> (Err e, s) | (Inr x, s) \<Rightarrow> f x s)"

text \<open>A fallible value read from the state, and a check with its error.\<close>

definition reads_p :: "('s \<Rightarrow> ('a, string) result) \<Rightarrow> ('s, 'a) prog" where
  "reads_p f s = (f s, s)"

definition check_p :: "bool \<Rightarrow> string \<Rightarrow> ('s, unit) prog" where
  "check_p c message s = (if c then Ok () else Err message, s)"

fun map_p :: "('x \<Rightarrow> ('s, 'a) prog) \<Rightarrow> 'x list \<Rightarrow> ('s, 'a list) prog" where
  "map_p f [] = return_p []"
| "map_p f (x # xs) = bind_p (f x) (\<lambda>y. bind_p (map_p f xs) (\<lambda>ys. return_p (y # ys)))"

lemma return_p_Ok [prog_simps]: "return_p x s = (Inr y, s') \<longleftrightarrow> y = x \<and> s' = s"
  by (auto simp: return_p_def)

lemma bind_p_Ok [prog_simps]:
  "bind_p m f s = (Inr y, s'') \<longleftrightarrow> (\<exists>x s'. m s = (Inr x, s') \<and> f x s' = (Inr y, s''))"
  by (auto simp: bind_p_def split: prod.splits sum.splits)

lemma reads_p_Ok [prog_simps]: "reads_p f s = (Inr y, s') \<longleftrightarrow> f s = Inr y \<and> s' = s"
  by (auto simp: reads_p_def)

lemma check_p_Ok [prog_simps]: "check_p c message s = (Inr u, s') \<longleftrightarrow> c \<and> s' = s"
  by (auto simp: check_p_def)

section \<open>Device selectors\<close>

text \<open>\<open>char::to_digit(16)\<close>, \<open>trim_start_matches("0x")\<close> and \<open>u32::from_str_radix(_, 16)\<close> with the
  texts of its errors.\<close>

definition hex_value :: "char \<Rightarrow> nat option" where
  "hex_value c =
     (let n = of_char c in
      if 48 \<le> n \<and> n \<le> 57 then Some (n - 48)
      else if 97 \<le> n \<and> n \<le> 102 then Some (n - 87)
      else if 65 \<le> n \<and> n \<le> 70 then Some (n - 55)
      else None)"

fun strip_0x :: "string \<Rightarrow> string" where
  "strip_0x (a # b # cs) = (if a = CHR ''0'' \<and> b = CHR ''x'' then strip_0x cs else a # b # cs)"
| "strip_0x cs = cs"

fun hex_fold :: "nat \<Rightarrow> string \<Rightarrow> (u32, string) result" where
  "hex_fold acc [] = Ok (word_of_nat acc)"
| "hex_fold acc (c # cs) =
     (case hex_value c of
        None \<Rightarrow> Err ''invalid digit found in string''
      | Some d \<Rightarrow>
         (if acc * 16 + d \<ge> 2 ^ 32 then Err ''number too large to fit in target type''
          else hex_fold (acc * 16 + d) cs))"

definition from_hex :: "string \<Rightarrow> (u32, string) result" where
  "from_hex s =
     (if s = [] then Err ''cannot parse integer from empty string''
      else if s = ''+'' \<or> s = ''-'' then Err ''invalid digit found in string''
      else hex_fold 0 (if hd s = CHR ''+'' then tl s else s))"

definition parse_selector :: "path \<Rightarrow> (u32, string) result" where
  "parse_selector arg =
     bindE (ok_or (to_str arg) ''non-UTF8 selector'') (\<lambda>s. from_hex (strip_0x s))"

section \<open>The GPU crate and the files\<close>

record 'b pipeline_descriptor =
  shader_id :: u64
  entry_point :: string
  bytecode :: bytes
  workgroup_size :: "u32 list"
  binding :: u32
  buffer_id :: 'b
  binding_offset :: nat
  binding_size :: nat

record ('m, 'b, 'p, 'c, 'e) gpu_crate =
  with_vulkan :: "u32 \<Rightarrow> u32 \<Rightarrow> path \<Rightarrow> nat \<Rightarrow> ('m, string) result"
  vulkan_device_info :: "'m \<Rightarrow> json option"
  create_storage_buffer :: "nat \<Rightarrow> 'm \<Rightarrow> 'b \<times> 'm"
  create_pipeline :: "'b pipeline_descriptor \<Rightarrow> 'm \<Rightarrow> 'p \<times> 'm"
  compute_new :: "'m \<Rightarrow> 'c"
  register_resource :: "u64 \<Rightarrow> 'b \<Rightarrow> 'c \<Rightarrow> (unit, string) result \<times> 'c"
  register_kernel :: "u32 \<Rightarrow> 'p \<Rightarrow> 'c \<Rightarrow> (unit, string) result \<times> 'c"
  submit_wire :: "'c \<Rightarrow> bytes \<Rightarrow> u64 \<Rightarrow> u64 \<Rightarrow> (nat, 'e) result \<times> 'c"
  write_resource :: "u64 \<Rightarrow> nat \<Rightarrow> bytes \<Rightarrow> 'c \<Rightarrow> (unit, string) result \<times> 'c"
  read_resource :: "'c \<Rightarrow> u64 \<Rightarrow> nat \<Rightarrow> nat \<Rightarrow> (bytes, string) result"
  completed_count :: "'c \<Rightarrow> nat"
  pipeline_build_count :: "'c \<Rightarrow> nat option"

record example_env =
  env_args :: "path list"
  file_len :: "path \<Rightarrow> (u64, string) result"
  file_read :: "path \<Rightarrow> (bytes, string) result"

section \<open>Set-up\<close>

definition pipeline_of :: "bytes \<Rightarrow> 'b \<Rightarrow> 'b pipeline_descriptor" where
  "pipeline_of shader destination =
     \<lparr>shader_id = 1, entry_point = ''main'', bytecode = shader, workgroup_size = [64, 1, 1],
      binding = 0, buffer_id = destination, binding_offset = 16, binding_size = 1024\<rparr>"

definition open_device ::
    "('m, 'b, 'p, 'c, 'e) gpu_crate \<Rightarrow> example_env \<Rightarrow> (json \<times> bytes \<times> 'm, string) result" where
  "open_device G E =
     (if length (env_args E) \<noteq> 4
      then Err ''usage: sgpu_grant_vulkan <vendor-hex> <device-hex> <spirv-val-path> <authored-spv-path>''
      else
      bindE (file_len E (env_args E ! 3)) (\<lambda>len.
      if len > 256 * 1024 then Err ''example shader exceeds 256 KiB''
      else
      bindE (file_read E (env_args E ! 3)) (\<lambda>shader.
      bindE (parse_selector (env_args E ! 0)) (\<lambda>vendor.
      bindE (parse_selector (env_args E ! 1)) (\<lambda>dev.
      bindE (with_vulkan G vendor dev (env_args E ! 2) 3) (\<lambda>manager.
      bindE (ok_or (vulkan_device_info G manager) ''missing Vulkan device'') (\<lambda>info.
      Ok (info, shader, manager))))))))"

definition build_compute ::
    "('m, 'b, 'p, 'c, 'e) gpu_crate \<Rightarrow> bytes \<Rightarrow> 'm \<Rightarrow> ('c, string) result" where
  "build_compute G shader manager =
     (let (source, manager) = create_storage_buffer G 1056 manager;
          (destination, manager) = create_storage_buffer G 1056 manager;
          (pipeline, manager) = create_pipeline G (pipeline_of shader destination) manager;
          (r, c) = register_resource G SOURCE source (compute_new G manager)
      in bindE r (\<lambda>_.
      let (r, c) = register_resource G DESTINATION destination c
      in bindE r (\<lambda>_.
      let (r, c) = register_kernel G KERNEL pipeline c
      in bindE r (\<lambda>_. Ok c))))"

section \<open>One run\<close>

definition run_input :: "u32 \<Rightarrow> u32 list" where
  "run_input run = map (\<lambda>i. (word_of_nat i * (123 + run * 14) + 71 + run) XOR 0xff00) [0..<256]"

definition run_upload :: "u32 \<Rightarrow> bytes" where
  "run_upload run =
     replicate 16 0x3c @ concat (map (le_bytes 4) (run_input run)) @ replicate 16 0xc3"

text \<open>\<open>chunks_exact(4)\<close> and \<open>u32::from_le_bytes\<close>.\<close>

fun words_of :: "bytes \<Rightarrow> u32 list" where
  "words_of (a # b # c # d # rest) = of_le_bytes [a, b, c, d] # words_of rest"
| "words_of _ = []"

definition kernel_twice :: "u32 \<Rightarrow> u32" where
  "kernel_twice v = ((v * 3) + 7) * 3 + 7"

definition json_u32 :: "u32 \<Rightarrow> json" where
  "json_u32 w = JNumber (PosInt (ucast w))"

definition json_byte :: "u8 \<Rightarrow> json" where
  "json_byte b = JNumber (PosInt (ucast b))"

definition run_record :: "u32 list \<Rightarrow> u32 list \<Rightarrow> json" where
  "run_record input readback = JObject
     [(''input'', JArray (map json_u32 input)), (''readback'', JArray (map json_u32 readback)),
      (''all_256_matched'', JBool True), (''guards_unchanged'', JBool True)]"

definition on_compute ::
    "('c \<Rightarrow> ('a, string) result \<times> 'c) \<Rightarrow> ('c grant_session, 'a) prog" where
  "on_compute f g = (let (r, c) = f (compute g) in (r, compute_mut (\<lambda>_. c) g))"

definition submit_p ::
    "target \<Rightarrow> ('m, 'b, 'p, 'c, 'e) gpu_crate \<Rightarrow> ('e \<Rightarrow> string) \<Rightarrow> bytes \<Rightarrow>
     vf_grant_snapshot list \<Rightarrow> ('c grant_session, nat) prog" where
  "submit_p t G stext wire views g =
     (let (r, g) = grant_submit t (submit_wire G) wire views CELL 15 g in (map_err (grant_submit_text stext) r, g))"

definition MISMATCH :: string where
  "MISMATCH = ''grant dispatch independent readback or guards differ''"

definition one_run ::
    "target \<Rightarrow> ('m, 'b, 'p, 'c, 'e) gpu_crate \<Rightarrow> ('e \<Rightarrow> string) \<Rightarrow> bytes \<Rightarrow>
     vf_grant_snapshot list \<Rightarrow> u32 \<Rightarrow> ('c grant_session, json) prog" where
  "one_run t G stext wire views run =
     (let input = run_input run; expected = map kernel_twice input in
      bind_p (on_compute (write_resource G SOURCE 0 (run_upload run))) (\<lambda>_.
      bind_p (submit_p t G stext wire views) (\<lambda>n.
      bind_p (check_p (n = 3) ''wrong completion count'') (\<lambda>_.
      bind_p (reads_p (\<lambda>g. read_resource G (compute g) DESTINATION 16 1024)) (\<lambda>bs.
      bind_p (check_p (words_of bs = expected) MISMATCH) (\<lambda>_.
      bind_p (check_p (words_of bs \<noteq> input) MISMATCH) (\<lambda>_.
      bind_p (reads_p (\<lambda>g. read_resource G (compute g) DESTINATION 0 16)) (\<lambda>low.
      bind_p (check_p (low = replicate 16 0x3c) MISMATCH) (\<lambda>_.
      bind_p (reads_p (\<lambda>g. read_resource G (compute g) DESTINATION 1040 16)) (\<lambda>high.
      bind_p (check_p (high = replicate 16 0xc3) MISMATCH) (\<lambda>_.
      return_p (run_record input (words_of bs)))))))))))))"

section \<open>The program\<close>

definition crate_view :: "('m, 'b, 'p, 'c, 'e) gpu_crate \<Rightarrow> 'c compute_view" where
  "crate_view G =
     \<lparr>destination_bytes = (\<lambda>c. read_resource G c DESTINATION 0 1056),
      completed_command_count = completed_count G\<rparr>"

definition rejection_record :: "string \<times> string \<Rightarrow> json" where
  "rejection_record ke = JObject
     [(''kind'', JString (fst ke)), (''error'', JString (snd ke)),
      (''data_and_completed_count_unchanged'', JBool True)]"

definition full_report ::
    "json \<Rightarrow> json list \<Rightarrow> bytes \<Rightarrow> bytes \<Rightarrow> (string \<times> string) list \<Rightarrow> json" where
  "full_report info runs wire p rejected = JObject
     [(''device'', info), (''runs'', JArray runs), (''grant_header'', JArray (map json_byte wire)),
      (''wire_payload'', JArray (map json_byte p)), (''grant_offset'', json_u32 16),
      (''snapshot_offset'', json_u32 8), (''unaligned_host_snapshot'', JBool True),
      (''root_metadata'', JString ''authored trusted-root fixture''),
      (''completed_commands'', json_u32 6), (''gpu_dispatches'', json_u32 4),
      (''software_buffer_copies'', json_u32 2), (''native_pipeline_compilations'', json_u32 1),
      (''rejected_grants'', JArray (map rejection_record rejected)),
      (''inline_grant_roundtrip_verified'', JBool True),
      (''host_vulkan_compute_verified'', JBool True), (''cpu_fallback'', JBool False),
      (''actual_vsk_root_submission_verified'', JBool False),
      (''actual_guest_driver_submission_verified'', JBool False),
      (''efi_gpu_command_backend_verified'', JBool False), (''guest_metal_verified'', JBool False),
      (''macos_boot_verified'', JBool False)]"

definition example_views :: "bytes \<Rightarrow> vf_grant_snapshot list" where
  "example_views p = [example_view (example_grant p) (drop 1 (example_snapshot p))]"

text \<open>The part after the grant session and the authored message exist.\<close>

definition validation ::
    "target \<Rightarrow> ('m, 'b, 'p, 'c, 'e) gpu_crate \<Rightarrow> ('e \<Rightarrow> string) \<Rightarrow> json \<Rightarrow> bytes \<Rightarrow>
     bytes \<Rightarrow> ('c grant_session, json) prog" where
  "validation t G stext info wire p =
     (let views = example_views p in
      bind_p (reads_p (\<lambda>g. map_err (grant_submit_text stext) (to_inline t g wire views CELL 15))) (\<lambda>f.
      bind_p (check_p (payload f = p \<and> payload_offset (header f) = 0 \<and> payload_grant (header f) = 0)
        ''authorized inline normalization differs'') (\<lambda>_.
      bind_p (map_p (one_run t G stext wire views) [0, 1]) (\<lambda>runs.
      bind_p (reads_p (\<lambda>g. read_resource G (compute g) DESTINATION 0 1056)) (\<lambda>before.
      bind_p (reject_loop t (submit_wire G) (crate_view G) (grant_submit_text stext) wire p before all_kinds) (\<lambda>rejected.
      bind_p (reads_p (\<lambda>g. Ok (pipeline_build_count G (compute g)))) (\<lambda>built.
      bind_p (check_p (built = Some 1) ''same shader was recompiled or pipeline missing'') (\<lambda>_.
      return_p (full_report info runs wire p rejected)))))))))"

definition vulkan_run ::
    "target \<Rightarrow> ('m, 'b, 'p, 'c, 'e) gpu_crate \<Rightarrow> ('e \<Rightarrow> string) \<Rightarrow> example_env \<Rightarrow>
     (json, string) result" where
  "vulkan_run t G stext E =
     bindE (open_device G E) (\<lambda>(info, shader, manager).
     bindE (build_compute G shader manager) (\<lambda>c.
     bindE (map_err grant_error_text (grant_session_new c CELL ENDPOINT)) (\<lambda>g.
     bindE (map_err sgpu_error_text (bindE (try_to_wire t example_inline) (from_wire t))) (\<lambda>f.
     bindE (map_err (grant_submit_text stext) (inline_to_grant t f GRANT 16)) (\<lambda>(wire, p).
     fst (validation t G stext info wire p g))))))"

text \<open>\<open>main\<close>: the exit code and what is printed on standard output and standard error.\<close>

definition vulkan_main ::
    "target \<Rightarrow> ('m, 'b, 'p, 'c, 'e) gpu_crate \<Rightarrow> ('e \<Rightarrow> string) \<Rightarrow> example_env \<Rightarrow>
     int \<times> json option \<times> string option" where
  "vulkan_main t G stext E =
     (case vulkan_run t G stext E of
        Inr report \<Rightarrow> (0, Some report, None)
      | Inl error \<Rightarrow> (1, None, Some (''sgpu_grant_vulkan: '' @ error)))"

section \<open>Words, uploads and the kernel\<close>

lemma words_of_le_bytes [simp]: "words_of (concat (map (le_bytes 4) ws)) = ws"
proof (induction ws)
  case (Cons w ws)
  have "le_bytes 4 w = [ucast w, ucast (drop_bit 8 w), ucast (drop_bit 8 (drop_bit 8 w)),
      ucast (drop_bit 8 (drop_bit 8 (drop_bit 8 w)))]"
    by (simp add: numeral_eq_Suc)
  moreover have "of_le_bytes (le_bytes 4 w) = w" by (rule of_le_bytes_le_bytes) simp
  ultimately show ?case using Cons.IH by simp
qed simp

lemma length_concat_le_bytes: "length (concat (map (le_bytes n) ws)) = n * length ws"
  by (induction ws) simp_all

lemma length_run_input [simp]: "length (run_input run) = 256"
  by (simp add: run_input_def)

lemma length_run_upload: "length (run_upload run) = 1056"
  by (simp add: run_upload_def length_concat_le_bytes)

text \<open>No arithmetic of an input overflows, so that checked builds compute the same words.\<close>

lemma run_input_exact:
  assumes "i < 256" and "k < 2"
  shows "unat (word_of_nat i * (123 + word_of_nat k * 14) + 71 + word_of_nat k :: u32) =
    i * (123 + k * 14) + 71 + k"
proof -
  have "i * (123 + k * 14) \<le> 255 * 137" using assms by (intro mult_mono) auto
  then have "i * (123 + k * 14) + 71 + k < 2 ^ 32" using assms by simp
  moreover have "word_of_nat i * (123 + word_of_nat k * 14) + 71 + word_of_nat k =
      (word_of_nat (i * (123 + k * 14) + 71 + k) :: u32)" by simp
  ultimately show ?thesis by (simp only: unat_of_nat) simp
qed

text \<open>The kernel never maps a word to itself: \<open>8 * v + 28\<close> is not a multiple of 8.\<close>

lemma kernel_twice_eq: "kernel_twice v = 9 * v + 28"
  by (simp add: kernel_twice_def algebra_simps)

lemma kernel_twice_neq: "kernel_twice v \<noteq> v"
proof
  assume "kernel_twice v = v"
  then have "8 * v + 28 = 0" by (simp add: kernel_twice_eq algebra_simps)
  then have "word_of_nat (8 * unat v + 28) = (0 :: u32)" by simp
  then have "2 ^ 32 dvd 8 * unat v + 28" by (simp only: word_of_nat_eq_0_iff) simp
  then have "8 dvd 8 * unat v + 28" by (rule dvd_trans [rotated]) simp
  then show False by presburger
qed

lemma kernel_changes_input: "map kernel_twice (run_input run) \<noteq> run_input run"
proof
  assume "map kernel_twice (run_input run) = run_input run"
  then have "kernel_twice (run_input run ! 0) = run_input run ! 0"
    by (metis length_run_input nth_map zero_less_numeral)
  then show False using kernel_twice_neq by blast
qed

section \<open>What a successful run needs of the device\<close>

text \<open>One accepted submission: the upload is written, the device executes the three commands of the
  authored payload, and the destination reads back as the transformed input between untouched
  guards.\<close>

definition certified_run :: "('m, 'b, 'p, 'c, 'e) gpu_crate \<Rightarrow> u32 \<Rightarrow> 'c \<Rightarrow> 'c \<Rightarrow> bool" where
  "certified_run G run c c' \<longleftrightarrow>
     (\<exists>c1 bs. write_resource G SOURCE 0 (run_upload run) c = (Inr (), c1) \<and>
       submit_wire G c1 example_payload 0 87 = (Inr 3, c') \<and>
       read_resource G c' DESTINATION 16 1024 = Inr bs \<and>
       words_of bs = map kernel_twice (run_input run) \<and>
       read_resource G c' DESTINATION 0 16 = Inr (replicate 16 0x3c) \<and>
       read_resource G c' DESTINATION 1040 16 = Inr (replicate 16 0xc3))"

abbreviation on_route :: "'c grant_session \<Rightarrow> bool" where
  "on_route g \<equiv> caller_cell g = CELL \<and> endpoint_handle g = ENDPOINT"

lemma granted_views:
  assumes "supported_target t" and "on_route g"
  shows "authorize t g (header_encode example_granted) (example_views example_payload) CELL 15 =
    Inr (example_granted, example_payload)"
  unfolding example_views_def using assms(2) by (intro example_authorized [OF assms(1)]) simp_all

lemma on_compute_Ok [prog_simps]:
  "on_compute f g = (Inr x, g') \<longleftrightarrow> (\<exists>c. f (compute g) = (Inr x, c) \<and> g' = g\<lparr>compute := c\<rparr>)"
  by (auto simp: on_compute_def compute_mut_def split: prod.splits)

lemma submit_p_Ok:
  assumes "supported_target t" and "on_route g"
  shows "submit_p t G stext (header_encode example_granted) (example_views example_payload) g = (Inr n, g') \<longleftrightarrow>
    (\<exists>c. submit_wire G (compute g) example_payload 0 87 = (Inr n, c) \<and> g' = g\<lparr>compute := c\<rparr>)"
  using assms
  by (auto simp: submit_p_def grant_submit_def granted_views length_example_payload result_simps
      split: prod.splits)

lemma one_run_Ok:
  assumes "supported_target t" and "on_route g"
  shows "one_run t G stext (header_encode example_granted) (example_views example_payload) run g = (Inr r, g') \<longleftrightarrow>
    (\<exists>c. certified_run G run (compute g) c \<and> g' = g\<lparr>compute := c\<rparr> \<and>
      r = run_record (run_input run) (map kernel_twice (run_input run)))"
  using assms(2) kernel_changes_input [of run]
  by (auto simp: one_run_def Let_def prog_simps submit_p_Ok [OF assms(1)] certified_run_def)

definition run_results :: "json list" where
  "run_results = map (\<lambda>run. run_record (run_input run) (map kernel_twice (run_input run))) [0, 1]"

lemma runs_Ok:
  assumes t: "supported_target t" and g: "on_route g"
  shows "map_p (one_run t G stext (header_encode example_granted) (example_views example_payload)) [0, 1] g =
      (Inr rs, g') \<longleftrightarrow>
    (\<exists>c1 c2. certified_run G 0 (compute g) c1 \<and> certified_run G 1 c1 c2 \<and>
      g' = g\<lparr>compute := c2\<rparr> \<and> rs = run_results)"
    (is "?runs = _ \<longleftrightarrow> ?certified")
proof
  let ?one = "one_run t G stext (header_encode example_granted) (example_views example_payload)"
  assume "?runs = (Inr rs, g')"
  then obtain r0 g1 r1 where "?one 0 g = (Inr r0, g1)" "?one 1 g1 = (Inr r1, g')" "rs = [r0, r1]"
    by (auto simp: prog_simps)
  then show ?certified
    using g by (auto simp: one_run_Ok [OF t] run_results_def)
next
  let ?one = "one_run t G stext (header_encode example_granted) (example_views example_payload)"
  assume ?certified
  then obtain c1 c2 where c: "certified_run G 0 (compute g) c1" "certified_run G 1 c1 c2"
      "g' = g\<lparr>compute := c2\<rparr>" "rs = run_results" by blast
  have "?one 0 g = (Inr (run_record (run_input 0) (map kernel_twice (run_input 0))), g\<lparr>compute := c1\<rparr>)"
    using c(1) unfolding one_run_Ok [OF t g] by blast
  moreover have "?one 1 (g\<lparr>compute := c1\<rparr>) =
      (Inr (run_record (run_input 1) (map kernel_twice (run_input 1))), g\<lparr>compute := c2\<rparr>)"
    using g c(2) by (subst one_run_Ok [OF t]) auto
  ultimately show "?runs = (Inr rs, g')"
    using c(3,4) by (simp add: bind_p_def return_p_def run_results_def)
qed

text \<open>The rejections succeed exactly when the device shows the same data and six commands.\<close>

lemma reject_one_cases:
  assumes "on_route g"
  shows "reject_one t sw V describe (header_encode example_granted) example_payload before kind g =
    (bindE (destination_bytes V (compute g)) (\<lambda>after'.
     if after' \<noteq> before \<or> completed_command_count V (compute g) \<noteq> 6
     then Err ''rejected grant changed data or completion count''
     else Ok (kind_name kind, describe (GrantFailed (expected_error kind)))), g)"
proof -
  obtain e h d now where tm: "tamper kind example_payload example_granted = (e, h, d, now)"
    by (cases "tamper kind example_payload example_granted") auto
  have "decode_grant_header (header_encode example_granted) = Inr example_granted"
    using example_granted_header by (simp add: decode_grant_header_Inr_iff)
  then show ?thesis
    using tampered_refused [OF tm, of g t] assms
    by (auto simp: reject_one_def tm grant_submit_def bindE_def split: sum.splits)
qed

lemma reject_loop_Ok:
  assumes "on_route g" and "destination_bytes V (compute g) = Inr before"
  shows "reject_loop t sw V describe (header_encode example_granted) example_payload before all_kinds g =
      (Inr xs, g') \<longleftrightarrow>
    completed_command_count V (compute g) = 6 \<and> g' = g \<and>
    xs = map (\<lambda>k. (kind_name k, describe (GrantFailed (expected_error k)))) all_kinds"
proof (cases "completed_command_count V (compute g) = 6")
  case True
  then show ?thesis using assms by (auto simp: reject_loop_eq)
next
  case False
  have kinds: "all_kinds = Generation # tl all_kinds" by (simp add: all_kinds_def)
  show ?thesis using False assms by (subst kinds) (simp add: reject_one_cases)
qed

text \<open>The report of a successful run.\<close>

definition success_report :: "json \<Rightarrow> json" where
  "success_report info =
     full_report info run_results
       (header_encode example_granted) example_payload
       (map (\<lambda>k. (kind_name k, grant_error_text (expected_error k))) all_kinds)"

text \<open>A device that passes from the state \<open>c0\<close> on.\<close>

definition certified_device :: "('m, 'b, 'p, 'c, 'e) gpu_crate \<Rightarrow> 'c \<Rightarrow> bool" where
  "certified_device G c0 \<longleftrightarrow>
     (\<exists>c1 c2 before. certified_run G 0 c0 c1 \<and> certified_run G 1 c1 c2 \<and>
       read_resource G c2 DESTINATION 0 1056 = Inr before \<and> completed_count G c2 = 6 \<and>
       pipeline_build_count G c2 = Some 1)"

lemma validation_Ok:
  assumes t: "supported_target t" and "\<forall>n. reserve_ok t n" and g: "on_route g"
  shows "fst (validation t G stext info (header_encode example_granted) example_payload g) = Inr report \<longleftrightarrow>
    certified_device G (compute g) \<and> report = success_report info"
    (is "fst ?validation = _ \<longleftrightarrow> _")
proof
  let ?runs = "map_p (one_run t G stext (header_encode example_granted) (example_views example_payload)) [0, 1]"
  have inline: "to_inline t g (header_encode example_granted) (example_views example_payload) CELL 15 =
      (Inr (normalized example_granted example_payload) :: (_, 'e grant_submit_error) result)"
    using assms(2) g by (intro to_inline_eq [OF t granted_views [OF t]]) simp_all
  have checked: "payload (normalized example_granted example_payload) = example_payload"
      "payload_offset (header (normalized example_granted example_payload)) = 0"
      "payload_grant (header (normalized example_granted example_payload)) = 0"
    by (simp_all add: normalized_def)
  have rejected: "reject_loop t (submit_wire G) (crate_view G) (grant_submit_text stext)
        (header_encode example_granted) example_payload before all_kinds (g\<lparr>compute := c\<rparr>) = (Inr xs, g') \<longleftrightarrow>
      completed_count G c = 6 \<and> g' = g\<lparr>compute := c\<rparr> \<and>
      xs = map (\<lambda>k. (kind_name k, grant_error_text (expected_error k))) all_kinds"
    if "read_resource G c DESTINATION 0 1056 = Inr before" for before c xs g'
    using g that by (subst reject_loop_Ok) (simp_all add: crate_view_def)
  {
    assume "fst ?validation = Inr report"
    then obtain rs g1 before xs g2 where "?runs g = (Inr rs, g1)"
        "read_resource G (compute g1) DESTINATION 0 1056 = Inr before"
        "reject_loop t (submit_wire G) (crate_view G) (grant_submit_text stext)
          (header_encode example_granted) example_payload before all_kinds g1 = (Inr xs, g2)"
        "pipeline_build_count G (compute g2) = Some 1"
        "report = full_report info rs (header_encode example_granted) example_payload xs"
      by (cases ?validation) (auto simp: validation_def Let_def prog_simps simp del: map_p.simps)
    then show "certified_device G (compute g) \<and> report = success_report info"
      unfolding runs_Ok [OF t g] certified_device_def success_report_def
      by (auto simp: rejected) blast
  }
  assume "certified_device G (compute g) \<and> report = success_report info"
  then obtain c1 c2 before where c: "certified_run G 0 (compute g) c1" "certified_run G 1 c1 c2"
      "read_resource G c2 DESTINATION 0 1056 = Inr before" "completed_count G c2 = 6"
      "pipeline_build_count G c2 = Some 1" "report = success_report info"
    by (auto simp: certified_device_def)
  have "?runs g = (Inr run_results, g\<lparr>compute := c2\<rparr>)"
    using c(1,2) unfolding runs_Ok [OF t g] by blast
  moreover have "reject_loop t (submit_wire G) (crate_view G) (grant_submit_text stext)
      (header_encode example_granted) example_payload before all_kinds (g\<lparr>compute := c2\<rparr>) =
      (Inr (map (\<lambda>k. (kind_name k, grant_error_text (expected_error k))) all_kinds), g\<lparr>compute := c2\<rparr>)"
    using c(4) by (simp add: rejected [OF c(3)])
  ultimately show "fst ?validation = Inr report"
    using c(3,5,6)
    by (simp add: validation_def Let_def bind_p_def return_p_def reads_p_def check_p_def
        inline checked success_report_def del: map_p.simps)
qed

lemma example_session: "grant_session_new c CELL ENDPOINT =
    Inr \<lparr>caller_cell = CELL, endpoint_handle = ENDPOINT, compute = c\<rparr>"
  by (simp add: grant_session_new_def CELL_def ENDPOINT_def)

lemma vulkan_run_Ok:
  assumes "supported_target t" and "\<forall>n. reserve_ok t n"
  shows "vulkan_run t G stext E = Inr report \<longleftrightarrow>
    (\<exists>info shader manager c. open_device G E = Inr (info, shader, manager) \<and>
      build_compute G shader manager = Inr c \<and> certified_device G c \<and> report = success_report info)"
proof -
  obtain f where "bindE (try_to_wire t example_inline) (from_wire t) = Inr f"
      "(inline_to_grant t f GRANT 16 :: (_, 'e grant_submit_error) result) =
        Inr (header_encode example_granted, example_payload)"
    using example_message_eq [OF assms, where ?'e = 'e] by (auto simp: example_message_def result_simps)
  then show ?thesis
    by (auto simp: vulkan_run_def bindE_Inr_iff map_err_Inr_iff example_session validation_Ok [OF assms])
qed

section \<open>The recorded run\<close>

text \<open>The wire bytes of the recorded hardware run,
  \<open>validation/sgpu-grant-rx6800xt-20260908/hardware-example.json\<close>, are the model's.\<close>

definition recorded_header :: bytes where
  "recorded_header =
     [86, 70, 77, 49, 1, 0, 64, 0, 64, 0, 0, 0, 3, 0, 5, 0, 16, 50, 84, 118, 152, 186, 220, 254,
      5, 0, 0, 0, 68, 51, 34, 17, 7, 0, 0, 0, 221, 204, 187, 170, 16, 0, 0, 0, 0, 0, 0, 0, 87, 0,
      0, 0, 0, 0, 0, 0, 0, 0, 0, 0, 0, 0, 0, 0]"

definition recorded_payload :: bytes where
  "recorded_payload =
     [3, 0, 0, 0, 1, 1, 0, 0, 0, 120, 86, 52, 18, 2, 0, 0, 0, 152, 186, 220, 254, 32, 4, 0, 0, 0,
      0, 0, 0, 3, 1, 0, 0, 241, 4, 0, 0, 0, 1, 0, 0, 0, 1, 0, 0, 0, 64, 0, 0, 0, 1, 0, 0, 0, 1,
      0, 0, 0, 3, 1, 0, 0, 241, 4, 0, 0, 0, 1, 0, 0, 0, 1, 0, 0, 0, 64, 0, 0, 0, 1, 0, 0, 0, 1,
      0, 0, 0]"

lemma le_bytes_unfold:
  "le_bytes 2 w = [ucast w, ucast (drop_bit 8 w)]"
  "le_bytes 4 w = le_bytes 2 w @ le_bytes 2 (drop_bit 16 w)"
  "le_bytes 8 w = le_bytes 4 w @ le_bytes 4 (drop_bit 32 w)"
  by (simp_all add: numeral_eq_Suc)

lemma recorded_message: "header_encode example_granted = recorded_header" "example_payload = recorded_payload"
proof -
  show "header_encode example_granted = recorded_header"
    unfolding header_encode_concat le_bytes_unfold recorded_header_def
    by (simp add: example_header_simps)
  have two: "replicate 2 x = [x, x]" for x :: bytes by (simp add: numeral_2_eq_2)
  show "example_payload = recorded_payload"
    unfolding example_payload_def recorded_payload_def list.map le_bytes_unfold two SOURCE_def
      DESTINATION_def KERNEL_def
    by simp
qed

section \<open>Property\<close>

text \<open>C13: What the validation program certifies. Whatever the GPU crate does, the program exits with
  0 and prints a report exactly when the selected device opens, the compute session is built, and
  in two consecutive runs the device writes the upload, executes the three commands of the authored
  payload for the granted bytes alone, and reads back every one of the 256 words as 9 times the
  input plus 28 between untouched guards, with six completed commands and one compiled pipeline at
  the end. The printed report is then fixed: the device's identity, those inputs and results, the
  authored message, and the refusal of each tampered request with its error text.\<close>

theorem validation_program_exact:
  assumes "supported_target t" and "\<forall>n. reserve_ok t n"
  shows "vulkan_main t G stext E = (0, out, err) \<longleftrightarrow>
    (\<exists>info shader manager c. open_device G E = Inr (info, shader, manager) \<and>
      build_compute G shader manager = Inr c \<and> certified_device G c \<and>
      out = Some (success_report info) \<and> err = None)"
proof (cases "vulkan_run t G stext E")
  case (Inl e)
  then show ?thesis
    using vulkan_run_Ok [OF assms, of G stext E, THEN iffD2] by (fastforce simp: vulkan_main_def)
next
  case (Inr report)
  then show ?thesis
    using vulkan_run_Ok [OF assms, of G stext E report] by (auto simp: vulkan_main_def)
qed

text \<open>A software device that copies the source and applies the kernel twice.\<close>

record soft_device =
  source_bytes :: bytes
  soft_destination :: bytes
  soft_completed :: nat

definition soft_submit :: "soft_device \<Rightarrow> bytes \<Rightarrow> u64 \<Rightarrow> u64 \<Rightarrow> (nat, string) result \<times> soft_device" where
  "soft_submit d p start len =
     (let src = source_bytes d in
      (Ok 3, d\<lparr>soft_destination := take 16 src @
          concat (map (le_bytes 4) (map kernel_twice (words_of (slice src 16 1040)))) @ drop 1040 src,
        soft_completed := soft_completed d + 3\<rparr>))"

definition soft_crate :: "(unit, nat, unit, soft_device, string) gpu_crate" where
  "soft_crate =
     \<lparr>with_vulkan = (\<lambda>_ _ _ _. Ok ()), vulkan_device_info = (\<lambda>_. Some JNull),
      create_storage_buffer = (\<lambda>n _. (n, ())), create_pipeline = (\<lambda>_ _. ((), ())),
      compute_new = (\<lambda>_. \<lparr>source_bytes = [], soft_destination = [], soft_completed = 0\<rparr>),
      register_resource = (\<lambda>_ _ c. (Ok (), c)), register_kernel = (\<lambda>_ _ c. (Ok (), c)),
      submit_wire = soft_submit, write_resource = (\<lambda>_ _ bs c. (Ok (), c\<lparr>source_bytes := bs\<rparr>)),
      read_resource = (\<lambda>c _ off n. Ok (slice (soft_destination c) off (off + n))),
      completed_count = soft_completed, pipeline_build_count = (\<lambda>_. Some 1)\<rparr>"

definition sample_env :: example_env where
  "sample_env =
     \<lparr>env_args = [''1002'', ''0x73bf'', ''spirv-val.exe'', ''sgpu_grant.spv''],
      file_len = (\<lambda>_. Ok 1024), file_read = (\<lambda>_. Ok [])\<rparr>"

lemma sample_selectors: "parse_selector ''1002'' = Inr 0x1002" "parse_selector ''0x73bf'' = Inr 0x73bf"
  by (simp_all add: parse_selector_def to_str_def ascii_is_str from_hex_def hex_value_def)

lemma guarded_slices:
  assumes "length ws = 256"
  shows "take 16 (replicate 16 a @ concat (map (le_bytes 4) ws) @ replicate 16 b) = replicate 16 a"
    and "slice (replicate 16 a @ concat (map (le_bytes 4) ws) @ replicate 16 b) 0 16 = replicate 16 a"
    and "slice (replicate 16 a @ concat (map (le_bytes 4) ws) @ replicate 16 b) 16 1040 =
      concat (map (le_bytes 4) ws)"
    and "slice (replicate 16 a @ concat (map (le_bytes 4) ws) @ replicate 16 b) 1040 1056 = replicate 16 b"
    and "drop 1040 (replicate 16 a @ concat (map (le_bytes 4) ws) @ replicate 16 b) = replicate 16 b"
  using assms by (simp_all add: slice_def length_concat_le_bytes)

lemma soft_run: "certified_run soft_crate run c
    (snd (soft_submit (c\<lparr>source_bytes := run_upload run\<rparr>) [] 0 0))"
proof -
  have "soft_submit (c\<lparr>source_bytes := run_upload run\<rparr>) p start len =
      (Ok 3, c\<lparr>source_bytes := run_upload run,
        soft_destination := replicate 16 0x3c @
          concat (map (le_bytes 4) (map kernel_twice (run_input run))) @ replicate 16 0xc3,
        soft_completed := soft_completed c + 3\<rparr>)" for p start len
    unfolding soft_submit_def run_upload_def Let_def
    by (simp add: guarded_slices length_concat_le_bytes del: map_map)
  then show ?thesis
    using guarded_slices [of "map kernel_twice (run_input run)"]
    by (simp add: certified_run_def soft_crate_def del: map_map)
qed

lemma validation_program_exact_witness:
  "vulkan_main mac_target soft_crate id sample_env = (0, Some (success_report JNull), None)"
proof -
  let ?c0 = "\<lparr>source_bytes = [], soft_destination = [], soft_completed = 0\<rparr>"
  let ?next = "\<lambda>run c. snd (soft_submit (c\<lparr>source_bytes := run_upload run\<rparr>) [] 0 0)"
  have "open_device soft_crate sample_env = Inr (JNull, [], ())"
    by (simp add: open_device_def sample_env_def soft_crate_def sample_selectors)
  moreover have "build_compute soft_crate [] () = Inr ?c0"
    by (simp add: build_compute_def soft_crate_def Let_def)
  moreover have "certified_device soft_crate ?c0"
    unfolding certified_device_def
    by (intro exI conjI, rule soft_run [of 0], rule soft_run [of 1])
      (simp_all add: soft_crate_def soft_submit_def Let_def)
  moreover have "\<forall>n. reserve_ok mac_target n" by (simp add: mac_target_def)
  ultimately show ?thesis
    using validation_program_exact [OF supported_mac, of soft_crate id sample_env] by auto
qed

end
