(* ===== verification/Guest_Backend.thy ===== *)
theory Guest_Backend
  imports Guest_Plan
begin

text \<open>
  The virtualization backends of \<open>src/guest.rs\<close> and the mode selection of \<open>src/mode.rs\<close>. The
  backend trait is a record of operations; its fail-closed contract is the locale
  \<open>fail_closed_backend\<close>, interpreted on both implementations. The framework probe of the Apple
  backend does not compile on the one target that has it (\<open>dlclose\<close> is not in scope there), so it
  has no behaviour to translate: its result is an argument of what depends on it.
\<close>

section \<open>The backend trait\<close>

record backend =
  name :: string
  available :: bool
  launch :: "guest_launch_plan \<Rightarrow> (guest_state, guest_error) result"
  pause :: "(guest_state, guest_error) result"
  resume :: "(guest_state, guest_error) result"

definition unsupported_backend :: backend where
  "unsupported_backend =
     \<lparr>name = ''unsupported'',
      available = False,
      launch = (\<lambda>_. Err (UnsupportedHost ''no virtualization backend on this host'')),
      pause = Err BackendUnavailable,
      resume = Err BackendUnavailable\<rparr>"

text \<open>The Apple backend keeps the framework handle and the class it found; both are nonzero
  addresses.\<close>

record apple_state =
  handle :: u64
  config_class :: u64

definition apple_backend :: "apple_state \<Rightarrow> backend" where
  "apple_backend a =
     \<lparr>name = ''apple-virtualization'',
      available = True,
      launch = (\<lambda>plan. bindE (spec_validate (spec plan)) (\<lambda>_.
        Err (AbiPending ''VZ launch requires verified Objective-C ABI on an Apple Silicon host''))),
      pause = Err (AbiPending ''VZ pause selector unverified''),
      resume = Err (AbiPending ''VZ resume selector unverified'')\<rparr>"

section \<open>Backend selection\<close>

definition apple_host :: "target \<Rightarrow> bool" where
  "apple_host t \<longleftrightarrow> target_os t = ''macos'' \<and> target_arch t = ''aarch64''"

definition current_backend :: "target \<Rightarrow> (apple_state, guest_error) result \<Rightarrow> backend" where
  "current_backend t probe =
     (if apple_host t then
        (case probe of
           Inr a \<Rightarrow> apple_backend a
         | Inl _ \<Rightarrow> unsupported_backend)
      else unsupported_backend)"

section \<open>Mode selection\<close>

datatype apls_mode = NativeEfiX86 | AppleSiliconSandbox

fun mode_as_str :: "apls_mode \<Rightarrow> string" where
  "mode_as_str NativeEfiX86 = ''native-efi-x86''"
| "mode_as_str AppleSiliconSandbox = ''apls-sandbox''"

record boot_env =
  mode :: apls_mode
  arch :: string
  virtualization_backend_available :: bool

definition detect :: "target \<Rightarrow> apls_mode" where
  "detect t =
     (if target_arch t = ''aarch64'' \<and> target_vendor t = ''apple'' then AppleSiliconSandbox
      else NativeEfiX86)"

definition mode_probe :: "target \<Rightarrow> (apple_state, guest_error) result \<Rightarrow> boot_env" where
  "mode_probe t probe =
     (let m = detect t;
          backend_available =
            (case m of
               NativeEfiX86 \<Rightarrow> False
             | AppleSiliconSandbox \<Rightarrow> available (current_backend t probe))
      in \<lparr>mode = m, arch = target_arch t, virtualization_backend_available = backend_available\<rparr>)"

section \<open>The fail-closed contract\<close>

text \<open>What every client of a backend relies on: no operation reports a guest state.\<close>

locale fail_closed_backend =
  fixes b :: backend
  assumes launch_fails: "launch b plan \<noteq> Inr s"
    and pause_fails: "pause b \<noteq> Inr s"
    and resume_fails: "resume b \<noteq> Inr s"
begin

text \<open>A session of backend calls: launches, pauses and resumes in any order.\<close>

definition results :: "guest_launch_plan list \<Rightarrow> (guest_state, guest_error) result set" where
  "results plans = launch b ` set plans \<union> {pause b, resume b}"

lemma never_running: "Inr s \<notin> results plans"
  using launch_fails pause_fails resume_fails by (auto simp: results_def) metis+

lemma launch_error: "\<exists>e. launch b plan = Inl e"
  using launch_fails [of plan] by (cases "launch b plan") auto

end

interpretation unsupported: fail_closed_backend unsupported_backend
  by unfold_locales (simp_all add: unsupported_backend_def)

interpretation apple: fail_closed_backend "apple_backend a" for a
  by unfold_locales (auto simp: apple_backend_def result_simps)

lemma current_backend_cases:
  "current_backend t probe = unsupported_backend \<or>
   (\<exists>a. current_backend t probe = apple_backend a)"
  by (auto simp: current_backend_def split: sum.splits)

interpretation current: fail_closed_backend "current_backend t probe" for t probe
proof unfold_locales
  fix plan s
  show "launch (current_backend t probe) plan \<noteq> Inr s"
    and "pause (current_backend t probe) \<noteq> Inr s"
    and "resume (current_backend t probe) \<noteq> Inr s"
    using current_backend_cases [of t probe]
    by (auto simp: unsupported.launch_fails unsupported.pause_fails unsupported.resume_fails
        apple.launch_fails apple.pause_fails apple.resume_fails)
qed

section \<open>Properties\<close>

text \<open>What a client of the selected backend gets. On a macOS aarch64 target whose probe succeeded,
  a launch reports the error of the plan's specification or else the pending-ABI error; on every
  other target, and after a failed probe, the unsupported-host error. Pausing and resuming fail
  with the matching errors.\<close>

theorem backend_fails_closed:
  "launch (current_backend t probe) plan =
     (if apple_host t \<and> \<not> isl probe
      then (case spec_validate (spec plan) of
          Inl e \<Rightarrow> Inl e
        | Inr _ \<Rightarrow> Inl (AbiPending ''VZ launch requires verified Objective-C ABI on an Apple Silicon host''))
      else Inl (UnsupportedHost ''no virtualization backend on this host'')) \<and>
   pause (current_backend t probe) =
     Inl (if apple_host t \<and> \<not> isl probe then AbiPending ''VZ pause selector unverified''
       else BackendUnavailable) \<and>
   resume (current_backend t probe) =
     Inl (if apple_host t \<and> \<not> isl probe then AbiPending ''VZ resume selector unverified''
       else BackendUnavailable)"
  by (cases probe)
    (simp_all add: current_backend_def unsupported_backend_def apple_backend_def bindE_def)

text \<open>Mode probing. The probe reports the sandbox mode and an available backend only on an
  Apple aarch64 target; the backend is reported available exactly when that target is macOS and
  the framework probe succeeds.\<close>

theorem mode_probe_exact:
  "virtualization_backend_available (mode_probe t probe) =
     (mode (mode_probe t probe) = AppleSiliconSandbox \<and> target_os t = ''macos'' \<and> \<not> isl probe) \<and>
   (mode (mode_probe t probe) = AppleSiliconSandbox \<longleftrightarrow>
      arch (mode_probe t probe) = ''aarch64'' \<and> target_vendor t = ''apple'')"
  by (cases probe) (auto simp: mode_probe_def detect_def current_backend_def apple_host_def
      unsupported_backend_def apple_backend_def)

end
