(* ===== verification/Runner_Report.thy ===== *)
theory Runner_Report
  imports Runner_Request Guest_Plan
begin

text \<open>
  The verdict on native and raw-TCG worker reports: \<open>RunOutcome\<close>, \<open>RecoveryProgress\<close> and
  \<open>evaluate_report\<close> of \<open>src/runner.rs\<close>, one definition per binding of the function, each over
  the request and the report value \<open>r\<close>. The lemmas show which evidence each verdict rests on.
\<close>

section \<open>Outcomes\<close>

record recovery_progress =
  dfu_upload_completed :: bool
  ibec_endpoint_advertised :: bool
  stage2_banner_observed :: bool
  stage2_prompt_observed :: bool
  restore_sequence_sent :: bool
  restore_role_step_count :: u32
  bootx_acknowledged :: bool
  firmware_panic_observed :: bool

definition progress_default :: recovery_progress where
  "progress_default =
     \<lparr>dfu_upload_completed = False, ibec_endpoint_advertised = False,
      stage2_banner_observed = False, stage2_prompt_observed = False,
      restore_sequence_sent = False, restore_role_step_count = 0,
      bootx_acknowledged = False, firmware_panic_observed = False\<rparr>"

text \<open>The \<open>f64\<close> \<open>elapsed_seconds\<close> is carried by its bits.\<close>

record run_outcome =
  schema :: string
  runner_pid :: u32
  runner_exit_code :: "int option"
  runner_completed :: bool
  elapsed_seconds :: u64
  engine :: string
  guest_runtime_started :: bool
  guest_process_terminated :: bool
  xnu_executed :: bool
  macos_userspace_reached :: bool
  guest_target_match :: bool
  input_integrity :: bool
  macos_boot_verified :: bool
  installation_verified :: bool
  graphics_acceleration_verified :: bool
  recovery_progress_of :: "recovery_progress option"
  stdout_sha256 :: string
  report :: "json option"
  failure :: "string option"

definition guest_state_of :: "run_outcome \<Rightarrow> guest_state" where
  "guest_state_of o' = (case failure o' of Some reason \<Rightarrow> Faulted reason | None \<Rightarrow> Stopped)"

section \<open>Reading the report\<close>

text \<open>\<open>u64::from(target_major)\<close>.\<close>

definition target64 :: "runner_request \<Rightarrow> u64" where
  "target64 q = ucast (target_major q)"

text \<open>The closure \<open>yes\<close>.\<close>

definition yes :: "json \<Rightarrow> string \<Rightarrow> bool" where
  "yes r key \<longleftrightarrow> Option.bind (json_get r key) as_bool = Some True"

definition xnu_marker :: "json \<Rightarrow> bool" where
  "xnu_marker m \<longleftrightarrow>
     as_str (json_index m ''marker'') = Some ''Darwin Kernel Version'' \<or>
     as_str (json_index m ''marker'') = Some ''Darwin Kernel''"

definition userspace_marker :: "json \<Rightarrow> bool" where
  "userspace_marker m \<longleftrightarrow>
     as_str (json_index m ''marker'') \<in>
       {Some ''launchd:'', Some ''launchd '', Some ''loginwindow'', Some ''WindowServer''}"

text \<open>\<open>recognized.then(|| m["byte_offset"].as_u64()).flatten()\<close>.\<close>

definition offset_if :: "(json \<Rightarrow> bool) \<Rightarrow> json \<Rightarrow> u64 option" where
  "offset_if recognized m = (if recognized m then as_u64 (json_index m ''byte_offset'') else None)"

definition marker_offsets :: "(json \<Rightarrow> bool) \<Rightarrow> json \<Rightarrow> u64 list" where
  "marker_offsets recognized ms = List.map_filter (offset_if recognized) (array_items ms)"

definition userspace_after :: "json \<Rightarrow> u64 option \<Rightarrow> u64 option" where
  "userspace_after markers xnu_off =
     iter_min (filter (\<lambda>off. case xnu_off of Some x \<Rightarrow> off > x | None \<Rightarrow> False)
       (marker_offsets userspace_marker (json_index markers ''userspace'')))"

section \<open>The native and raw-TCG verdict\<close>

definition native_identity :: "runner_request \<Rightarrow> json \<Rightarrow> bool" where
  "native_identity q r \<longleftrightarrow>
     as_str (json_index r ''schema'') = Some (backend_schema (run_backend q)) \<and>
     as_str (json_index r ''engine'') = Some (backend_engine (run_backend q)) \<and>
     as_u64 (json_index r ''target_major'') = Some (target64 q)"

definition native_runtime :: "runner_request \<Rightarrow> json \<Rightarrow> bool" where
  "native_runtime q r \<longleftrightarrow>
     native_identity q r \<and>
     (case run_backend q of
        Native _ \<Rightarrow> yes r ''native_runtime_started''
      | Tcg _ \<Rightarrow> yes r ''tcg_runtime_started''
      | TcgRecovery _ \<Rightarrow> False)"

definition native_terminated :: "runner_request \<Rightarrow> json \<Rightarrow> bool" where
  "native_terminated q r \<longleftrightarrow>
     native_runtime q r \<and>
     as_i64 (json_index r ''returncode'') \<noteq> None \<and>
     (case as_str (json_index r ''termination'') of Some s \<Rightarrow> s \<noteq> [] | None \<Rightarrow> False)"

definition native_xnu_offset :: "json \<Rightarrow> u64 option" where
  "native_xnu_offset r =
     iter_min (marker_offsets xnu_marker (json_path r [''observed_markers'', ''xnu'']))"

definition native_userspace_offset :: "json \<Rightarrow> u64 option" where
  "native_userspace_offset r =
     userspace_after (json_index r ''observed_markers'') (native_xnu_offset r)"

definition native_xnu :: "runner_request \<Rightarrow> json \<Rightarrow> bool" where
  "native_xnu q r \<longleftrightarrow> native_runtime q r \<and> yes r ''xnu_executed'' \<and> native_xnu_offset r \<noteq> None"

definition native_userspace :: "runner_request \<Rightarrow> json \<Rightarrow> bool" where
  "native_userspace q r \<longleftrightarrow>
     native_runtime q r \<and> yes r ''macos_userspace_reached'' \<and> native_userspace_offset r \<noteq> None"

definition native_target :: "runner_request \<Rightarrow> json \<Rightarrow> bool" where
  "native_target q r \<longleftrightarrow>
     native_identity q r \<and> yes r ''guest_target_match'' \<and>
     as_u64 (json_index r ''guest_kernel_major'') = Some (target64 q) \<and>
     (case as_array (json_path r [''observed_markers'', ''xnu'']) of
        None \<Rightarrow> False
      | Some items \<Rightarrow> list_ex (\<lambda>m. xnu_marker m \<and>
          as_u64 (json_index m ''kernel_major'') = Some (target64 q) \<and>
          as_u64 (json_index m ''byte_offset'') \<noteq> None) items)"

definition native_intact :: "runner_request \<Rightarrow> json \<Rightarrow> bool" where
  "native_intact q r \<longleftrightarrow>
     native_identity q r \<and> yes r ''input_integrity'' \<and> \<not> yes r ''guest_inputs_modified''"

definition native_verified :: "runner_request \<Rightarrow> int option \<Rightarrow> json \<Rightarrow> bool" where
  "native_verified q exit r \<longleftrightarrow>
     exit = Some 0 \<and> native_terminated q r \<and> native_xnu q r \<and> native_userspace q r \<and>
     native_target q r \<and> native_intact q r \<and> yes r ''macos_boot_verified'' \<and>
     is_null (json_index r ''error'')"

text \<open>\<open>Option::or\<close> and \<open>unwrap_or\<close> over the candidate messages.\<close>

definition first_str :: "json list \<Rightarrow> string \<Rightarrow> string" where
  "first_str vs fallback =
     (case List.map_filter as_str vs of [] \<Rightarrow> fallback | s # _ \<Rightarrow> s)"

definition native_failure :: "runner_request \<Rightarrow> int option \<Rightarrow> json \<Rightarrow> string option \<Rightarrow> string option" where
  "native_failure q exit r parse_error =
     (if native_verified q exit r then None
      else Some (case parse_error of
          Some e \<Rightarrow> e
        | None \<Rightarrow> first_str [json_index r ''error'', json_index r ''blocker'']
            (if \<not> native_identity q r then ''worker report has no matching backend/target receipt''
             else if \<not> native_runtime q r then ''guest runtime was not started''
             else if \<not> native_terminated q r then ''guest process termination is unconfirmed''
             else if \<not> native_intact q r then ''original input integrity is unconfirmed''
             else ''target-matching XNU/userspace boot evidence is incomplete'')))"

text \<open>The report value and the parse error of \<open>parsed\<close>.\<close>

definition report_of :: "(json, string) result \<Rightarrow> json option" where
  "report_of parsed = (case parsed of Inr v \<Rightarrow> Some v | Inl _ \<Rightarrow> None)"

definition parse_error_of :: "(json, string) result \<Rightarrow> string option" where
  "parse_error_of parsed = (case parsed of Inr _ \<Rightarrow> None | Inl e \<Rightarrow> Some e)"

definition report_or_null :: "(json, string) result \<Rightarrow> json" where
  "report_or_null parsed = (case report_of parsed of Some v \<Rightarrow> v | None \<Rightarrow> JNull)"

definition evaluate_native :: "runner_request \<Rightarrow> int option \<Rightarrow> (json, string) result \<Rightarrow> run_outcome" where
  "evaluate_native q exit parsed =
     (let r = report_or_null parsed in
      \<lparr>schema = ''nextcore.apls-host-run/1'', runner_pid = 0, runner_exit_code = exit,
       runner_completed = True, elapsed_seconds = 0, engine = backend_engine (run_backend q),
       guest_runtime_started = native_runtime q r,
       guest_process_terminated = native_terminated q r,
       xnu_executed = native_xnu q r, macos_userspace_reached = native_userspace q r,
       guest_target_match = native_target q r, input_integrity = native_intact q r,
       macos_boot_verified = native_verified q exit r, installation_verified = False,
       graphics_acceleration_verified = False, recovery_progress_of = None, stdout_sha256 = [],
       report = report_of parsed,
       failure = native_failure q exit r (parse_error_of parsed)\<rparr>)"

section \<open>Evidence behind a marker offset\<close>

lemma marker_offsets_iff:
  "off \<in> set (marker_offsets recognized ms) \<longleftrightarrow>
     (\<exists>m\<in>set (array_items ms). recognized m \<and> as_u64 (json_index m ''byte_offset'') = Some off)"
  by (force simp: marker_offsets_def offset_if_def List.map_filter_def split: if_splits)

lemma userspace_after_SomeD:
  assumes "userspace_after markers xnu_off = Some u"
  obtains x where "xnu_off = Some x" and "x < u"
    and "u \<in> set (marker_offsets userspace_marker (json_index markers ''userspace''))"
proof -
  have "u \<in> set (filter (\<lambda>off. case xnu_off of Some x \<Rightarrow> off > x | None \<Rightarrow> False)
      (marker_offsets userspace_marker (json_index markers ''userspace'')))"
    using iter_min_SomeD [OF assms [unfolded userspace_after_def]] by blast
  then show ?thesis using that by (auto split: option.splits)
qed

lemma report_or_null_simps [simp]:
  "report_or_null (Inl e) = JNull"
  "report_or_null (Inr v) = v"
  by (simp_all add: report_or_null_def report_of_def)

end
