(* ===== verification/Runner_Recovery.thy ===== *)
theory Runner_Recovery
  imports Runner_Report
begin

text \<open>
  The verdict on supervised recovery runs: \<open>evaluate_recovery_report\<close> of \<open>src/runner.rs\<close>, one
  definition per binding of the function over the request and the supervisor envelope \<open>e\<close>, and
  \<open>evaluate_report\<close>, which selects the evaluator. The locale \<open>verdict\<close> states what both
  evaluators promise to their caller.
\<close>

definition is_true :: "json \<Rightarrow> bool" where
  "is_true v \<longleftrightarrow> as_bool v = Some True"

section \<open>Identity\<close>

definition raw_of :: "json \<Rightarrow> json" where
  "raw_of e = json_path e [''launch_report'', ''raw'']"

definition canonical_output :: "json \<Rightarrow> string option" where
  "canonical_output e =
     (case as_str (json_index e ''output'') of
        Some p \<Rightarrow> if (p \<noteq> [] \<and> hd p = CHR ''/'') \<and> NUL \<notin> set p then Some p else None
      | None \<Rightarrow> None)"

definition recovery_identity :: "runner_request \<Rightarrow> json \<Rightarrow> bool" where
  "recovery_identity q e \<longleftrightarrow>
     as_str (json_index e ''schema'') = Some ''nextcore.recovery-supervisor/1'' \<and>
     as_u64 (json_index e ''target_major'') = Some (target64 q) \<and>
     as_str (json_index e ''requested_output'') = to_str (output_path q) \<and>
     canonical_output e \<noteq> None"

definition launch_identity :: "runner_request \<Rightarrow> json \<Rightarrow> bool" where
  "launch_identity q e \<longleftrightarrow>
     (let raw = raw_of e in
      recovery_identity q e \<and>
      as_str (json_path e [''launch_report'', ''raw_schema'']) = Some ''26x86.vmapple-gui/1'' \<and>
      is_true (json_path e [''launch_report'', ''identity_valid'']) \<and>
      as_str (json_index raw ''schema'') = Some ''26x86.vmapple-gui/1'' \<and>
      as_u64 (json_index raw ''target_major'') = Some (target64 q) \<and>
      as_str (json_index raw ''output'') = canonical_output e \<and>
      as_str (json_index raw ''machine_type'') = Some ''iBoot(AArch64)'' \<and>
      as_str (json_index raw ''personality'') = Some ''iBoot'' \<and>
      as_str (json_index raw ''guest_os'') = Some ''macOS'' \<and>
      as_str (json_index raw ''boot_mode'') = Some ''recovery'')"

section \<open>Processes and cleanup\<close>

text \<open>\<open>as_u64().filter(|pid| *pid > 0 && *pid <= u64::from(u32::MAX))\<close>.\<close>

definition pid_of :: "json \<Rightarrow> u64 option" where
  "pid_of v =
     (case as_u64 v of
        Some p \<Rightarrow> if p > 0 \<and> p \<le> 0xFFFFFFFF then Some p else None
      | None \<Rightarrow> None)"

definition worker_pid :: "json \<Rightarrow> u64 option" where
  "worker_pid e = pid_of (json_path e [''worker'', ''pid''])"

definition qemu_pid :: "json \<Rightarrow> u64 option" where
  "qemu_pid e = pid_of (json_index (raw_of e) ''pid'')"

definition runtime_pid_observed :: "json \<Rightarrow> bool" where
  "runtime_pid_observed e \<longleftrightarrow>
     worker_pid e \<noteq> None \<and> qemu_pid e \<noteq> None \<and> worker_pid e \<noteq> qemu_pid e \<and>
     is_true (json_path e [''worker'', ''process_inventory_complete'']) \<and>
     is_true (json_path e [''launch_report'', ''runtime_pid_observed'']) \<and>
     (case as_array (json_path e [''worker'', ''observed_processes'']) of
        None \<Rightarrow> False
      | Some processes \<Rightarrow>
          (case filter (\<lambda>process. as_u64 (json_index process ''pid'') = qemu_pid e) processes of
             [] \<Rightarrow> False
           | process # others \<Rightarrow>
               as_u64 (json_index process ''session'') = worker_pid e \<and>
               (case as_u64 (json_index process ''starttime'') of Some time \<Rightarrow> time > 0 | None \<Rightarrow> False) \<and>
               others = []))"

definition recovery_runtime :: "runner_request \<Rightarrow> json \<Rightarrow> bool" where
  "recovery_runtime q e \<longleftrightarrow>
     launch_identity q e \<and> is_true (json_index (raw_of e) ''runtime_started'') \<and>
     runtime_pid_observed e"

definition recovery_cleanup :: "runner_request \<Rightarrow> json \<Rightarrow> bool" where
  "recovery_cleanup q e \<longleftrightarrow>
     recovery_identity q e \<and>
     is_true (json_path e [''cleanup'', ''complete'']) \<and>
     is_true (json_path e [''cleanup'', ''leader_reaped'']) \<and>
     (case as_array (json_path e [''cleanup'', ''remaining_pids'']) of
        Some ps \<Rightarrow> ps = [] | None \<Rightarrow> False)"

definition recovery_terminated :: "runner_request \<Rightarrow> json \<Rightarrow> bool" where
  "recovery_terminated q e \<longleftrightarrow> recovery_runtime q e \<and> recovery_cleanup q e"

definition recovery_intact :: "runner_request \<Rightarrow> json \<Rightarrow> bool" where
  "recovery_intact q e \<longleftrightarrow>
     recovery_identity q e \<and> is_true (json_path e [''input_integrity'', ''unchanged''])"

section \<open>Progress\<close>

definition restore_roles :: "string list" where
  "restore_roles =
     [''RestoreTrustCache'', ''RestoreRamDisk'', ''RestoreDeviceTree'', ''RestoreKernelCache'',
      ''RestoreLogo'']"

definition role_uploaded :: "json \<Rightarrow> string \<Rightarrow> bool" where
  "role_uploaded raw role \<longleftrightarrow>
     (case as_array (json_path raw [''restore_chain'', ''steps'']) of
        None \<Rightarrow> False
      | Some steps \<Rightarrow> list_ex (\<lambda>step. as_str (json_index step ''role'') = Some role \<and>
          is_true (json_path step [''upload'', ''transfer_complete''])) steps)"

definition uploaded_roles :: "json \<Rightarrow> bool list" where
  "uploaded_roles raw = map (role_uploaded raw) restore_roles"

definition recovery_progress_value :: "runner_request \<Rightarrow> json \<Rightarrow> recovery_progress" where
  "recovery_progress_value q e =
     (let raw = raw_of e; uploaded = uploaded_roles raw in
      if recovery_runtime q e then
        \<lparr>dfu_upload_completed = is_true (json_path raw [''dfu_upload'', ''transfer_complete'']),
         ibec_endpoint_advertised =
           (as_str (json_path raw [''transition'', ''state'']) = Some ''ibec-ready''),
         stage2_banner_observed =
           (is_true (json_path raw [''stage2'', ''stage2_serial_started'']) \<and>
            as_u64 (json_path raw [''stage2'', ''stage2_serial_start_byte_offset'']) \<noteq> None),
         stage2_prompt_observed =
           (is_true (json_path raw [''stage2'', ''observed'']) \<and>
            as_u64 (json_path raw [''stage2'', ''byte_offset'']) \<noteq> None),
         restore_sequence_sent =
           (is_true (json_path raw [''restore_chain'', ''sequence_sent'']) \<and>
            is_true (json_path raw [''restore_chain'', ''input_integrity'']) \<and>
            list_all (\<lambda>complete. complete) (take 4 uploaded)),
         restore_role_step_count = word_of_nat (length (filter (\<lambda>complete. complete) uploaded)),
         bootx_acknowledged = is_true (json_path raw [''restore_chain'', ''bootx_acknowledged'']),
         firmware_panic_observed =
           (is_true (json_path raw [''guest_panic'', ''observed'']) \<or>
            is_true (json_path raw [''stage2'', ''panic_observed'']) \<or>
            is_true (json_path raw [''restore_chain'', ''post_bootx_panic'']))\<rparr>
      else progress_default)"

section \<open>Boot evidence\<close>

definition observation_of :: "json \<Rightarrow> json" where
  "observation_of raw =
     (case json_get raw ''observation'' of
        Some v \<Rightarrow> if is_object v then v else raw
      | None \<Rightarrow> raw)"

definition recovery_markers :: "json \<Rightarrow> json" where
  "recovery_markers e = json_index (observation_of (raw_of e)) ''observed_markers''"

definition recovery_xnu_offset :: "runner_request \<Rightarrow> json \<Rightarrow> u64 option" where
  "recovery_xnu_offset q e =
     iter_min (marker_offsets
       (\<lambda>m. xnu_marker m \<and> as_u64 (json_index m ''kernel_major'') = Some (target64 q))
       (json_index (recovery_markers e) ''xnu''))"

definition recovery_userspace_offset :: "runner_request \<Rightarrow> json \<Rightarrow> u64 option" where
  "recovery_userspace_offset q e = userspace_after (recovery_markers e) (recovery_xnu_offset q e)"

definition handoff_of :: "json \<Rightarrow> json" where
  "handoff_of e = json_index (raw_of e) ''iboot_xnu_handoff''"

definition handoff_identity :: "runner_request \<Rightarrow> json \<Rightarrow> bool" where
  "handoff_identity q e \<longleftrightarrow>
     (let handoff = handoff_of e in
      as_str (json_index handoff ''schema'') = Some ''26x86.iboot-xnu-handoff/1'' \<and>
      is_true (json_index handoff ''valid'') \<and>
      as_str (json_index handoff ''mode'') = Some ''recovery'' \<and>
      as_u64 (json_index handoff ''target_major'') = Some (target64 q))"

definition recovery_xnu :: "runner_request \<Rightarrow> json \<Rightarrow> bool" where
  "recovery_xnu q e \<longleftrightarrow>
     recovery_runtime q e \<and> recovery_xnu_offset q e \<noteq> None \<and>
     is_true (json_index (raw_of e) ''xnu_executed'') \<and>
     is_true (json_index (observation_of (raw_of e)) ''xnu_executed'') \<and>
     is_true (json_path e [''boot'', ''xnu_executed''])"

definition recovery_userspace :: "runner_request \<Rightarrow> json \<Rightarrow> bool" where
  "recovery_userspace q e \<longleftrightarrow>
     recovery_xnu q e \<and> recovery_userspace_offset q e \<noteq> None \<and>
     is_true (json_index (observation_of (raw_of e)) ''macos_userspace_reached'') \<and>
     is_true (json_path e [''boot'', ''userspace''])"

definition recovery_target :: "runner_request \<Rightarrow> json \<Rightarrow> bool" where
  "recovery_target q e \<longleftrightarrow>
     (let raw = raw_of e; observation = observation_of raw in
      recovery_xnu q e \<and>
      as_u64 (json_index raw ''guest_kernel_major'') = Some (target64 q) \<and>
      as_u64 (json_index observation ''guest_kernel_major'') = Some (target64 q) \<and>
      as_u64 (json_path e [''boot'', ''guest_kernel_major'']) = Some (target64 q) \<and>
      is_true (json_index raw ''guest_target_match'') \<and>
      is_true (json_index observation ''guest_target_match'') \<and>
      is_true (json_path e [''boot'', ''target_match'']))"

definition recovery_complete :: "json \<Rightarrow> bool" where
  "recovery_complete e \<longleftrightarrow>
     is_true (json_path e [''launch_report'', ''complete'']) \<and>
     is_true (json_path e [''worker'', ''completed'']) \<and>
     as_i64 (json_path e [''worker'', ''returncode'']) = Some 0"

definition uninterrupted :: "json \<Rightarrow> bool" where
  "uninterrupted e \<longleftrightarrow>
     as_bool (json_path e [''deadline'', ''exceeded'']) = Some False \<and>
     as_bool (json_path e [''cancel'', ''requested'']) = Some False"

section \<open>The verdict\<close>

definition recovery_verified :: "runner_request \<Rightarrow> int option \<Rightarrow> json \<Rightarrow> bool" where
  "recovery_verified q exit e \<longleftrightarrow>
     (let raw = raw_of e; handoff = handoff_of e; progress = recovery_progress_value q e in
      exit = Some 0 \<and> recovery_complete e \<and> uninterrupted e \<and> recovery_terminated q e \<and>
      recovery_intact q e \<and> recovery_xnu q e \<and> recovery_userspace q e \<and> recovery_target q e \<and>
      is_true (json_index raw ''input_integrity'') \<and> is_null (json_index raw ''error'') \<and>
      is_null (json_index e ''error'') \<and> is_true (json_index raw ''macos_boot_verified'') \<and>
      is_true (json_path e [''boot'', ''macos_boot_verified'']) \<and> handoff_identity q e \<and>
      is_true (json_path handoff [''claims'', ''xnu_executed'']) \<and>
      is_true (json_path handoff [''claims'', ''macos_userspace_reached'']) \<and>
      is_true (json_path handoff [''claims'', ''macos_boot_verified'']) \<and>
      dfu_upload_completed progress \<and> ibec_endpoint_advertised progress \<and>
      stage2_prompt_observed progress \<and> restore_sequence_sent progress \<and>
      bootx_acknowledged progress \<and> \<not> firmware_panic_observed progress \<and>
      (case (as_u64 (json_path raw [''stage2'', ''byte_offset'']), recovery_xnu_offset q e) of
         (Some stage2, Some xnu) \<Rightarrow> stage2 < xnu
       | _ \<Rightarrow> False))"

definition recovery_failure :: "runner_request \<Rightarrow> int option \<Rightarrow> json \<Rightarrow> string option \<Rightarrow> string option" where
  "recovery_failure q exit e parse_error =
     (if recovery_verified q exit e then None
      else Some (case parse_error of
          Some err \<Rightarrow> err
        | None \<Rightarrow>
            if \<not> recovery_identity q e \<or> \<not> launch_identity q e
            then ''recovery receipt has no matching supervisor/launch identity''
            else if \<not> recovery_runtime q e
            then ''recovery QEMU process identity was not observed in this run''
            else if \<not> recovery_cleanup q e then ''Linux guest process cleanup is unconfirmed''
            else if \<not> recovery_intact q e
            then ''original recovery input integrity is unconfirmed''
            else if \<not> uninterrupted e then ''recovery was cancelled or exceeded its deadline''
            else first_str
              [json_index e ''error'', json_index (raw_of e) ''error'',
               json_index (raw_of e) ''transition_blocker'',
               json_path (raw_of e) [''golden_gate_installation'', ''blocker'']]
              ''recovery completed-unverified: target-matching XNU/userspace evidence is incomplete''))"

definition evaluate_recovery_report ::
    "runner_request \<Rightarrow> int option \<Rightarrow> (json, string) result \<Rightarrow> run_outcome" where
  "evaluate_recovery_report q exit parsed =
     (let e = report_or_null parsed in
      \<lparr>schema = ''nextcore.apls-host-run/1'', runner_pid = 0, runner_exit_code = exit,
       runner_completed = True, elapsed_seconds = 0, engine = backend_engine (run_backend q),
       guest_runtime_started = recovery_runtime q e,
       guest_process_terminated = recovery_terminated q e,
       xnu_executed = recovery_xnu q e, macos_userspace_reached = recovery_userspace q e,
       guest_target_match = recovery_target q e, input_integrity = recovery_intact q e,
       macos_boot_verified = recovery_verified q exit e, installation_verified = False,
       graphics_acceleration_verified = False,
       recovery_progress_of = Some (recovery_progress_value q e), stdout_sha256 = [],
       report = report_of parsed,
       failure = recovery_failure q exit e (parse_error_of parsed)\<rparr>)"

definition evaluate_report ::
    "runner_request \<Rightarrow> int option \<Rightarrow> (json, string) result \<Rightarrow> run_outcome" where
  "evaluate_report q exit parsed =
     (if is_recovery (run_backend q) then evaluate_recovery_report q exit parsed
      else evaluate_native q exit parsed)"

section \<open>The contract of an evaluator\<close>

locale verdict =
  fixes eval :: "runner_request \<Rightarrow> int option \<Rightarrow> (json, string) result \<Rightarrow> run_outcome"
  assumes failure_iff: "failure (eval q exit parsed) = None \<longleftrightarrow> macos_boot_verified (eval q exit parsed)"
    and verified_flags: "macos_boot_verified (eval q exit parsed) \<Longrightarrow>
      exit = Some 0 \<and> guest_runtime_started (eval q exit parsed) \<and>
      guest_process_terminated (eval q exit parsed) \<and> xnu_executed (eval q exit parsed) \<and>
      macos_userspace_reached (eval q exit parsed) \<and> guest_target_match (eval q exit parsed) \<and>
      input_integrity (eval q exit parsed)"
    and terminated_runtime:
      "guest_process_terminated (eval q exit parsed) \<Longrightarrow> guest_runtime_started (eval q exit parsed)"
    and runtime_report: "guest_runtime_started (eval q exit parsed) \<Longrightarrow> \<exists>r. parsed = Inr r"
    and parse_failure: "failure (eval q exit (Inl e)) = Some e"
    and nothing_else: "\<not> installation_verified (eval q exit parsed)"
      "\<not> graphics_acceleration_verified (eval q exit parsed)"
    and report_kept: "report (eval q exit parsed) = report_of parsed"
begin

lemma state_cases:
  "guest_state_of (eval q exit parsed) =
     (if macos_boot_verified (eval q exit parsed) then Stopped
      else Faulted (the (failure (eval q exit parsed))))"
  using failure_iff [of q exit parsed]
  by (auto simp: guest_state_of_def split: option.splits)

lemma never_active: "guest_state_of (eval q exit parsed) \<notin> {Running, Paused}"
  by (simp add: state_cases)

lemma verified_report: "macos_boot_verified (eval q exit parsed) \<Longrightarrow> \<exists>r. parsed = Inr r"
  using verified_flags runtime_report by blast

lemma no_report_no_claims:
  "\<not> guest_runtime_started (eval q exit (Inl e))" "\<not> macos_boot_verified (eval q exit (Inl e))"
  "\<not> guest_process_terminated (eval q exit (Inl e))"
  using runtime_report terminated_runtime verified_report by blast+

end

lemma native_runtime_null: "\<not> native_runtime q JNull"
  by (simp add: native_runtime_def native_identity_def)

interpretation native_verdict: verdict evaluate_native
proof unfold_locales
  fix q exit and parsed :: "(json, string) result" and e
  let ?o = "evaluate_native q exit parsed"
  show "failure ?o = None \<longleftrightarrow> macos_boot_verified ?o"
    by (simp add: evaluate_native_def native_failure_def Let_def)
  show "exit = Some 0 \<and> guest_runtime_started ?o \<and> guest_process_terminated ?o \<and> xnu_executed ?o \<and>
      macos_userspace_reached ?o \<and> guest_target_match ?o \<and> input_integrity ?o"
    if "macos_boot_verified ?o"
    using that by (simp add: evaluate_native_def native_verified_def native_terminated_def Let_def)
  show "guest_runtime_started ?o" if "guest_process_terminated ?o"
    using that by (simp add: evaluate_native_def native_terminated_def Let_def)
  show "\<exists>r. parsed = Inr r" if "guest_runtime_started ?o"
    using that native_runtime_null [of q] by (cases parsed) (auto simp: evaluate_native_def Let_def)
  show "failure (evaluate_native q exit (Inl e)) = Some e"
    using native_runtime_null [of q]
    by (simp add: evaluate_native_def native_failure_def native_verified_def native_terminated_def
        parse_error_of_def Let_def)
qed (simp_all add: evaluate_native_def Let_def)

lemma recovery_runtime_null: "\<not> recovery_runtime q JNull"
  by (simp add: recovery_runtime_def launch_identity_def recovery_identity_def)

interpretation recovery_verdict: verdict evaluate_recovery_report
proof unfold_locales
  fix q exit and parsed :: "(json, string) result" and e
  let ?o = "evaluate_recovery_report q exit parsed"
  show "failure ?o = None \<longleftrightarrow> macos_boot_verified ?o"
    by (simp add: evaluate_recovery_report_def recovery_failure_def Let_def)
  show "exit = Some 0 \<and> guest_runtime_started ?o \<and> guest_process_terminated ?o \<and> xnu_executed ?o \<and>
      macos_userspace_reached ?o \<and> guest_target_match ?o \<and> input_integrity ?o"
    if "macos_boot_verified ?o"
    using that
    by (simp add: evaluate_recovery_report_def recovery_verified_def recovery_terminated_def Let_def)
  show "guest_runtime_started ?o" if "guest_process_terminated ?o"
    using that by (simp add: evaluate_recovery_report_def recovery_terminated_def Let_def)
  show "\<exists>r. parsed = Inr r" if "guest_runtime_started ?o"
    using that recovery_runtime_null [of q]
    by (cases parsed) (auto simp: evaluate_recovery_report_def Let_def)
  show "failure (evaluate_recovery_report q exit (Inl e)) = Some e"
    using recovery_runtime_null [of q]
    by (simp add: evaluate_recovery_report_def recovery_failure_def recovery_verified_def
        recovery_terminated_def parse_error_of_def Let_def)
qed (simp_all add: evaluate_recovery_report_def Let_def)

interpretation report_verdict: verdict evaluate_report
proof unfold_locales
  fix q exit and parsed :: "(json, string) result" and e
  let ?o = "evaluate_report q exit parsed"
  have o: "evaluate_report q x p =
      (if is_recovery (run_backend q) then evaluate_recovery_report q x p else evaluate_native q x p)" for x p
    by (simp add: evaluate_report_def)
  note laws = native_verdict.failure_iff native_verdict.parse_failure native_verdict.nothing_else
    native_verdict.report_kept recovery_verdict.failure_iff recovery_verdict.parse_failure
    recovery_verdict.nothing_else recovery_verdict.report_kept
  show "failure ?o = None \<longleftrightarrow> macos_boot_verified ?o" by (simp add: o laws)
  show "exit = Some 0 \<and> guest_runtime_started ?o \<and> guest_process_terminated ?o \<and> xnu_executed ?o \<and>
      macos_userspace_reached ?o \<and> guest_target_match ?o \<and> input_integrity ?o"
    if "macos_boot_verified ?o"
    using that unfolding o
    by (cases "is_recovery (run_backend q)"; simp only: if_True if_False)
      (use native_verdict.verified_flags recovery_verdict.verified_flags in blast)+
  show "guest_runtime_started ?o" if "guest_process_terminated ?o"
    using that native_verdict.terminated_runtime [of q exit parsed]
      recovery_verdict.terminated_runtime [of q exit parsed] by (simp add: o split: if_splits)
  show "\<exists>r. parsed = Inr r" if "guest_runtime_started ?o"
    using that native_verdict.runtime_report [of q exit parsed]
      recovery_verdict.runtime_report [of q exit parsed] by (simp add: o split: if_splits)
  show "failure (evaluate_report q exit (Inl e)) = Some e" by (simp add: o laws)
  show "\<not> installation_verified ?o" "\<not> graphics_acceleration_verified ?o"
      "report ?o = report_of parsed" by (simp_all add: o laws)
qed

end
