(* ===== verification/Runner_Samples.thy ===== *)
theory Runner_Samples
  imports Runner_Recovery
begin

text \<open>
  The receipts of the tests of \<open>src/runner.rs\<close> as JSON values, and the evaluation of each stage
  of the verdict on them: a raw-TCG worker report and a strict recovery receipt, both verified.
\<close>

section \<open>Sample receipts\<close>

definition num :: "nat \<Rightarrow> json" where
  "num n = JNumber (PosInt (word_of_nat n))"

definition sample_report :: json where
  "sample_report = JObject
     [(''schema'', JString ''26x86.vmapple-tcg/1''), (''engine'', JString ''qemu-vmapple-tcg''),
      (''target_major'', num 27), (''tcg_runtime_started'', JBool True), (''returncode'', num 0),
      (''termination'', JString ''guest_exit''), (''xnu_executed'', JBool True),
      (''macos_userspace_reached'', JBool True), (''guest_target_match'', JBool True),
      (''guest_kernel_major'', num 27), (''input_integrity'', JBool True),
      (''macos_boot_verified'', JBool True),
      (''observed_markers'', JObject
        [(''xnu'', JArray [JObject [(''marker'', JString ''Darwin Kernel Version''),
            (''byte_offset'', num 100), (''kernel_major'', num 27)]]),
         (''userspace'', JArray [JObject [(''marker'', JString ''launchd:''),
            (''byte_offset'', num 200)]])])]"

definition sample_steps :: json where
  "sample_steps = JArray (map (\<lambda>role. JObject [(''role'', JString role),
     (''upload'', JObject [(''transfer_complete'', JBool True)])])
     [''RestoreTrustCache'', ''RestoreRamDisk'', ''RestoreDeviceTree'', ''RestoreKernelCache''])"

definition sample_worker :: json where
  "sample_worker = JObject
     [(''pid'', num 12), (''returncode'', num 0), (''completed'', JBool True),
      (''process_inventory_complete'', JBool True),
      (''observed_processes'', JArray
        [JObject [(''pid'', num 12), (''starttime'', num 100), (''session'', num 12)],
         JObject [(''pid'', num 13), (''starttime'', num 110), (''session'', num 12)]])]"

definition sample_markers :: json where
  "sample_markers = JObject
     [(''xnu'', JArray [JObject [(''marker'', JString ''Darwin Kernel Version''),
        (''kernel_major'', num 27), (''byte_offset'', num 100)]]),
      (''userspace'', JArray [JObject [(''marker'', JString ''launchd:''), (''byte_offset'', num 200)]])]"

definition sample_handoff_value :: json where
  "sample_handoff_value = JObject
     [(''schema'', JString ''26x86.iboot-xnu-handoff/1''), (''valid'', JBool True),
      (''target_major'', num 27), (''mode'', JString ''recovery''),
      (''claims'', JObject [(''xnu_executed'', JBool True),
        (''macos_userspace_reached'', JBool True), (''macos_boot_verified'', JBool True)])]"

text \<open>The launch report with and without evidence of a boot, and the receipt around it.\<close>

definition launch_of :: "bool \<Rightarrow> json \<Rightarrow> (string \<times> json) list \<Rightarrow> json" where
  "launch_of booted major evidence = JObject
     ([(''schema'', JString ''26x86.vmapple-gui/1''), (''target_major'', num 27),
       (''output'', JString ''/output/new-run''), (''machine_type'', JString ''iBoot(AArch64)''),
       (''personality'', JString ''iBoot''), (''guest_os'', JString ''macOS''),
       (''boot_mode'', JString ''recovery''), (''runtime_started'', JBool True), (''pid'', num 13),
       (''returncode'', num 0), (''termination'', JString ''time_budget''),
       (''dfu_upload'', JObject [(''transfer_complete'', JBool True)]),
       (''transition'', JObject [(''state'', JString ''ibec-ready'')]),
       (''stage2'', JObject [(''stage2_serial_started'', JBool True),
         (''stage2_serial_start_byte_offset'', num 5), (''observed'', JBool True),
         (''byte_offset'', num 20)]),
       (''restore_chain'', JObject [(''sequence_sent'', JBool True),
         (''input_integrity'', JBool True), (''bootx_acknowledged'', JBool True),
         (''steps'', sample_steps)]),
       (''guest_panic'', JObject [(''observed'', JBool False)]), (''input_integrity'', JBool True),
       (''xnu_executed'', JBool booted), (''guest_kernel_major'', major),
       (''guest_target_match'', JBool booted), (''macos_boot_verified'', JBool booted),
       (''error'', JNull)] @ evidence)"

definition receipt_of :: "json \<Rightarrow> bool \<Rightarrow> json \<Rightarrow> json" where
  "receipt_of raw booted major = JObject
     [(''schema'', JString ''nextcore.recovery-supervisor/1''), (''target_major'', num 27),
      (''requested_output'', JString ''/output/new-run''), (''output'', JString ''/output/new-run''),
      (''supervisor_pid'', num 11), (''worker'', sample_worker),
      (''cleanup'', JObject [(''leader_reaped'', JBool True), (''remaining_pids'', JArray []),
        (''complete'', JBool True)]),
      (''input_integrity'', JObject [(''unchanged'', JBool True), (''records'', JArray [])]),
      (''deadline'', JObject [(''total_timeout_seconds'', num 75), (''cleanup_grace_seconds'', num 5),
        (''exceeded'', JBool False)]),
      (''cancel'', JObject [(''requested'', JBool False), (''reason'', JNull), (''signal'', JNull)]),
      (''launch_report'', JObject [(''path'', JString ''/output/new-run/launch.json''),
        (''complete'', JBool True), (''raw_schema'', JString ''26x86.vmapple-gui/1''),
        (''identity_valid'', JBool True), (''runtime_pid_observed'', JBool True), (''raw'', raw)]),
      (''boot'', JObject [(''xnu_executed'', JBool booted), (''guest_kernel_major'', major),
        (''target_match'', JBool booted), (''userspace'', JBool booted),
        (''macos_boot_verified'', JBool booted)])]"

definition recovery_receipt :: json where
  "recovery_receipt = receipt_of (launch_of False JNull []) False JNull"

definition sample_raw_launch :: json where
  "sample_raw_launch = launch_of True (num 27)
     [(''macos_userspace_reached'', JBool True), (''observed_markers'', sample_markers),
      (''iboot_xnu_handoff'', sample_handoff_value)]"

definition sample_receipt :: json where
  "sample_receipt = receipt_of sample_raw_launch True (num 27)"

lemmas sample_receipt_text = sample_receipt_def receipt_of_def sample_worker_def

lemmas sample_raw_text = sample_raw_launch_def launch_of_def sample_markers_def sample_handoff_value_def

text \<open>A sample is read by unfolding the accessors on its literal text.\<close>

lemmas native_verdict_defs = native_verified_def native_terminated_def native_xnu_def
  native_userspace_def native_target_def native_intact_def native_runtime_def native_identity_def
  native_xnu_offset_def native_userspace_offset_def

lemmas json_reads = json_index_def yes_def is_true_def xnu_marker_def userspace_marker_def
  offset_if_def marker_offsets_def array_items_def iter_min_def userspace_after_def
  List.map_filter_def num_def target64_def

lemma sample_target: "target64 sample_request = 27" "target64 sample_recovery_request = 27"
  by (simp_all add: target64_def sample_recovery_request_def sample_request_def)

lemma sample_native_verified: "native_verified sample_request (Some 0) sample_report"
  unfolding native_verdict_defs sample_target
  by (simp add: sample_request_def) (simp add: sample_report_def json_reads)

lemma sample_report_verified:
  "macos_boot_verified (evaluate_report sample_request (Some 0) (Inr sample_report))"
  using sample_native_verified
  by (simp add: evaluate_report_def evaluate_native_def Let_def sample_request_def)

lemmas recovery_verdict_defs = recovery_complete_def uninterrupted_def recovery_terminated_def
  recovery_runtime_def recovery_cleanup_def recovery_intact_def recovery_xnu_def
  recovery_userspace_def recovery_target_def handoff_identity_def recovery_progress_value_def
  recovery_xnu_offset_def recovery_userspace_offset_def recovery_markers_def

lemma sample_raw: "raw_of sample_receipt = sample_raw_launch"
  by (simp add: raw_of_def sample_receipt_text json_reads)

lemma sample_observation: "observation_of sample_raw_launch = sample_raw_launch"
  by (simp add: observation_of_def sample_raw_text)

lemma sample_identity: "launch_identity sample_recovery_request sample_receipt"
    "recovery_identity sample_recovery_request sample_receipt"
  unfolding launch_identity_def recovery_identity_def canonical_output_def sample_raw sample_target
    Let_def
  by (simp_all add: sample_receipt_text sample_raw_text json_reads)
    (simp_all add: sample_recovery_request_def sample_request_def to_str_def ascii_is_str NUL_def)

lemma sample_pids: "worker_pid sample_receipt = Some 12" "qemu_pid sample_receipt = Some 13"
  unfolding worker_pid_def qemu_pid_def sample_raw pid_of_def
  by (simp_all add: sample_receipt_text sample_raw_text json_reads)

lemma sample_runtime: "recovery_runtime sample_recovery_request sample_receipt"
  unfolding recovery_runtime_def runtime_pid_observed_def sample_pids sample_raw
  using sample_identity
  by simp (simp add: sample_receipt_text sample_raw_text json_reads)

lemma sample_xnu_offset: "recovery_xnu_offset sample_recovery_request sample_receipt = Some 100"
  unfolding recovery_xnu_offset_def recovery_markers_def sample_raw sample_observation sample_target
  by (simp add: sample_raw_text json_reads)

lemma sample_userspace_offset: "recovery_userspace_offset sample_recovery_request sample_receipt = Some 200"
  unfolding recovery_userspace_offset_def recovery_markers_def sample_raw sample_observation
    sample_xnu_offset
  by (simp add: sample_raw_text json_reads)

lemma sample_steps_uploaded:
  "take 4 (uploaded_roles sample_raw_launch) = [True, True, True, True]"
  by (simp add: uploaded_roles_def restore_roles_def role_uploaded_def sample_raw_text
      sample_steps_def json_reads)

lemma sample_progress:
  "dfu_upload_completed (recovery_progress_value sample_recovery_request sample_receipt)"
  "ibec_endpoint_advertised (recovery_progress_value sample_recovery_request sample_receipt)"
  "stage2_prompt_observed (recovery_progress_value sample_recovery_request sample_receipt)"
  "restore_sequence_sent (recovery_progress_value sample_recovery_request sample_receipt)"
  "bootx_acknowledged (recovery_progress_value sample_recovery_request sample_receipt)"
  "\<not> firmware_panic_observed (recovery_progress_value sample_recovery_request sample_receipt)"
  unfolding recovery_progress_value_def Let_def sample_raw
  by (simp_all add: sample_runtime sample_steps_uploaded)
    (simp_all add: sample_raw_text json_reads)

lemma sample_stages:
  "recovery_complete sample_receipt" "uninterrupted sample_receipt"
  "recovery_cleanup sample_recovery_request sample_receipt"
  "recovery_intact sample_recovery_request sample_receipt"
  unfolding recovery_complete_def uninterrupted_def recovery_cleanup_def recovery_intact_def
  using sample_identity
  by simp_all (simp_all add: sample_receipt_text json_reads)

lemma sample_xnu:
  "recovery_xnu sample_recovery_request sample_receipt"
  "recovery_userspace sample_recovery_request sample_receipt"
  unfolding recovery_userspace_def recovery_xnu_def sample_raw sample_observation
    sample_xnu_offset sample_userspace_offset
  using sample_runtime
  by simp_all (simp_all add: sample_receipt_text sample_raw_text json_reads)

lemma sample_target_match: "recovery_target sample_recovery_request sample_receipt"
  unfolding recovery_target_def sample_raw sample_observation sample_target Let_def
  using sample_xnu
  by simp (simp add: sample_receipt_text sample_raw_text json_reads)

lemma sample_handoff: "handoff_identity sample_recovery_request sample_receipt"
  unfolding handoff_identity_def handoff_of_def sample_raw sample_target Let_def
  by (simp add: sample_raw_text json_reads)

lemma sample_recovery_verified: "recovery_verified sample_recovery_request (Some 0) sample_receipt"
  unfolding recovery_verified_def Let_def handoff_of_def sample_raw recovery_terminated_def
    sample_xnu_offset
  using sample_progress sample_stages sample_xnu sample_target_match sample_handoff sample_runtime
  by simp (simp add: sample_receipt_text sample_raw_text json_reads)

lemma sample_receipt_verified:
  "macos_boot_verified (evaluate_report sample_recovery_request (Some 0) (Inr sample_receipt))"
  using sample_recovery_verified
  by (simp add: evaluate_report_def evaluate_recovery_report_def Let_def sample_recovery_request_def)

end
