(* ===== verification/Runner_Evidence.thy ===== *)
theory Runner_Evidence
  imports Runner_Samples "HOL-Library.AList"
begin

text \<open>
  Which fields of a report a boot verdict depends on: for every backend the table of the fields that
  \<open>evaluate_report\<close> of \<open>src/runner.rs\<close> requires, each with its condition. A report in which one of
  them is overwritten with anything that misses the condition is never verified. This is the
  statement behind the tests of the source that overwrite one field of one receipt
  (\<open>Value::pointer_mut\<close>), for all reports.
\<close>

section \<open>Overwriting a field\<close>

text \<open>\<open>*v.pointer_mut("/a/b").unwrap() = x\<close>: the pointer as the list of its tokens, an array element
  named by its decimal index; \<open>None\<close> where the source panics.\<close>

definition token_index :: "string \<Rightarrow> nat \<Rightarrow> nat option" where
  "token_index k n = find (\<lambda>i. decimal i = k) [0..<n]"

fun pointer_set :: "string list \<Rightarrow> json \<Rightarrow> json \<Rightarrow> json option" where
  "pointer_set [] x v = Some x"
| "pointer_set (k # ks) x (JObject kvs) =
     (case map_of kvs k of
        None \<Rightarrow> None
      | Some v \<Rightarrow> map_option (\<lambda>v'. JObject (AList.update k v' kvs)) (pointer_set ks x v))"
| "pointer_set (k # ks) x (JArray vs) =
     (case token_index k (length vs) of
        None \<Rightarrow> None
      | Some i \<Rightarrow> map_option (\<lambda>v'. JArray (vs[i := v'])) (pointer_set ks x (vs ! i)))"
| "pointer_set (k # ks) x _ = None"

text \<open>A token that names an entry, not an element.\<close>

definition names_entry :: "string \<Rightarrow> bool" where
  "names_entry k \<longleftrightarrow> k = [] \<or> hd k \<notin> set ''0123456789''"

lemma token_index_entry: "names_entry k \<Longrightarrow> token_index k n = None"
proof -
  assume "names_entry k"
  then have "decimal i \<noteq> k" for i
    using decimal_nonempty [of i] decimal_digits [of i] hd_in_set [of "decimal i"]
    unfolding names_entry_def by blast
  then show ?thesis by (simp add: token_index_def find_None_iff)
qed

lemma json_path_set:
  "pointer_set ks x e = Some e' \<Longrightarrow> list_all names_entry ks \<Longrightarrow> json_path e' ks = x"
proof (induction ks x e arbitrary: e' rule: pointer_set.induct)
  case (2 k ks x kvs)
  then obtain v v' where "map_of kvs k = Some v" "pointer_set ks x v = Some v'"
      "e' = JObject (AList.update k v' kvs)"
    by (auto split: option.splits)
  moreover have "json_path v' ks = x" using 2 calculation by simp
  ultimately show ?case by (simp add: json_index_def update_conv')
qed (auto simp: token_index_entry)

section \<open>The required fields\<close>

type_synonym requirement = "string list \<times> (json \<Rightarrow> bool)"

definition says :: "string \<Rightarrow> json \<Rightarrow> bool" where
  "says s v \<longleftrightarrow> as_str v = Some s"

definition counts :: "u64 \<Rightarrow> json \<Rightarrow> bool" where
  "counts n v \<longleftrightarrow> as_u64 v = Some n"

definition absolute :: "json \<Rightarrow> bool" where
  "absolute v \<longleftrightarrow>
     (case as_str v of Some p \<Rightarrow> p \<noteq> [] \<and> hd p = CHR ''/'' \<and> NUL \<notin> set p | None \<Rightarrow> False)"

definition nonempty_array :: "json \<Rightarrow> bool" where
  "nonempty_array v \<longleftrightarrow> (case as_array v of Some vs \<Rightarrow> vs \<noteq> [] | None \<Rightarrow> False)"

abbreviation raw_field :: "string \<Rightarrow> string list" where
  "raw_field k \<equiv> [''launch_report'', ''raw'', k]"

abbreviation raw_field2 :: "string \<Rightarrow> string \<Rightarrow> string list" where
  "raw_field2 k l \<equiv> [''launch_report'', ''raw'', k, l]"

text \<open>Needed to count the guest as started, as terminated, and as booted.\<close>

definition identity_fields :: "runner_request \<Rightarrow> requirement list" where
  "identity_fields q =
     [([''schema''], says ''nextcore.recovery-supervisor/1''),
      ([''target_major''], counts (target64 q)),
      ([''requested_output''], \<lambda>v. as_str v = to_str (output_path q)),
      ([''output''], absolute),
      ([''launch_report'', ''raw_schema''], says ''26x86.vmapple-gui/1''),
      ([''launch_report'', ''identity_valid''], is_true),
      (raw_field ''schema'', says ''26x86.vmapple-gui/1''),
      (raw_field ''target_major'', counts (target64 q)),
      (raw_field ''output'', absolute),
      (raw_field ''machine_type'', says ''iBoot(AArch64)''),
      (raw_field ''personality'', says ''iBoot''),
      (raw_field ''guest_os'', says ''macOS''),
      (raw_field ''boot_mode'', says ''recovery''),
      (raw_field ''runtime_started'', is_true),
      (raw_field ''pid'', \<lambda>v. pid_of v \<noteq> None),
      ([''worker'', ''pid''], \<lambda>v. pid_of v \<noteq> None),
      ([''worker'', ''process_inventory_complete''], is_true),
      ([''launch_report'', ''runtime_pid_observed''], is_true),
      ([''worker'', ''observed_processes''], nonempty_array)]"

definition cleanup_fields :: "requirement list" where
  "cleanup_fields =
     [([''cleanup'', ''complete''], is_true), ([''cleanup'', ''leader_reaped''], is_true),
      ([''cleanup'', ''remaining_pids''], \<lambda>v. as_array v = Some [])]"

definition evidence_fields :: "runner_request \<Rightarrow> requirement list" where
  "evidence_fields q =
     [([''input_integrity'', ''unchanged''], is_true), ([''launch_report'', ''complete''], is_true),
      ([''worker'', ''completed''], is_true), ([''worker'', ''returncode''], \<lambda>v. as_i64 v = Some 0),
      ([''deadline'', ''exceeded''], \<lambda>v. as_bool v = Some False),
      ([''cancel'', ''requested''], \<lambda>v. as_bool v = Some False), ([''error''], is_null),
      ([''boot'', ''xnu_executed''], is_true), ([''boot'', ''userspace''], is_true),
      ([''boot'', ''guest_kernel_major''], counts (target64 q)),
      ([''boot'', ''target_match''], is_true), ([''boot'', ''macos_boot_verified''], is_true),
      (raw_field ''xnu_executed'', is_true), (raw_field ''guest_kernel_major'', counts (target64 q)),
      (raw_field ''guest_target_match'', is_true), (raw_field ''input_integrity'', is_true),
      (raw_field ''error'', is_null), (raw_field ''macos_boot_verified'', is_true),
      (raw_field2 ''dfu_upload'' ''transfer_complete'', is_true),
      (raw_field2 ''transition'' ''state'', says ''ibec-ready''),
      (raw_field2 ''stage2'' ''observed'', is_true),
      (raw_field2 ''stage2'' ''byte_offset'', \<lambda>v. as_u64 v \<noteq> None),
      (raw_field2 ''stage2'' ''panic_observed'', \<lambda>v. \<not> is_true v),
      (raw_field2 ''restore_chain'' ''sequence_sent'', is_true),
      (raw_field2 ''restore_chain'' ''input_integrity'', is_true),
      (raw_field2 ''restore_chain'' ''steps'', nonempty_array),
      (raw_field2 ''restore_chain'' ''bootx_acknowledged'', is_true),
      (raw_field2 ''restore_chain'' ''post_bootx_panic'', \<lambda>v. \<not> is_true v),
      (raw_field2 ''guest_panic'' ''observed'', \<lambda>v. \<not> is_true v),
      (raw_field2 ''iboot_xnu_handoff'' ''schema'', says ''26x86.iboot-xnu-handoff/1''),
      (raw_field2 ''iboot_xnu_handoff'' ''valid'', is_true),
      (raw_field2 ''iboot_xnu_handoff'' ''mode'', says ''recovery''),
      (raw_field2 ''iboot_xnu_handoff'' ''target_major'', counts (target64 q)),
      ([''launch_report'', ''raw'', ''iboot_xnu_handoff'', ''claims'', ''xnu_executed''], is_true),
      ([''launch_report'', ''raw'', ''iboot_xnu_handoff'', ''claims'', ''macos_userspace_reached''], is_true),
      ([''launch_report'', ''raw'', ''iboot_xnu_handoff'', ''claims'', ''macos_boot_verified''], is_true)]"

definition native_identity_fields :: "runner_request \<Rightarrow> requirement list" where
  "native_identity_fields q =
     [([''schema''], says (backend_schema (run_backend q))),
      ([''engine''], says (backend_engine (run_backend q))),
      ([''target_major''], counts (target64 q)),
      ([if is_native (run_backend q) then ''native_runtime_started'' else ''tcg_runtime_started''],
        is_true)]"

definition native_cleanup_fields :: "requirement list" where
  "native_cleanup_fields =
     [([''returncode''], \<lambda>v. as_i64 v \<noteq> None),
      ([''termination''], \<lambda>v. as_str v \<noteq> None \<and> as_str v \<noteq> Some [])]"

definition native_evidence_fields :: "runner_request \<Rightarrow> requirement list" where
  "native_evidence_fields q =
     [([''xnu_executed''], is_true), ([''macos_userspace_reached''], is_true),
      ([''guest_target_match''], is_true), ([''guest_kernel_major''], counts (target64 q)),
      ([''input_integrity''], is_true), ([''guest_inputs_modified''], \<lambda>v. \<not> is_true v),
      ([''macos_boot_verified''], is_true), ([''error''], is_null),
      ([''observed_markers'', ''xnu''], nonempty_array),
      ([''observed_markers'', ''userspace''], nonempty_array)]"

definition started_fields :: "runner_request \<Rightarrow> requirement list" where
  "started_fields q =
     (if is_recovery (run_backend q) then identity_fields q else native_identity_fields q)"

definition terminated_fields :: "runner_request \<Rightarrow> requirement list" where
  "terminated_fields q = started_fields q @
     (if is_recovery (run_backend q) then cleanup_fields else native_cleanup_fields)"

definition verified_fields :: "runner_request \<Rightarrow> requirement list" where
  "verified_fields q = terminated_fields q @
     (if is_recovery (run_backend q) then evidence_fields q else native_evidence_fields q)"

definition meets :: "json \<Rightarrow> requirement list \<Rightarrow> bool" where
  "meets e rows \<longleftrightarrow> list_all (\<lambda>(ks, ok). ok (json_path e ks)) rows"

section \<open>Reports that count meet the requirements\<close>

lemma meets_simps [simp]:
  "meets e []"
  "meets e ((ks, ok) # rows) \<longleftrightarrow> ok (json_path e ks) \<and> meets e rows"
  "meets e (rows @ rows') \<longleftrightarrow> meets e rows \<and> meets e rows'"
  by (simp_all add: meets_def)

lemma absolute_iff: "absolute v \<longleftrightarrow>
    (case as_str v of Some p \<Rightarrow> if (p \<noteq> [] \<and> hd p = CHR ''/'') \<and> NUL \<notin> set p then Some p else None
     | None \<Rightarrow> None) \<noteq> None"
  by (simp add: absolute_def split: option.splits)

lemma started_identity:
  assumes "recovery_runtime q e"
  shows "meets e (identity_fields q)"
proof -
  have l: "launch_identity q e" and i: "recovery_identity q e" and o: "canonical_output e \<noteq> None"
    and r: "runtime_pid_observed e" "is_true (json_index (raw_of e) ''runtime_started'')"
    using assms by (auto simp: recovery_runtime_def launch_identity_def recovery_identity_def Let_def)
  have "absolute (json_index e ''output'')"
    using o by (simp add: absolute_iff canonical_output_def)
  moreover have "absolute (json_index (raw_of e) ''output'')"
    using l calculation by (auto simp: launch_identity_def Let_def absolute_def canonical_output_def
        split: option.splits if_splits)
  moreover have "nonempty_array (json_path e [''worker'', ''observed_processes''])"
    using r(1) by (auto simp: runtime_pid_observed_def nonempty_array_def split: option.splits list.splits)
  ultimately show ?thesis
    using l i r
    by (simp add: identity_fields_def launch_identity_def recovery_identity_def Let_def raw_of_def
        runtime_pid_observed_def worker_pid_def qemu_pid_def says_def counts_def)
qed

lemma terminated_cleanup: "recovery_cleanup q e \<Longrightarrow> meets e cleanup_fields"
  by (auto simp: recovery_cleanup_def cleanup_fields_def split: option.splits)

lemma uploaded_steps: "list_all (\<lambda>c. c) (take 4 (uploaded_roles raw)) \<Longrightarrow>
    nonempty_array (json_path raw [''restore_chain'', ''steps''])"
  by (auto simp: uploaded_roles_def restore_roles_def role_uploaded_def nonempty_array_def
      split: option.splits)

lemma verified_evidence:
  assumes v: "recovery_verified q x e"
  shows "meets e (evidence_fields q)"
proof -
  have rt: "recovery_runtime q e"
    using v by (simp add: recovery_verified_def recovery_terminated_def Let_def)
  have "recovery_target q e" "recovery_xnu q e" "recovery_userspace q e" "recovery_complete e"
      "uninterrupted e" "recovery_intact q e" "handoff_identity q e"
    using v by (simp_all add: recovery_verified_def Let_def)
  moreover have "restore_sequence_sent (recovery_progress_value q e)"
      "dfu_upload_completed (recovery_progress_value q e)"
      "ibec_endpoint_advertised (recovery_progress_value q e)"
      "stage2_prompt_observed (recovery_progress_value q e)"
      "bootx_acknowledged (recovery_progress_value q e)"
      "\<not> firmware_panic_observed (recovery_progress_value q e)"
    using v by (simp_all add: recovery_verified_def Let_def)
  ultimately show ?thesis
    using v rt uploaded_steps [of "raw_of e"]
    by (simp add: evidence_fields_def recovery_progress_value_def recovery_verified_def
        recovery_target_def recovery_xnu_def recovery_userspace_def recovery_complete_def
        uninterrupted_def recovery_intact_def handoff_identity_def handoff_of_def raw_of_def Let_def
        says_def counts_def)
qed

lemma yes_is_true: "yes r k \<longleftrightarrow> is_true (json_index r k)"
  by (cases "json_get r k") (simp_all add: yes_def is_true_def json_index_def)

lemma native_started: "native_runtime q e \<Longrightarrow> meets e (native_identity_fields q)"
  by (cases "run_backend q")
    (simp_all add: native_runtime_def native_identity_def native_identity_fields_def says_def
      counts_def yes_is_true)

lemma native_ended: "native_terminated q e \<Longrightarrow> meets e native_cleanup_fields"
  by (auto simp: native_terminated_def native_cleanup_fields_def split: option.splits)

lemma marker_array: "off \<in> set (marker_offsets recognized v) \<Longrightarrow> nonempty_array v"
  by (cases v) (auto simp: nonempty_array_def marker_offsets_iff array_items_def)

lemma native_boot:
  assumes v: "native_verified q x e"
  shows "meets e (native_evidence_fields q)"
proof -
  obtain a b where "native_xnu_offset e = Some a" "native_userspace_offset e = Some b"
    using v by (auto simp: native_verified_def native_xnu_def native_userspace_def)
  then have "a \<in> set (marker_offsets xnu_marker (json_path e [''observed_markers'', ''xnu'']))"
      "b \<in> set (marker_offsets userspace_marker (json_path e [''observed_markers'', ''userspace'']))"
    using iter_min_SomeD userspace_after_SomeD
    by (auto simp: native_xnu_offset_def native_userspace_offset_def) blast+
  then have "nonempty_array (json_path e [''observed_markers'', ''xnu''])"
      "nonempty_array (json_path e [''observed_markers'', ''userspace''])"
    using marker_array by blast+
  then show ?thesis
    using v by (simp add: native_evidence_fields_def native_verified_def native_xnu_def
        native_userspace_def native_target_def native_intact_def yes_is_true counts_def)
qed

lemma outcome_meets:
  shows "guest_runtime_started (evaluate_report q x (Inr e)) \<Longrightarrow> meets e (started_fields q)"
    and "guest_process_terminated (evaluate_report q x (Inr e)) \<Longrightarrow> meets e (terminated_fields q)"
    and "macos_boot_verified (evaluate_report q x (Inr e)) \<Longrightarrow> meets e (verified_fields q)"
proof -
  note fields = started_fields_def terminated_fields_def verified_fields_def
  note defs = evaluate_report_def evaluate_native_def evaluate_recovery_report_def Let_def
  show "meets e (started_fields q)" if "guest_runtime_started (evaluate_report q x (Inr e))"
    using that by (simp add: defs fields started_identity native_started split: if_splits)
  show "meets e (terminated_fields q)" if "guest_process_terminated (evaluate_report q x (Inr e))"
    using that by (auto simp: defs fields recovery_terminated_def native_terminated_def started_identity
        native_started terminated_cleanup native_ended [unfolded native_terminated_def] split: if_splits)
  show "meets e (verified_fields q)" if "macos_boot_verified (evaluate_report q x (Inr e))"
  proof (cases "is_recovery (run_backend q)")
    case True
    then have "recovery_verified q x e" "recovery_runtime q e" "recovery_cleanup q e"
      using that by (simp_all add: defs recovery_verified_def recovery_terminated_def)
    then show ?thesis
      using True by (simp add: fields verified_evidence started_identity terminated_cleanup)
  next
    case False
    then have "native_verified q x e" "native_runtime q e" "native_terminated q e"
      using that by (simp_all add: defs native_verified_def native_terminated_def)
    then show ?thesis
      using False by (simp add: fields native_boot native_started native_ended)
  qed
qed

text \<open>Every required field is an entry, so overwriting it is what the report then shows.\<close>

lemma verified_fields_named: "(ks, ok) \<in> set (verified_fields q) \<Longrightarrow> list_all names_entry ks"
proof -
  have "list_all (\<lambda>(ks, ok). list_all names_entry ks) (verified_fields q)"
    by (simp add: verified_fields_def terminated_fields_def started_fields_def identity_fields_def
        cleanup_fields_def evidence_fields_def native_identity_fields_def native_cleanup_fields_def
        native_evidence_fields_def names_entry_def)
  then show "(ks, ok) \<in> set (verified_fields q) \<Longrightarrow> list_all names_entry ks"
    by (auto simp: list_all_iff)
qed

lemma overwritten_misses:
  assumes "(ks, ok) \<in> set (verified_fields q)" and "pointer_set ks v e = Some e'" and "\<not> ok v"
    and "(ks, ok) \<in> set rows"
  shows "\<not> meets e' rows"
proof -
  have "json_path e' ks = v"
    using json_path_set [OF assms(2) verified_fields_named [OF assms(1)]] .
  then show ?thesis using assms(3,4) by (force simp: meets_def list_all_iff)
qed

section \<open>Property\<close>

text \<open>C15: One corrupted field is fatal. For every backend, exit code and report, overwriting a single
  required field (58 for supervised recovery, 16 for a native or raw-TCG worker) with any value that
  misses its condition yields a report that is never verified; if the field belongs to the process
  identity the guest does not even count as started, and if it belongs to the cleanup it does not
  count as terminated.\<close>

theorem corrupted_report_rejected:
  assumes "(ks, ok) \<in> set (verified_fields q)" and "pointer_set ks v e = Some e'" and "\<not> ok v"
  shows "\<not> macos_boot_verified (evaluate_report q x (Inr e')) \<and>
    (guest_process_terminated (evaluate_report q x (Inr e')) \<longrightarrow>
       (ks, ok) \<notin> set (terminated_fields q)) \<and>
    (guest_runtime_started (evaluate_report q x (Inr e')) \<longrightarrow> (ks, ok) \<notin> set (started_fields q))"
  using outcome_meets [of q x e'] overwritten_misses [OF assms] assms(1) by blast

lemma corrupted_report_rejected_witness:
  "\<exists>e. pointer_set [''cleanup'', ''leader_reaped''] (JBool False) sample_receipt = Some e \<and>
     \<not> macos_boot_verified (evaluate_report sample_recovery_request (Some 0) (Inr e)) \<and>
     \<not> guest_process_terminated (evaluate_report sample_recovery_request (Some 0) (Inr e))"
proof -
  let ?ks = "[''cleanup'', ''leader_reaped'']"
  obtain e where e: "pointer_set ?ks (JBool False) sample_receipt = Some e"
    by (simp add: sample_receipt_def receipt_of_def)
  have "(?ks, is_true) \<in> set (terminated_fields sample_recovery_request)"
    by (simp add: terminated_fields_def cleanup_fields_def sample_recovery_request_def)
  moreover from this have "(?ks, is_true) \<in> set (verified_fields sample_recovery_request)"
    by (simp add: verified_fields_def)
  ultimately show ?thesis
    using corrupted_report_rejected [of ?ks is_true sample_recovery_request "JBool False" sample_receipt e "Some 0"] e
    by (auto simp: is_true_def)
qed

end
