(* ===== verification/Runner_Verdict.thy ===== *)
theory Runner_Verdict
  imports Runner_Evidence
begin

text \<open>
  What a boot verdict of \<open>src/runner.rs\<close> rests on: the evidence that a report must contain for
  \<open>macos_boot_verified\<close>, for native and raw-TCG workers and for supervised recovery, the bounds
  of the recovery progress, and the order of the stages.
\<close>

section \<open>Evidence\<close>

lemma evaluate_report_native:
  "\<not> is_recovery (run_backend q) \<Longrightarrow> evaluate_report q exit parsed = evaluate_native q exit parsed"
  by (simp add: evaluate_report_def)

lemma evaluate_report_recovery:
  "is_recovery (run_backend q) \<Longrightarrow>
     evaluate_report q exit parsed = evaluate_recovery_report q exit parsed"
  by (simp add: evaluate_report_def)

text \<open>A userspace offset after the first kernel offset exists exactly if some kernel marker is
  followed by some userspace marker.\<close>

lemma userspace_after_iff:
  "userspace_after markers (iter_min (marker_offsets k ms)) \<noteq> None \<longleftrightarrow>
     (\<exists>mx\<in>set (array_items ms). \<exists>mu\<in>set (array_items (json_index markers ''userspace'')). \<exists>x u.
        k mx \<and> as_u64 (json_index mx ''byte_offset'') = Some x \<and>
        userspace_marker mu \<and> as_u64 (json_index mu ''byte_offset'') = Some u \<and> x < u)"
proof -
  let ?ks = "marker_offsets k ms"
  let ?u = "marker_offsets userspace_marker (json_index markers ''userspace'')"
  have "userspace_after markers (iter_min ?ks) \<noteq> None \<longleftrightarrow> (\<exists>x\<in>set ?ks. \<exists>u\<in>set ?u. x < u)"
  proof (cases "iter_min ?ks")
    case None
    then have "?ks = []" by (simp add: iter_min_None_iff)
    then show ?thesis by (simp add: userspace_after_def iter_min_def)
  next
    case (Some x)
    then have "x \<in> set ?ks" "\<forall>y\<in>set ?ks. x \<le> y" using iter_min_SomeD by blast+
    then show ?thesis
      by (auto simp: Some userspace_after_def iter_min_None_iff filter_empty_conv)
        (meson order.strict_trans1 order.strict_trans2)
  qed
  then show ?thesis unfolding marker_offsets_iff Bex_def by blast
qed

lemma iter_min_marker:
  "iter_min (marker_offsets k ms) \<noteq> None \<longleftrightarrow>
     (\<exists>m\<in>set (array_items ms). k m \<and> as_u64 (json_index m ''byte_offset'') \<noteq> None)"
proof -
  have "marker_offsets k ms \<noteq> [] \<longleftrightarrow> (\<exists>off. off \<in> set (marker_offsets k ms))"
    by (cases "marker_offsets k ms") auto
  then show ?thesis unfolding iter_min_None_iff marker_offsets_iff by blast
qed

lemma below_iter_min:
  assumes "iter_min (marker_offsets k ms) = Some x"
  shows "s < x \<longleftrightarrow> (\<forall>m\<in>set (array_items ms). \<forall>off.
    k m \<longrightarrow> as_u64 (json_index m ''byte_offset'') = Some off \<longrightarrow> s < off)"
proof -
  have "x \<in> set (marker_offsets k ms)" "\<forall>y\<in>set (marker_offsets k ms). x \<le> y"
    using iter_min_SomeD [OF assms] by blast+
  then have "s < x \<longleftrightarrow> (\<forall>off\<in>set (marker_offsets k ms). s < off)"
    by (meson order.strict_trans2)
  then show ?thesis unfolding Ball_def marker_offsets_iff by blast
qed

definition target_xnu_marker :: "runner_request \<Rightarrow> json \<Rightarrow> bool" where
  "target_xnu_marker q m \<longleftrightarrow>
     xnu_marker m \<and> as_u64 (json_index m ''kernel_major'') = Some (target64 q)"

text \<open>The supervised QEMU process, as the inventory of the worker's session shows it.\<close>

lemma runtime_process:
  "runtime_pid_observed e \<longleftrightarrow>
     is_true (json_path e [''worker'', ''process_inventory_complete'']) \<and>
     is_true (json_path e [''launch_report'', ''runtime_pid_observed'']) \<and>
     (\<exists>w p ps process time. worker_pid e = Some w \<and> qemu_pid e = Some p \<and> w \<noteq> p \<and>
        as_array (json_path e [''worker'', ''observed_processes'']) = Some ps \<and>
        filter (\<lambda>process. as_u64 (json_index process ''pid'') = Some p) ps = [process] \<and>
        as_u64 (json_index process ''session'') = Some w \<and>
        as_u64 (json_index process ''starttime'') = Some time \<and> 0 < time)"
  unfolding runtime_pid_observed_def
  by (cases "worker_pid e"; cases "qemu_pid e"; cases "as_array (json_path e [''worker'', ''observed_processes''])")
    (auto split: list.splits option.splits)

lemma length_uploaded_roles: "length (uploaded_roles raw) = 5"
  by (simp add: uploaded_roles_def restore_roles_def)

lemma role_count: "length (filter (\<lambda>c. c) (uploaded_roles raw)) \<le> 5"
  using length_filter_le [of "\<lambda>c. c" "uploaded_roles raw"] by (simp add: length_uploaded_roles)

lemma role_count_sent:
  assumes "list_all (\<lambda>c. c) (take 4 (uploaded_roles raw))"
  shows "4 \<le> length (filter (\<lambda>c. c) (uploaded_roles raw))"
proof -
  have "filter (\<lambda>c. c) (take 4 (uploaded_roles raw)) = take 4 (uploaded_roles raw)"
    using assms by (simp add: list_all_iff filter_id_conv)
  then have "length (filter (\<lambda>c. c) (take 4 (uploaded_roles raw))) = 4"
    by (simp add: length_uploaded_roles)
  moreover have "filter (\<lambda>c. c) (uploaded_roles raw) =
      filter (\<lambda>c. c) (take 4 (uploaded_roles raw)) @ filter (\<lambda>c. c) (drop 4 (uploaded_roles raw))"
    by (simp flip: filter_append)
  ultimately show ?thesis by simp
qed

lemma unat_role_count:
  "unat (word_of_nat (length (filter (\<lambda>c. c) (uploaded_roles raw))) :: u32) =
     length (filter (\<lambda>c. c) (uploaded_roles raw))"
  using role_count [of raw] by (simp add: unat_of_nat)

section \<open>Properties\<close>

text \<open>The two verdicts over the fields of the report.\<close>

lemma verified_parsed:
  "macos_boot_verified (evaluate_report q exit parsed) \<longleftrightarrow>
     (\<exists>r. parsed = Inr r \<and>
        (if is_recovery (run_backend q) then recovery_verified q exit r else native_verified q exit r))"
  using report_verdict.no_report_no_claims(2) [of q exit]
  by (cases parsed) (simp_all add: evaluate_report_def evaluate_native_def evaluate_recovery_report_def Let_def)

lemma array_any: "(case as_array v of None \<Rightarrow> False | Some items \<Rightarrow> list_ex P items) \<longleftrightarrow>
    (\<exists>m\<in>set (array_items v). P m)"
  by (cases "as_array v") (auto simp: array_items_def list_ex_iff)

lemma native_offsets:
  "native_userspace_offset r \<noteq> None \<longleftrightarrow>
     (\<exists>mx\<in>set (array_items (json_path r [''observed_markers'', ''xnu''])).
      \<exists>mu\<in>set (array_items (json_path r [''observed_markers'', ''userspace''])). \<exists>x u.
       xnu_marker mx \<and> as_u64 (json_index mx ''byte_offset'') = Some x \<and>
       userspace_marker mu \<and> as_u64 (json_index mu ''byte_offset'') = Some u \<and> x < u)"
  unfolding native_userspace_offset_def native_xnu_offset_def userspace_after_iff by simp

lemma native_xnu_offset_if: "native_userspace_offset r \<noteq> None \<Longrightarrow> native_xnu_offset r \<noteq> None"
  by (cases "native_xnu_offset r") (simp_all add: native_userspace_offset_def userspace_after_def iter_min_None_iff)

lemma native_verified_iff:
  assumes "\<not> is_recovery (run_backend q)"
  shows "native_verified q exit r \<longleftrightarrow> exit = Some 0 \<and>
    as_str (json_index r ''schema'') = Some (backend_schema (run_backend q)) \<and>
    as_str (json_index r ''engine'') = Some (backend_engine (run_backend q)) \<and>
    as_u64 (json_index r ''target_major'') = Some (target64 q) \<and>
    is_true (json_index r (if is_native (run_backend q) then ''native_runtime_started''
      else ''tcg_runtime_started'')) \<and>
    is_true (json_index r ''xnu_executed'') \<and> is_true (json_index r ''macos_userspace_reached'') \<and>
    is_true (json_index r ''guest_target_match'') \<and>
    as_u64 (json_index r ''guest_kernel_major'') = Some (target64 q) \<and>
    is_true (json_index r ''macos_boot_verified'') \<and>
    as_i64 (json_index r ''returncode'') \<noteq> None \<and>
    (\<exists>s. as_str (json_index r ''termination'') = Some s \<and> s \<noteq> []) \<and> json_index r ''error'' = JNull \<and>
    is_true (json_index r ''input_integrity'') \<and> \<not> is_true (json_index r ''guest_inputs_modified'') \<and>
    native_userspace_offset r \<noteq> None \<and>
    (\<exists>mt\<in>set (array_items (json_path r [''observed_markers'', ''xnu''])).
       xnu_marker mt \<and> as_u64 (json_index mt ''kernel_major'') = Some (target64 q) \<and>
       as_u64 (json_index mt ''byte_offset'') \<noteq> None)"
proof -
  have null: "is_null v \<longleftrightarrow> v = JNull" for v by (cases v) simp_all
  have ended: "(case x of Some s \<Rightarrow> s \<noteq> [] | None \<Rightarrow> False) \<longleftrightarrow> (\<exists>s. x = Some s \<and> s \<noteq> [])"
    for x :: "string option" by (cases x) auto
  have runtime: "native_runtime q r \<longleftrightarrow> native_identity q r \<and>
      is_true (json_index r (if is_native (run_backend q) then ''native_runtime_started''
        else ''tcg_runtime_started''))"
    using assms by (cases "run_backend q") (simp_all add: native_runtime_def yes_is_true)
  show ?thesis
    using native_xnu_offset_if [of r]
    unfolding native_verified_def native_terminated_def native_xnu_def native_userspace_def
      native_target_def native_intact_def runtime native_identity_def array_any yes_is_true null ended
    by blast
qed

lemma uploaded_four: "list_all (\<lambda>c. c) (take 4 (uploaded_roles raw)) \<longleftrightarrow>
    (\<forall>role\<in>{''RestoreTrustCache'', ''RestoreRamDisk'', ''RestoreDeviceTree'', ''RestoreKernelCache''}.
       \<exists>step\<in>set (array_items (json_path raw [''restore_chain'', ''steps''])).
         as_str (json_index step ''role'') = Some role \<and>
         is_true (json_path step [''upload'', ''transfer_complete'']))"
proof -
  have "role_uploaded raw role \<longleftrightarrow>
      (\<exists>step\<in>set (array_items (json_path raw [''restore_chain'', ''steps''])).
         as_str (json_index step ''role'') = Some role \<and>
         is_true (json_path step [''upload'', ''transfer_complete'']))" for role
    by (auto simp: role_uploaded_def array_items_def list_ex_iff split: option.splits)
  then show ?thesis by (simp add: uploaded_roles_def restore_roles_def numeral_eq_Suc)
qed

text \<open>C14: A native or raw-TCG boot verdict rests on evidence, and on nothing else. Such a report is
  verified exactly if the worker exited with 0 and the report parsed, names this backend's schema and
  engine and this target, says that the backend's guest was started and that the kernel and the
  userspace of the target were reached, has an integer return code, a nonempty termination reason
  and no error, confirms the inputs and does not call them modified, and shows a kernel marker
  followed, at a strictly greater byte offset, by a userspace marker, and a kernel marker of the
  target's major version.\<close>

theorem native_boot_evidence:
  assumes "\<not> is_recovery (run_backend q)"
  shows "macos_boot_verified (evaluate_report q exit parsed) \<longleftrightarrow>
    exit = Some 0 \<and> (\<exists>r mx mu mt x u s. parsed = Inr r \<and>
    as_str (json_index r ''schema'') = Some (backend_schema (run_backend q)) \<and>
    as_str (json_index r ''engine'') = Some (backend_engine (run_backend q)) \<and>
    as_u64 (json_index r ''target_major'') = Some (target64 q) \<and>
    is_true (json_index r (if is_native (run_backend q) then ''native_runtime_started''
      else ''tcg_runtime_started'')) \<and>
    is_true (json_index r ''xnu_executed'') \<and> is_true (json_index r ''macos_userspace_reached'') \<and>
    is_true (json_index r ''guest_target_match'') \<and>
    as_u64 (json_index r ''guest_kernel_major'') = Some (target64 q) \<and>
    is_true (json_index r ''macos_boot_verified'') \<and>
    as_i64 (json_index r ''returncode'') \<noteq> None \<and>
    as_str (json_index r ''termination'') = Some s \<and> s \<noteq> [] \<and> json_index r ''error'' = JNull \<and>
    is_true (json_index r ''input_integrity'') \<and> \<not> is_true (json_index r ''guest_inputs_modified'') \<and>
    mx \<in> set (array_items (json_path r [''observed_markers'', ''xnu''])) \<and> xnu_marker mx \<and>
    as_u64 (json_index mx ''byte_offset'') = Some x \<and>
    mu \<in> set (array_items (json_path r [''observed_markers'', ''userspace''])) \<and> userspace_marker mu \<and>
    as_u64 (json_index mu ''byte_offset'') = Some u \<and> x < u \<and>
    mt \<in> set (array_items (json_path r [''observed_markers'', ''xnu''])) \<and> xnu_marker mt \<and>
    as_u64 (json_index mt ''kernel_major'') = Some (target64 q) \<and>
    as_u64 (json_index mt ''byte_offset'') \<noteq> None)"
  unfolding verified_parsed native_verified_iff [OF assms] native_offsets
  by (simp only: assms if_False) blast

lemma native_boot_evidence_witness:
  "as_u64 (json_index sample_report ''guest_kernel_major'') = Some (target64 sample_request) \<and>
   as_str (json_index sample_report ''termination'') \<noteq> None \<and>
   json_index sample_report ''error'' = JNull"
proof -
  have "\<not> is_recovery (run_backend sample_request)" by (simp add: sample_request_def)
  from native_boot_evidence [OF this, of "Some 0" "Inr sample_report"] sample_report_verified
  show ?thesis by auto
qed

lemma recovery_parts:
  assumes "recovery_verified q exit e"
  shows "exit = Some 0" and "recovery_runtime q e" and "recovery_cleanup q e" and "recovery_target q e"
    and "recovery_userspace q e" and "recovery_xnu q e" and "recovery_intact q e"
    and "list_all (\<lambda>c. c) (take 4 (uploaded_roles (raw_of e)))"
    and "case (as_u64 (json_path (raw_of e) [''stage2'', ''byte_offset'']), recovery_xnu_offset q e) of
         (Some stage2, Some xnu) \<Rightarrow> stage2 < xnu | _ \<Rightarrow> False"
proof -
  note v = assms [unfolded recovery_verified_def recovery_terminated_def Let_def]
  then show run: "recovery_runtime q e" by blast
  have "restore_sequence_sent (recovery_progress_value q e)" using v by blast
  then show "list_all (\<lambda>c. c) (take 4 (uploaded_roles (raw_of e)))"
    by (simp add: recovery_progress_value_def run Let_def)
qed (use assms in \<open>simp_all add: recovery_verified_def recovery_terminated_def Let_def\<close>)

lemma recovery_runtime_iff:
  "recovery_runtime q e \<longleftrightarrow> meets e (identity_fields q) \<and>
     as_str (json_index (raw_of e) ''output'') = as_str (json_index e ''output'') \<and>
     runtime_pid_observed e"
proof -
  have same: "canonical_output e = as_str (json_index e ''output'')" if "absolute (json_index e ''output'')"
    using that by (auto simp: absolute_def canonical_output_def split: option.splits)
  have there: "absolute (json_index e ''output'') \<longleftrightarrow> canonical_output e \<noteq> None"
    by (simp add: absolute_iff canonical_output_def)
  show ?thesis
  proof
    assume r: "recovery_runtime q e"
    then have m: "meets e (identity_fields q)" by (rule started_identity)
    then have "absolute (json_index e ''output'')" by (simp add: identity_fields_def)
    then show "meets e (identity_fields q) \<and>
        as_str (json_index (raw_of e) ''output'') = as_str (json_index e ''output'') \<and> runtime_pid_observed e"
      using r m same by (simp add: recovery_runtime_def launch_identity_def Let_def)
  next
    assume m: "meets e (identity_fields q) \<and>
        as_str (json_index (raw_of e) ''output'') = as_str (json_index e ''output'') \<and> runtime_pid_observed e"
    then have a: "absolute (json_index e ''output'')" by (simp add: identity_fields_def)
    show "recovery_runtime q e"
      using m same [OF a] a [unfolded there]
      by (simp add: identity_fields_def recovery_runtime_def launch_identity_def recovery_identity_def
          says_def counts_def raw_of_def Let_def)
  qed
qed

lemma recovery_verified_iff:
  "recovery_verified q exit e \<longleftrightarrow> exit = Some 0 \<and>
     meets e (identity_fields q) \<and> meets e cleanup_fields \<and> meets e (evidence_fields q) \<and>
     as_str (json_index (raw_of e) ''output'') = as_str (json_index e ''output'') \<and>
     runtime_pid_observed e \<and> list_all (\<lambda>c. c) (take 4 (uploaded_roles (raw_of e))) \<and>
     is_true (json_index (observation_of (raw_of e)) ''xnu_executed'') \<and>
     is_true (json_index (observation_of (raw_of e)) ''macos_userspace_reached'') \<and>
     is_true (json_index (observation_of (raw_of e)) ''guest_target_match'') \<and>
     as_u64 (json_index (observation_of (raw_of e)) ''guest_kernel_major'') = Some (target64 q) \<and>
     recovery_userspace_offset q e \<noteq> None \<and>
     (case (as_u64 (json_path (raw_of e) [''stage2'', ''byte_offset'']), recovery_xnu_offset q e) of
        (Some stage2, Some xnu) \<Rightarrow> stage2 < xnu | _ \<Rightarrow> False)" (is "?l \<longleftrightarrow> ?r")
proof
  assume l: ?l
  note parts = recovery_parts [OF l]
  show ?r
    using parts started_identity [OF parts(2)] terminated_cleanup [OF parts(3)] verified_evidence [OF l]
    by (simp add: recovery_runtime_iff recovery_target_def recovery_userspace_def recovery_xnu_def Let_def)
next
  assume r: ?r
  have runtime: "recovery_runtime q e" using r by (simp add: recovery_runtime_iff)
  then have id: "recovery_identity q e"
    by (simp add: recovery_runtime_def launch_identity_def Let_def)
  have xnu: "recovery_xnu_offset q e \<noteq> None" using r by (auto split: option.splits)
  have clean: "recovery_cleanup q e" using r id by (simp add: recovery_cleanup_def cleanup_fields_def)
  show ?l
    using r id runtime xnu clean
    by (simp add: recovery_verified_def recovery_terminated_def recovery_intact_def recovery_xnu_def
        recovery_userspace_def recovery_target_def recovery_complete_def uninterrupted_def
        handoff_identity_def handoff_of_def recovery_progress_value_def evidence_fields_def says_def
        counts_def raw_of_def Let_def)
qed

lemma recovery_offsets:
  "recovery_userspace_offset q e \<noteq> None \<and>
     (case (as_u64 (json_path (raw_of e) [''stage2'', ''byte_offset'']), recovery_xnu_offset q e) of
        (Some stage2, Some xnu) \<Rightarrow> stage2 < xnu | _ \<Rightarrow> False) \<longleftrightarrow>
   (\<exists>s. as_u64 (json_path (raw_of e) [''stage2'', ''byte_offset'']) = Some s \<and>
      (\<forall>m\<in>set (array_items (json_index (recovery_markers e) ''xnu'')). \<forall>off.
         xnu_marker m \<and> as_u64 (json_index m ''kernel_major'') = Some (target64 q) \<longrightarrow>
         as_u64 (json_index m ''byte_offset'') = Some off \<longrightarrow> s < off)) \<and>
   (\<exists>mx\<in>set (array_items (json_index (recovery_markers e) ''xnu'')).
    \<exists>mu\<in>set (array_items (json_index (recovery_markers e) ''userspace'')). \<exists>x u.
      xnu_marker mx \<and> as_u64 (json_index mx ''kernel_major'') = Some (target64 q) \<and>
      as_u64 (json_index mx ''byte_offset'') = Some x \<and>
      userspace_marker mu \<and> as_u64 (json_index mu ''byte_offset'') = Some u \<and> x < u)"
proof (cases "recovery_xnu_offset q e")
  case None
  then have "recovery_userspace_offset q e = None"
    by (simp add: recovery_userspace_offset_def userspace_after_def iter_min_def)
  moreover have "\<not> (\<exists>m\<in>set (array_items (json_index (recovery_markers e) ''xnu'')).
      (xnu_marker m \<and> as_u64 (json_index m ''kernel_major'') = Some (target64 q)) \<and>
      as_u64 (json_index m ''byte_offset'') \<noteq> None)"
    using None iter_min_marker unfolding recovery_xnu_offset_def by blast
  ultimately show ?thesis by auto
next
  case (Some x)
  let ?a = "as_u64 (json_path (raw_of e) [''stage2'', ''byte_offset''])"
  note min = below_iter_min [OF Some [unfolded recovery_xnu_offset_def]]
  have "recovery_userspace_offset q e \<noteq> None \<longleftrightarrow>
      (\<exists>mx\<in>set (array_items (json_index (recovery_markers e) ''xnu'')).
       \<exists>mu\<in>set (array_items (json_index (recovery_markers e) ''userspace'')). \<exists>x u.
         xnu_marker mx \<and> as_u64 (json_index mx ''kernel_major'') = Some (target64 q) \<and>
         as_u64 (json_index mx ''byte_offset'') = Some x \<and>
         userspace_marker mu \<and> as_u64 (json_index mu ''byte_offset'') = Some u \<and> x < u)"
    unfolding recovery_userspace_offset_def recovery_xnu_offset_def userspace_after_iff by simp
  moreover have "(case (?a, Some x) of (Some stage2, Some xnu) \<Rightarrow> stage2 < xnu | _ \<Rightarrow> False) \<longleftrightarrow>
      (\<exists>s. ?a = Some s \<and> (\<forall>m\<in>set (array_items (json_index (recovery_markers e) ''xnu'')). \<forall>off.
         xnu_marker m \<and> as_u64 (json_index m ''kernel_major'') = Some (target64 q) \<longrightarrow>
         as_u64 (json_index m ''byte_offset'') = Some off \<longrightarrow> s < off))"
    using min by (cases ?a) simp_all
  ultimately show ?thesis unfolding Some by argo
qed

lemma recovery_rows:
  "meets e (identity_fields q) \<Longrightarrow> is_true (json_path e [''worker'', ''process_inventory_complete''])"
  "meets e (identity_fields q) \<Longrightarrow> is_true (json_path e [''launch_report'', ''runtime_pid_observed''])"
  "meets e (evidence_fields q) \<Longrightarrow> as_u64 (json_index (raw_of e) ''guest_kernel_major'') = Some (target64 q)"
  "meets e (evidence_fields q) \<Longrightarrow> as_u64 (json_path e [''boot'', ''guest_kernel_major'']) = Some (target64 q)"
  by (simp_all add: identity_fields_def evidence_fields_def counts_def raw_of_def)

text \<open>C6: A recovery boot verdict rests on consistent evidence, and on nothing else. A supervised run
  is verified exactly if the worker exited with 0 and the receipt parsed, meets every row of the
  table of required fields (identity, no deadline and no cancellation, complete cleanup with the
  leader reaped and no process left, unchanged inputs, a completed launch without panic, the
  handoff, the supervisor's and the launch report's kernel and verdict), names one output
  throughout, shows one process of the worker's session, distinct from the worker, as the running
  QEMU, shows the uploads of the four restore roles, an observation that agrees on the target
  kernel, and markers in order: the stage-2 prompt before every kernel marker of the target, one of
  which is followed by a userspace marker.\<close>

theorem recovery_boot_evidence:
  assumes "is_recovery (run_backend q)"
  shows "macos_boot_verified (evaluate_report q exit parsed) \<longleftrightarrow>
    (\<exists>e. parsed = Inr e \<and> exit = Some 0 \<and> meets e (verified_fields q) \<and>
    as_str (json_index (raw_of e) ''output'') = as_str (json_index e ''output'') \<and>
    (\<exists>w p ps process time. worker_pid e = Some w \<and> qemu_pid e = Some p \<and> w \<noteq> p \<and>
       as_array (json_path e [''worker'', ''observed_processes'']) = Some ps \<and>
       filter (\<lambda>process. as_u64 (json_index process ''pid'') = Some p) ps = [process] \<and>
       as_u64 (json_index process ''session'') = Some w \<and>
       as_u64 (json_index process ''starttime'') = Some time \<and> 0 < time) \<and>
    (\<forall>role\<in>{''RestoreTrustCache'', ''RestoreRamDisk'', ''RestoreDeviceTree'', ''RestoreKernelCache''}.
       \<exists>step\<in>set (array_items (json_path (raw_of e) [''restore_chain'', ''steps''])).
         as_str (json_index step ''role'') = Some role \<and>
         is_true (json_path step [''upload'', ''transfer_complete''])) \<and>
    is_true (json_index (observation_of (raw_of e)) ''xnu_executed'') \<and>
    is_true (json_index (observation_of (raw_of e)) ''macos_userspace_reached'') \<and>
    is_true (json_index (observation_of (raw_of e)) ''guest_target_match'') \<and>
    as_u64 (json_index (raw_of e) ''guest_kernel_major'') = Some (target64 q) \<and>
    as_u64 (json_index (observation_of (raw_of e)) ''guest_kernel_major'') = Some (target64 q) \<and>
    as_u64 (json_path e [''boot'', ''guest_kernel_major'']) = Some (target64 q) \<and>
    (\<exists>s. as_u64 (json_path (raw_of e) [''stage2'', ''byte_offset'']) = Some s \<and>
       (\<forall>m\<in>set (array_items (json_index (recovery_markers e) ''xnu'')). \<forall>off.
          xnu_marker m \<and> as_u64 (json_index m ''kernel_major'') = Some (target64 q) \<longrightarrow>
          as_u64 (json_index m ''byte_offset'') = Some off \<longrightarrow> s < off)) \<and>
    (\<exists>mx\<in>set (array_items (json_index (recovery_markers e) ''xnu'')).
     \<exists>mu\<in>set (array_items (json_index (recovery_markers e) ''userspace'')). \<exists>x u.
       xnu_marker mx \<and> as_u64 (json_index mx ''kernel_major'') = Some (target64 q) \<and>
       as_u64 (json_index mx ''byte_offset'') = Some x \<and>
       userspace_marker mu \<and> as_u64 (json_index mu ''byte_offset'') = Some u \<and> x < u))"
proof -
  have fields: "meets e (verified_fields q) \<longleftrightarrow>
      meets e (identity_fields q) \<and> meets e cleanup_fields \<and> meets e (evidence_fields q)" for e
    using assms by (simp add: verified_fields_def terminated_fields_def started_fields_def)
  show ?thesis
    unfolding verified_parsed recovery_verified_iff runtime_process uploaded_four recovery_offsets fields
      if_P [OF assms]
    apply (rule iff_exI)
    subgoal for e using recovery_rows [of e q] by argo
    done
qed

lemma recovery_boot_evidence_witness:
  "meets sample_receipt (verified_fields sample_recovery_request) \<and>
   (\<exists>s x. as_u64 (json_path (raw_of sample_receipt) [''stage2'', ''byte_offset'']) = Some s \<and> s < (x :: u64))"
proof -
  have "is_recovery (run_backend sample_recovery_request)" by (simp add: sample_recovery_request_def)
  from recovery_boot_evidence [OF this, of "Some 0" "Inr sample_receipt"] sample_receipt_verified
  show ?thesis by auto
qed

text \<open>The verdict and its failure message agree. For every backend, exit code and report, the
  failure is absent exactly when the boot is verified; the guest state is then stopped, otherwise
  faulted with that message, never running or paused; an unreadable report yields its parse error
  and no claim; installation and graphics are never reported as verified.\<close>

theorem verdict_contract:
  "guest_state_of (evaluate_report q exit parsed) =
     (case failure (evaluate_report q exit parsed) of None \<Rightarrow> Stopped | Some m \<Rightarrow> Faulted m) \<and>
   (failure (evaluate_report q exit parsed) = None \<longleftrightarrow>
      macos_boot_verified (evaluate_report q exit parsed)) \<and>
   guest_state_of (evaluate_report q exit parsed) \<notin> {Running, Paused} \<and>
   failure (evaluate_report q exit (Inl err)) = Some err \<and>
   \<not> guest_runtime_started (evaluate_report q exit (Inl err)) \<and>
   \<not> installation_verified (evaluate_report q exit parsed) \<and>
   \<not> graphics_acceleration_verified (evaluate_report q exit parsed)"
  using report_verdict.failure_iff [of q exit parsed] report_verdict.never_active [of q exit parsed]
    report_verdict.parse_failure [of q exit err] report_verdict.no_report_no_claims(1) [of q exit err]
    report_verdict.nothing_else [of q exit parsed]
  by (simp add: guest_state_of_def)

text \<open>Recovery progress is evidence of the observed run only. A receipt whose QEMU process was
  not observed yields the default progress whatever it claims; the number of completed restore
  roles is at most five, and at least four when the restore sequence counts as sent.\<close>

theorem recovery_progress_bounds:
  "(if recovery_runtime q e then unat (restore_role_step_count (recovery_progress_value q e)) \<le> 5 \<and>
      (if restore_sequence_sent (recovery_progress_value q e)
       then 4 \<le> unat (restore_role_step_count (recovery_progress_value q e)) else True)
    else recovery_progress_value q e = progress_default)"
  using role_count [of "raw_of e"] role_count_sent [of "raw_of e"]
  by (simp add: recovery_progress_value_def Let_def unat_role_count)

text \<open>The stages of a recovery run are ordered. Userspace or a target match imply an executed
  kernel, which implies an observed runtime, which implies the identity of the launch report and
  of the supervisor's receipt for this request; termination implies runtime and cleanup.\<close>

theorem recovery_stage_order:
  assumes "is_recovery (run_backend q)"
  shows "macos_userspace_reached (evaluate_report q exit parsed) \<le> xnu_executed (evaluate_report q exit parsed) \<and>
    guest_target_match (evaluate_report q exit parsed) \<le> xnu_executed (evaluate_report q exit parsed) \<and>
    xnu_executed (evaluate_report q exit parsed) \<le> guest_runtime_started (evaluate_report q exit parsed) \<and>
    guest_process_terminated (evaluate_report q exit parsed) \<le>
      guest_runtime_started (evaluate_report q exit parsed) \<and>
    guest_runtime_started (evaluate_report q exit parsed) \<le>
      (\<exists>e. parsed = Inr e \<and> launch_identity q e \<and> recovery_identity q e \<and>
        as_u64 (json_index e ''target_major'') = Some (target64 q))"
proof -
  have "launch_identity q e \<and> recovery_identity q e \<and>
      as_u64 (json_index e ''target_major'') = Some (target64 q)" if "recovery_runtime q e" for e
    using that by (simp add: recovery_runtime_def launch_identity_def recovery_identity_def Let_def)
  then show ?thesis
    using recovery_runtime_null [of q]
    by (cases parsed)
      (auto simp: evaluate_report_recovery assms evaluate_recovery_report_def Let_def
        recovery_userspace_def recovery_target_def recovery_xnu_def recovery_terminated_def)
qed

lemma recovery_stage_order_witness:
  "guest_process_terminated (evaluate_report sample_recovery_request (Some 0) (Inr sample_receipt)) \<le>
     guest_runtime_started (evaluate_report sample_recovery_request (Some 0) (Inr sample_receipt))"
proof -
  have "is_recovery (run_backend sample_recovery_request)" by (simp add: sample_recovery_request_def)
  from recovery_stage_order [OF this] show ?thesis by blast
qed

text \<open>The native verdict does not tie the target's kernel marker to the one that userspace must
  follow: a report whose first kernel marker has another major version, whose userspace marker
  follows that one, and whose target marker comes last, is verified.\<close>

definition untied_report :: json where
  "untied_report = JObject
     [(''schema'', JString ''26x86.vmapple-tcg/1''), (''engine'', JString ''qemu-vmapple-tcg''),
      (''target_major'', num 27), (''tcg_runtime_started'', JBool True), (''returncode'', num 0),
      (''termination'', JString ''guest_exit''), (''xnu_executed'', JBool True),
      (''macos_userspace_reached'', JBool True), (''guest_target_match'', JBool True),
      (''guest_kernel_major'', num 27), (''input_integrity'', JBool True),
      (''macos_boot_verified'', JBool True),
      (''observed_markers'', JObject
        [(''xnu'', JArray
            [JObject [(''marker'', JString ''Darwin Kernel''), (''byte_offset'', num 10),
               (''kernel_major'', num 20)],
             JObject [(''marker'', JString ''Darwin Kernel''), (''byte_offset'', num 300),
               (''kernel_major'', num 27)]]),
         (''userspace'', JArray [JObject [(''marker'', JString ''launchd:''),
            (''byte_offset'', num 100)]])])]"

lemma native_target_marker_untied:
  "native_verified sample_request (Some 0) untied_report"
  unfolding native_verdict_defs sample_target
  by (simp add: sample_request_def) (simp add: untied_report_def json_reads)

end
