(* ===== verification/Runner_Report_Tests.thy ===== *)
theory Runner_Report_Tests
  imports Runner_Evidence Runner_Verdict
begin

text \<open>
  The unit tests of \<open>src/runner.rs\<close> on worker reports, read as propositions about the model: one
  boolean definition per test function, with the same inputs and assertions, and the proof that it
  holds. A test that overwrites single fields of a receipt is a table of pointers and values; the
  rows that miss a required field follow from Runner_Evidence, the others are evaluated.
\<close>

section \<open>Receipts with one field changed\<close>

text \<open>\<open>let mut report = base.clone(); *report.pointer_mut(pointer).unwrap() = value;\<close> for each row.\<close>

definition all_mutants :: "json \<Rightarrow> (json \<Rightarrow> bool) \<Rightarrow> (string list \<times> json) list \<Rightarrow> bool" where
  "all_mutants base ok rows \<longleftrightarrow>
     list_all (\<lambda>(p, v). case pointer_set p v base of None \<Rightarrow> False | Some e \<Rightarrow> ok e) rows"

lemma pointer_set_value: "pointer_set p x e = None \<longleftrightarrow> pointer_set p y e = None"
  by (induction p x e rule: pointer_set.induct) (auto split: option.splits)

text \<open>The rows whose value misses the condition of a required field.\<close>

definition misses :: "requirement list \<Rightarrow> (string list \<times> json) list \<Rightarrow> bool" where
  "misses reqs rows \<longleftrightarrow>
     list_all (\<lambda>(p, v). list_all names_entry p \<and> list_ex (\<lambda>(ks, ok). ks = p \<and> \<not> ok v) reqs) rows"

definition has_pointers :: "json \<Rightarrow> (string list \<times> json) list \<Rightarrow> bool" where
  "has_pointers base rows \<longleftrightarrow> list_all (\<lambda>(p, v). pointer_set p JNull base \<noteq> None) rows"

lemma all_mutants_append:
  "all_mutants base ok (rows @ rows') \<longleftrightarrow> all_mutants base ok rows \<and> all_mutants base ok rows'"
  by (simp add: all_mutants_def)

text \<open>\<open>v["a"]["b"] = x\<close>: a missing entry is added, null becomes an object.\<close>

fun assign :: "string list \<Rightarrow> json \<Rightarrow> json \<Rightarrow> json option" where
  "assign [] x v = Some x"
| "assign (k # ks) x (JObject kvs) =
     map_option (\<lambda>w. JObject (AList.update k w kvs))
       (assign ks x (case map_of kvs k of Some v \<Rightarrow> v | None \<Rightarrow> JNull))"
| "assign (k # ks) x JNull = map_option (\<lambda>w. JObject [(k, w)]) (assign ks x JNull)"
| "assign (k # ks) x (JArray vs) =
     (case token_index k (length vs) of
        None \<Rightarrow> None
      | Some i \<Rightarrow> map_option (\<lambda>w. JArray (vs[i := w])) (assign ks x (vs ! i)))"
| "assign (k # ks) x _ = None"

definition assign_all :: "(string list \<times> json) list \<Rightarrow> json \<Rightarrow> json option" where
  "assign_all rows e = fold (\<lambda>(p, v) r. Option.bind r (assign p v)) rows (Some e)"

lemma all_mutantsI:
  assumes "has_pointers base rows"
    and "\<And>p v e. (p, v) \<in> set rows \<Longrightarrow> pointer_set p v base = Some e \<Longrightarrow> ok e"
  shows "all_mutants base ok rows"
proof -
  have "case pointer_set p v base of None \<Rightarrow> False | Some e \<Rightarrow> ok e" if r: "(p, v) \<in> set rows" for p v
  proof -
    have "pointer_set p JNull base \<noteq> None"
      using assms(1) r by (auto simp: has_pointers_def list_all_iff)
    then obtain e where "pointer_set p v base = Some e"
      using pointer_set_value [of p v base JNull] by auto
    then show ?thesis using assms(2) [OF r] by simp
  qed
  then show ?thesis by (auto simp: all_mutants_def list_all_iff)
qed

lemma row_missed:
  assumes "misses reqs rows" and "(p, v) \<in> set rows" and "pointer_set p v base = Some e"
  shows "\<not> meets e reqs"
proof -
  have row: "list_all names_entry p" "list_ex (\<lambda>(ks, ok). ks = p \<and> \<not> ok v) reqs"
    using assms(1,2) by (auto simp only: misses_def list_all_iff split: prod.splits)
  have "json_path e p = v" by (rule json_path_set [OF assms(3) row(1)])
  moreover obtain k where "(p, k) \<in> set reqs" "\<not> k v"
    using row(2) by (auto simp only: list_ex_iff split: prod.splits)
  ultimately show ?thesis by (auto simp only: meets_def list_all_iff split: prod.splits)
qed

lemma mutants_by_table:
  assumes "has_pointers base rows" and "misses reqs rows"
    and "\<And>e. \<not> meets e reqs \<Longrightarrow> ok e"
  shows "all_mutants base ok rows"
  by (rule all_mutantsI [OF assms(1)], rule assms(3), rule row_missed [OF assms(2)])

section \<open>Raw-TCG reports\<close>

definition tcg_report :: "nat \<Rightarrow> nat \<Rightarrow> json" where
  "tcg_report xnu_offset userspace_offset = JObject
     [(''schema'', JString ''26x86.vmapple-tcg/1''), (''engine'', JString ''qemu-vmapple-tcg''),
      (''target_major'', num 27), (''tcg_runtime_started'', JBool True), (''returncode'', num 0),
      (''termination'', JString ''guest_exit''), (''xnu_executed'', JBool True),
      (''macos_userspace_reached'', JBool True), (''guest_target_match'', JBool True),
      (''guest_kernel_major'', num 27), (''input_integrity'', JBool True),
      (''macos_boot_verified'', JBool True),
      (''observed_markers'', JObject
        [(''xnu'', JArray [JObject [(''marker'', JString ''Darwin Kernel Version''),
            (''byte_offset'', num xnu_offset), (''kernel_major'', num 27)]]),
         (''userspace'', JArray [JObject [(''marker'', JString ''launchd:''),
            (''byte_offset'', num userspace_offset)]])])]"

definition boolean_report :: json where
  "boolean_report = JObject
     [(''schema'', JString ''26x86.vmapple-tcg/1''), (''engine'', JString ''qemu-vmapple-tcg''),
      (''target_major'', num 27), (''tcg_runtime_started'', JBool True),
      (''native_runtime_started'', JBool True), (''macos_boot_verified'', JBool True),
      (''xnu_executed'', JBool True), (''macos_userspace_reached'', JBool True),
      (''guest_target_match'', JBool True), (''guest_kernel_major'', num 27),
      (''input_integrity'', JBool True), (''returncode'', num 0),
      (''termination'', JString ''guest_exit'')]"

definition booleans_do_not_prove_boot :: bool where
  "booleans_do_not_prove_boot \<longleftrightarrow>
     (let out = evaluate_report sample_request (Some 0) (Inr boolean_report)
      in guest_runtime_started out \<and> guest_process_terminated out \<and> \<not> macos_boot_verified out \<and>
        \<not> xnu_executed out \<and> (\<exists>reason. guest_state_of out = Faulted reason))"

definition preflight_failure_remains :: bool where
  "preflight_failure_remains \<longleftrightarrow>
     (let out = evaluate_report sample_request (Some 2) (Inr (JObject
        [(''error'', JString ''qemu unavailable''), (''macos_boot_verified'', JBool False)]))
      in \<not> guest_runtime_started out \<and> failure out = Some ''qemu unavailable'') \<and>
     (let out = evaluate_report sample_request (Some 0) (Inl ''truncated output'')
      in \<not> macos_boot_verified out \<and> failure out = Some ''truncated output'')"

definition wrong_target_denied :: bool where
  "wrong_target_denied \<longleftrightarrow>
     (let denied = (\<lambda>e. \<not> macos_boot_verified (evaluate_report sample_request (Some 0) (Inr e))) in
      case assign [''guest_kernel_major''] (num 26) (tcg_report 0 100) of
        None \<Rightarrow> False
      | Some base \<Rightarrow> denied base \<and>
          (case assign_all [([''guest_kernel_major''], num 27), ([''input_integrity''], JBool False)] base of
             None \<Rightarrow> False | Some mutated \<Rightarrow> denied mutated))"

definition evidence_verdict_requires :: bool where
  "evidence_verdict_requires \<longleftrightarrow>
     (let base = tcg_report 100 200 in
      macos_boot_verified (evaluate_report sample_request (Some 0) (Inr base)) \<and>
      \<not> macos_boot_verified (evaluate_report sample_request (Some 2) (Inr base)) \<and>
      (case assign [''observed_markers'', ''userspace'', ''0'', ''byte_offset''] (num 0) base of
         None \<Rightarrow> False
       | Some reversed \<Rightarrow> \<not> macos_boot_verified (evaluate_report sample_request (Some 0) (Inr reversed))) \<and>
      (case assign_all [([''tcg_runtime_started''], JBool False), ([''native_runtime_started''], JBool True)] base of
         None \<Rightarrow> False
       | Some wrong_runtime \<Rightarrow>
           (let out = evaluate_report sample_request (Some 0) (Inr wrong_runtime)
            in \<not> guest_runtime_started out \<and> \<not> macos_boot_verified out)))"

section \<open>Supervised recovery\<close>

abbreviation recovery_outcome :: "json \<Rightarrow> run_outcome" where
  "recovery_outcome e \<equiv> evaluate_report sample_recovery_request (Some 0) (Inr e)"

definition bootx_is_not_boot :: bool where
  "bootx_is_not_boot \<longleftrightarrow>
     (let outcome = recovery_outcome recovery_receipt in
      runner_completed outcome \<and> guest_runtime_started outcome \<and> guest_process_terminated outcome \<and>
      input_integrity outcome \<and> \<not> xnu_executed outcome \<and> \<not> macos_userspace_reached outcome \<and>
      \<not> macos_boot_verified outcome \<and>
      (case recovery_progress_of outcome of
         None \<Rightarrow> False
       | Some progress \<Rightarrow>
           dfu_upload_completed progress \<and> ibec_endpoint_advertised progress \<and>
           stage2_banner_observed progress \<and> stage2_prompt_observed progress \<and>
           restore_sequence_sent progress \<and> bootx_acknowledged progress \<and>
           restore_role_step_count progress = 4) \<and>
      report outcome = Some recovery_receipt \<and> engine outcome = ''qemu-vmapple-recovery'')"

definition identity_rows :: "(string list \<times> json) list" where
  "identity_rows =
     [([''schema''], JString ''26x86.vmapple-tcg/1''), ([''target_major''], num 26),
      ([''requested_output''], JString ''/different-request''),
      ([''launch_report'', ''raw_schema''], JString ''26x86.vmapple-tcg/1''),
      ([''launch_report'', ''identity_valid''], JBool False),
      ([''launch_report'', ''raw'', ''schema''], JString ''wrong''),
      ([''launch_report'', ''raw'', ''target_major''], num 26),
      ([''launch_report'', ''raw'', ''machine_type''], JString ''x86_64''),
      ([''launch_report'', ''raw'', ''personality''], JString ''other''),
      ([''launch_report'', ''raw'', ''guest_os''], JString ''iOS''),
      ([''launch_report'', ''raw'', ''boot_mode''], JString ''direct-macos''),
      ([''launch_report'', ''raw'', ''runtime_started''], num 1),
      ([''launch_report'', ''raw'', ''pid''], JNull)]"

text \<open>The two rows that disagree on the output directory.\<close>

definition output_rows :: "(string list \<times> json) list" where
  "output_rows =
     [([''output''], JString ''/different-run''),
      ([''launch_report'', ''raw'', ''output''], JString ''/different-run'')]"

definition mismatched_identity_rejected :: bool where
  "mismatched_identity_rejected \<longleftrightarrow>
     all_mutants recovery_receipt
       (\<lambda>e. let outcome = recovery_outcome e in
         \<not> guest_runtime_started outcome \<and> \<not> guest_process_terminated outcome \<and>
         \<not> macos_boot_verified outcome \<and> recovery_progress_of outcome = Some progress_default)
       (identity_rows @ output_rows)"

definition process_rows :: "(string list \<times> json) list" where
  "process_rows =
     [([''worker'', ''process_inventory_complete''], JBool False),
      ([''launch_report'', ''runtime_pid_observed''], JBool False),
      ([''worker'', ''observed_processes''], JNull), ([''worker'', ''observed_processes''], JArray []),
      ([''worker'', ''pid''], JNull)]"

definition inventory_rows :: "(string list \<times> json) list" where
  "inventory_rows =
     [([''worker'', ''observed_processes'', ''1'', ''starttime''], num 0),
      ([''worker'', ''observed_processes'', ''1'', ''session''], num 999),
      ([''worker'', ''observed_processes'', ''1'', ''pid''], num 999),
      ([''launch_report'', ''raw'', ''pid''], num 12), ([''launch_report'', ''raw'', ''pid''], num 999)]"

definition reused_process :: json where
  "reused_process = JObject [(''pid'', num 13), (''starttime'', num 120), (''session'', num 12)]"

definition unique_qemu_required :: bool where
  "unique_qemu_required \<longleftrightarrow>
     all_mutants sample_receipt
       (\<lambda>e. let outcome = recovery_outcome e in
         \<not> guest_runtime_started outcome \<and> \<not> guest_process_terminated outcome \<and>
         \<not> xnu_executed outcome \<and> \<not> macos_boot_verified outcome)
       (process_rows @ inventory_rows) \<and>
     all_mutants sample_receipt (\<lambda>reused. \<not> guest_runtime_started (recovery_outcome reused))
       [([''worker'', ''observed_processes''],
         JArray (array_items (json_path sample_receipt [''worker'', ''observed_processes'']) @
           [reused_process]))]"

definition cleanup_rows :: "(string list \<times> json) list" where
  "cleanup_rows =
     [([''cleanup'', ''complete''], JNull), ([''cleanup'', ''complete''], JBool False),
      ([''cleanup'', ''leader_reaped''], JBool False), ([''cleanup'', ''remaining_pids''], JNull),
      ([''cleanup'', ''remaining_pids''], JArray [num 42]), ([''cleanup'', ''remaining_pids''], JObject [])]"

definition transport_loss_unconfirmed :: bool where
  "transport_loss_unconfirmed \<longleftrightarrow>
     list_all (\<lambda>parsed. let outcome = evaluate_report sample_recovery_request (Some 0) parsed in
         \<not> guest_process_terminated outcome \<and> \<not> macos_boot_verified outcome)
       [Inl ''WSL transport closed'', Inr JNull, Inr (JArray []),
        Inr (JObject [(''error'', JString ''supervisor unavailable'')])] \<and>
     all_mutants recovery_receipt
       (\<lambda>e. let outcome = recovery_outcome e in
         guest_runtime_started outcome \<and> \<not> guest_process_terminated outcome \<and>
         \<not> macos_boot_verified outcome) cleanup_rows"

definition evidence_rows :: "(string list \<times> json) list" where
  "evidence_rows =
     [([''boot'', ''macos_boot_verified''], JBool False), ([''boot'', ''target_match''], JBool False),
      ([''boot'', ''guest_kernel_major''], num 26), ([''input_integrity'', ''unchanged''], JNull),
      ([''worker'', ''completed''], JBool False), ([''worker'', ''returncode''], num 2),
      ([''launch_report'', ''complete''], JBool False), ([''deadline'', ''exceeded''], JBool True),
      ([''cancel'', ''requested''], JBool True),
      ([''launch_report'', ''raw'', ''guest_panic'', ''observed''], JBool True),
      ([''launch_report'', ''raw'', ''input_integrity''], JBool False),
      ([''launch_report'', ''raw'', ''guest_kernel_major''], num 26),
      ([''launch_report'', ''raw'', ''iboot_xnu_handoff'', ''claims'', ''macos_boot_verified''], JBool False),
      ([''launch_report'', ''raw'', ''restore_chain'', ''bootx_acknowledged''], JBool False)]"

definition marker_rows :: "(string list \<times> json) list" where
  "marker_rows =
     [([''launch_report'', ''raw'', ''observed_markers''], JNull),
      ([''launch_report'', ''raw'', ''observed_markers'', ''xnu'', ''0'', ''kernel_major''], num 26),
      ([''launch_report'', ''raw'', ''observed_markers'', ''userspace'', ''0'', ''byte_offset''], num 50),
      ([''launch_report'', ''raw'', ''stage2'', ''byte_offset''], num 150)]"

definition strict_evidence_required :: bool where
  "strict_evidence_required \<longleftrightarrow>
     macos_boot_verified (recovery_outcome sample_receipt) \<and>
     all_mutants sample_receipt (\<lambda>e. \<not> macos_boot_verified (recovery_outcome e))
       (evidence_rows @ marker_rows) \<and>
     list_all (\<lambda>exit. \<not> macos_boot_verified
         (evaluate_report sample_recovery_request exit (Inr sample_receipt))) [None, Some 1, Some 2]"

definition relative_rows :: "(string list \<times> json) list" where
  "relative_rows =
     [([''requested_output''], JString ''runs/../result''), ([''output''], JString ''/source/result''),
      ([''launch_report'', ''raw'', ''output''], JString ''/source/result''),
      ([''launch_report'', ''path''], JString ''/source/result/launch.json'')]"

definition output_correlated :: bool where
  "output_correlated \<longleftrightarrow>
     (let request = sample_recovery_request\<lparr>output_path := ''runs/../result''\<rparr>;
          started = (\<lambda>e. guest_runtime_started (evaluate_report request (Some 0) (Inr e)))
      in case assign_all relative_rows recovery_receipt of
        None \<Rightarrow> False
      | Some base \<Rightarrow>
          (let outcome = evaluate_report request (Some 0) (Inr base)
           in guest_runtime_started outcome \<and> guest_process_terminated outcome \<and>
             \<not> macos_boot_verified outcome) \<and>
          (case assign [''requested_output''] JNull base of None \<Rightarrow> False | Some e \<Rightarrow> \<not> started e) \<and>
          list_all (\<lambda>output. case assign_all
              [([''output''], output), ([''launch_report'', ''raw'', ''output''], output)] base of
              None \<Rightarrow> False | Some e \<Rightarrow> \<not> started e)
            [JNull, JString ''relative-only''])"

definition roles_counted :: bool where
  "roles_counted \<longleftrightarrow>
     (let chain = [''launch_report'', ''raw'', ''restore_chain''] in
      case assign (chain @ [''steps'', ''3'', ''upload'', ''transfer_complete'']) (JBool False) recovery_receipt of
        None \<Rightarrow> False
      | Some changed \<Rightarrow>
         (let steps = array_items (json_path changed (chain @ [''steps''])) in
          case assign (chain @ [''steps'']) (JArray (steps @ [steps ! 0])) changed of
            None \<Rightarrow> False
          | Some base \<Rightarrow>
             (case recovery_progress_of (recovery_outcome base) of
                None \<Rightarrow> False
              | Some progress \<Rightarrow>
                  restore_role_step_count progress = 3 \<and> \<not> restore_sequence_sent progress) \<and>
             (case assign (chain @ [''post_bootx_panic'']) (JBool True) base of
                None \<Rightarrow> False
              | Some panicked \<Rightarrow>
                  (case recovery_progress_of (recovery_outcome panicked) of
                     None \<Rightarrow> False
                   | Some progress \<Rightarrow> firmware_panic_observed progress) \<and>
                  \<not> macos_boot_verified (recovery_outcome panicked))))"

section \<open>Reading the receipts\<close>

text \<open>The entries of a receipt and of a launch report, read without unfolding their other entries.\<close>

lemma receipt_gets:
  "json_get (receipt_of raw booted major) ''schema'' = Some (JString ''nextcore.recovery-supervisor/1'')"
  "json_get (receipt_of raw booted major) ''target_major'' = Some (num 27)"
  "json_get (receipt_of raw booted major) ''requested_output'' = Some (JString ''/output/new-run'')"
  "json_get (receipt_of raw booted major) ''output'' = Some (JString ''/output/new-run'')"
  "json_get (receipt_of raw booted major) ''worker'' = Some sample_worker"
  "json_get (receipt_of raw booted major) ''cleanup'' = Some (JObject [(''leader_reaped'', JBool True),
     (''remaining_pids'', JArray []), (''complete'', JBool True)])"
  "json_get (receipt_of raw booted major) ''input_integrity'' =
     Some (JObject [(''unchanged'', JBool True), (''records'', JArray [])])"
  "json_get (receipt_of raw booted major) ''deadline'' =
     Some (JObject [(''total_timeout_seconds'', num 75), (''cleanup_grace_seconds'', num 5),
       (''exceeded'', JBool False)])"
  "json_get (receipt_of raw booted major) ''cancel'' =
     Some (JObject [(''requested'', JBool False), (''reason'', JNull), (''signal'', JNull)])"
  "json_get (receipt_of raw booted major) ''launch_report'' =
     Some (JObject [(''path'', JString ''/output/new-run/launch.json''),
       (''complete'', JBool True), (''raw_schema'', JString ''26x86.vmapple-gui/1''),
       (''identity_valid'', JBool True), (''runtime_pid_observed'', JBool True), (''raw'', raw)])"
  "json_get (receipt_of raw booted major) ''boot'' =
     Some (JObject [(''xnu_executed'', JBool booted), (''guest_kernel_major'', major),
       (''target_match'', JBool booted), (''userspace'', JBool booted),
       (''macos_boot_verified'', JBool booted)])"
  by (simp_all add: receipt_of_def)

lemma launch_gets:
  "json_get (launch_of booted major evidence) ''schema'' = Some (JString ''26x86.vmapple-gui/1'')"
  "json_get (launch_of booted major evidence) ''target_major'' = Some (num 27)"
  "json_get (launch_of booted major evidence) ''output'' = Some (JString ''/output/new-run'')"
  "json_get (launch_of booted major evidence) ''machine_type'' = Some (JString ''iBoot(AArch64)'')"
  "json_get (launch_of booted major evidence) ''personality'' = Some (JString ''iBoot'')"
  "json_get (launch_of booted major evidence) ''guest_os'' = Some (JString ''macOS'')"
  "json_get (launch_of booted major evidence) ''boot_mode'' = Some (JString ''recovery'')"
  "json_get (launch_of booted major evidence) ''runtime_started'' = Some (JBool True)"
  "json_get (launch_of booted major evidence) ''pid'' = Some (num 13)"
  "json_get (launch_of booted major evidence) ''stage2'' =
     Some (JObject [(''stage2_serial_started'', JBool True), (''stage2_serial_start_byte_offset'', num 5),
       (''observed'', JBool True), (''byte_offset'', num 20)])"
  "json_get (launch_of booted major evidence) ''restore_chain'' =
     Some (JObject [(''sequence_sent'', JBool True), (''input_integrity'', JBool True),
       (''bootx_acknowledged'', JBool True), (''steps'', sample_steps)])"
  "json_get (launch_of booted major evidence) ''guest_panic'' =
     Some (JObject [(''observed'', JBool False)])"
  "json_get (launch_of booted major evidence) ''input_integrity'' = Some (JBool True)"
  "json_get (launch_of booted major evidence) ''guest_kernel_major'' = Some major"
  by (simp_all add: launch_of_def)

lemma launch_get_evidence:
  "json_get sample_raw_launch ''observed_markers'' = Some sample_markers"
  "json_get sample_raw_launch ''iboot_xnu_handoff'' = Some sample_handoff_value"
  "json_get sample_raw_launch ''observation'' = None"
  by (simp_all add: sample_raw_launch_def launch_of_def)

lemmas sample_launch_gets = launch_get_evidence launch_gets [of True "num 27"
   "[(''macos_userspace_reached'', JBool True), (''observed_markers'', sample_markers),
     (''iboot_xnu_handoff'', sample_handoff_value)]", folded sample_raw_launch_def]

section \<open>The rows that miss a required field\<close>

text \<open>Whether a pointer resolves, read through the entries.\<close>

fun resolves :: "string list \<Rightarrow> json \<Rightarrow> bool" where
  "resolves [] v = True"
| "resolves (k # ks) v =
     (if is_object v then (case json_get v k of Some w \<Rightarrow> resolves ks w | None \<Rightarrow> False)
      else (case as_array v of
          None \<Rightarrow> False
        | Some vs \<Rightarrow> (case token_index k (length vs) of None \<Rightarrow> False | Some i \<Rightarrow> resolves ks (vs ! i))))"

lemma receipt_objects [simp]: "is_object (receipt_of raw b m)" "is_object (launch_of b' m' ev)"
    "is_object sample_worker" "is_object sample_raw_launch" "is_object sample_receipt"
    "is_object recovery_receipt"
  by (simp_all add: receipt_of_def launch_of_def sample_worker_def sample_raw_launch_def
      sample_receipt_def recovery_receipt_def)

lemma tokens: "token_index ''0'' (Suc 0) = Some 0" "token_index ''1'' 2 = Some 1"
    "token_index ''1'' (Suc (Suc 0)) = Some 1" "token_index ''3'' 4 = Some 3"
    "token_index ''3'' (Suc (Suc (Suc (Suc 0)))) = Some 3"
  by (simp_all add: token_index_def decimal.simps decimal_digit_def upt_rec)

lemma resolves_pointer: "resolves p v \<Longrightarrow> pointer_set p x v \<noteq> None"
  by (induction p x v rule: pointer_set.induct) (auto split: option.splits)

lemma has_pointersI: "list_all (\<lambda>(p, v). resolves p base) rows \<Longrightarrow> has_pointers base rows"
  unfolding has_pointers_def by (erule list.pred_mono_strong) (auto dest: resolves_pointer)

lemma rows_present:
  "has_pointers recovery_receipt identity_rows" "has_pointers recovery_receipt cleanup_rows"
  "has_pointers sample_receipt process_rows" "has_pointers sample_receipt evidence_rows"
proof -
  show "has_pointers recovery_receipt identity_rows"
    by (rule has_pointersI) (simp add: identity_rows_def recovery_receipt_def receipt_gets launch_gets)
  show "has_pointers recovery_receipt cleanup_rows"
    by (rule has_pointersI) (simp add: cleanup_rows_def recovery_receipt_def receipt_gets)
  show "has_pointers sample_receipt process_rows"
    by (rule has_pointersI)
      (simp add: process_rows_def sample_receipt_def receipt_gets sample_worker_def)
  show "has_pointers sample_receipt evidence_rows"
    by (rule has_pointersI)
      (simp add: evidence_rows_def sample_receipt_def receipt_gets sample_worker_def
        sample_launch_gets sample_handoff_value_def)
qed

lemma rows_miss:
  "misses (identity_fields sample_recovery_request) identity_rows"
  "misses (identity_fields sample_recovery_request) process_rows"
  "misses cleanup_fields cleanup_rows"
  "misses (evidence_fields sample_recovery_request) evidence_rows"
proof -
  have "to_str (output_path sample_recovery_request) = Some ''/output/new-run''"
    by (simp add: sample_recovery_request_def sample_request_def to_str_def ascii_is_str)
  note conditions = names_entry_def says_def counts_def num_def sample_target is_true_def
    nonempty_array_def pid_of_def this
  show "misses (identity_fields sample_recovery_request) identity_rows"
    by (simp add: misses_def identity_rows_def identity_fields_def conditions)
  show "misses (identity_fields sample_recovery_request) process_rows"
    by (simp add: misses_def process_rows_def identity_fields_def conditions)
  show "misses cleanup_fields cleanup_rows"
    by (simp add: misses_def cleanup_rows_def cleanup_fields_def conditions)
  show "misses (evidence_fields sample_recovery_request) evidence_rows"
    by (simp add: misses_def evidence_rows_def evidence_fields_def conditions)
qed

section \<open>The tests hold\<close>

lemma sample_evaluator: "evaluate_report sample_recovery_request x parsed =
    evaluate_recovery_report sample_recovery_request x parsed"
  by (simp add: evaluate_report_def sample_recovery_request_def)

lemma sample_engine: "backend_engine (run_backend sample_recovery_request) = ''qemu-vmapple-recovery''"
  by (simp add: sample_recovery_request_def)

text \<open>A receipt whose guest is not started claims nothing.\<close>

lemma not_started:
  assumes "\<not> recovery_runtime sample_recovery_request e"
  shows "\<not> guest_runtime_started (recovery_outcome e)" "\<not> guest_process_terminated (recovery_outcome e)"
    "\<not> xnu_executed (recovery_outcome e)" "\<not> macos_boot_verified (recovery_outcome e)"
    "recovery_progress_of (recovery_outcome e) = Some progress_default"
  using assms by (simp_all add: sample_evaluator evaluate_recovery_report_def Let_def
      recovery_terminated_def recovery_xnu_def recovery_verified_def recovery_progress_value_def)

lemma identity_missed:
  "\<not> meets e (identity_fields sample_recovery_request) \<Longrightarrow> \<not> recovery_runtime sample_recovery_request e"
  using started_identity by blast

text \<open>The outcome of the receipt without boot evidence.\<close>

lemma base_raw: "raw_of recovery_receipt = launch_of False JNull []"
  by (simp add: raw_of_def recovery_receipt_def json_index_def receipt_gets)

lemma base_identity: "launch_identity sample_recovery_request recovery_receipt"
    "recovery_identity sample_recovery_request recovery_receipt"
proof -
  have "to_str (output_path sample_recovery_request) = Some ''/output/new-run''"
    by (simp add: sample_recovery_request_def sample_request_def to_str_def ascii_is_str)
  then show "launch_identity sample_recovery_request recovery_receipt"
      "recovery_identity sample_recovery_request recovery_receipt"
    unfolding launch_identity_def recovery_identity_def canonical_output_def base_raw sample_target Let_def
    by (simp_all add: recovery_receipt_def json_index_def receipt_gets launch_gets is_true_def num_def NUL_def)
qed

lemma base_runtime: "recovery_runtime sample_recovery_request recovery_receipt"
  unfolding recovery_runtime_def runtime_pid_observed_def worker_pid_def qemu_pid_def base_raw
  using base_identity(1)
  by (simp add: recovery_receipt_def json_index_def receipt_gets launch_gets is_true_def num_def
      sample_worker_def pid_of_def)

lemma base_stages:
  "recovery_cleanup sample_recovery_request recovery_receipt"
  "recovery_intact sample_recovery_request recovery_receipt"
  "\<not> recovery_xnu sample_recovery_request recovery_receipt"
  unfolding recovery_cleanup_def recovery_intact_def recovery_xnu_def
  using base_identity(2)
  by (simp_all add: recovery_receipt_def json_index_def receipt_gets is_true_def)

lemma sample_uploaded: "map (role_uploaded (launch_of b m ev)) restore_roles = [True, True, True, True, False]"
  by (simp add: restore_roles_def role_uploaded_def json_index_def launch_gets sample_steps_def is_true_def)

lemma base_progress:
  "recovery_progress_value sample_recovery_request recovery_receipt =
     \<lparr>dfu_upload_completed = True, ibec_endpoint_advertised = True, stage2_banner_observed = True,
      stage2_prompt_observed = True, restore_sequence_sent = True, restore_role_step_count = 4,
      bootx_acknowledged = True, firmware_panic_observed = False\<rparr>"
  unfolding recovery_progress_value_def Let_def base_raw uploaded_roles_def sample_uploaded
  using base_runtime
  by (simp add: json_index_def launch_gets is_true_def num_def launch_of_def)

lemma bootx_is_not_boot_holds: bootx_is_not_boot
  using base_runtime base_stages
  by (simp add: bootx_is_not_boot_def sample_evaluator evaluate_recovery_report_def Let_def
      base_progress recovery_terminated_def recovery_userspace_def recovery_verified_def report_of_def
      sample_engine)

text \<open>Reading a receipt after an assignment.\<close>

lemma pointer_set_get:
  assumes "pointer_set (k # ks) x v = Some v'" and "is_object v"
  shows "is_object v'"
    and "json_get v' l = (if l = k then Option.bind (json_get v k) (pointer_set ks x) else json_get v l)"
proof -
  obtain kvs where v: "v = JObject kvs" using assms(2) by (cases v) auto
  obtain w w' where w: "map_of kvs k = Some w" "pointer_set ks x w = Some w'"
      "v' = JObject (AList.update k w' kvs)"
    using assms(1) by (auto simp: v split: option.splits)
  show "is_object v'" by (simp add: w(3))
  show "json_get v' l = (if l = k then Option.bind (json_get v k) (pointer_set ks x) else json_get v l)"
    using w(1,2) by (simp add: v w(3) update_conv')
qed

lemma assign_get:
  assumes "assign (k # ks) x v = Some v'" and "is_object v"
  shows "is_object v'"
    and "json_get v' l = (if l = k then assign ks x (json_index v k) else json_get v l)"
proof -
  obtain kvs where v: "v = JObject kvs" using assms(2) by (cases v) auto
  obtain w where w: "assign ks x (json_index v k) = Some w" "v' = JObject (AList.update k w kvs)"
    using assms(1) by (auto simp: v json_index_def)
  show "is_object v'" by (simp add: w(2))
  show "json_get v' l = (if l = k then assign ks x (json_index v k) else json_get v l)"
    using w(1) by (simp add: v w(2) update_conv')
qed

lemma mismatched_identity_rejected_holds: mismatched_identity_rejected
proof -
  let ?ok = "\<lambda>e. let outcome = recovery_outcome e in
         \<not> guest_runtime_started outcome \<and> \<not> guest_process_terminated outcome \<and>
         \<not> macos_boot_verified outcome \<and> recovery_progress_of outcome = Some progress_default"
  have missed: "?ok e" if "\<not> recovery_runtime sample_recovery_request e" for e
    using not_started [OF that] by (simp add: Let_def)
  have "all_mutants recovery_receipt ?ok identity_rows"
    by (rule mutants_by_table [OF rows_present(1) rows_miss(1)])
      (rule missed, rule identity_missed)
  moreover have "?ok e" if "pointer_set [''output''] (JString ''/different-run'') recovery_receipt = Some e" for e
  proof (rule missed)
    note get = pointer_set_get(2) [OF that receipt_objects(6)]
    show "\<not> recovery_runtime sample_recovery_request e"
      by (simp add: recovery_runtime_def launch_identity_def Let_def raw_of_def canonical_output_def
          json_index_def get recovery_receipt_def receipt_gets launch_gets NUL_def)
  qed
  moreover have "?ok e"
    if "pointer_set [''launch_report'', ''raw'', ''output''] (JString ''/different-run'') recovery_receipt = Some e" for e
  proof (rule missed)
    note get = pointer_set_get(2) [OF that receipt_objects(6)]
    obtain w where w: "pointer_set [''output''] (JString ''/different-run'') (launch_of False JNull []) = Some w"
      using resolves_pointer [of "[''output'']" "launch_of False JNull []"] by (auto simp: launch_gets)
    show "\<not> recovery_runtime sample_recovery_request e"
      by (simp add: recovery_runtime_def launch_identity_def Let_def raw_of_def canonical_output_def
          json_index_def get recovery_receipt_def receipt_gets launch_gets w pointer_set_get(2) [OF w] NUL_def)
  qed
  moreover have "has_pointers recovery_receipt output_rows"
    by (rule has_pointersI) (simp add: output_rows_def recovery_receipt_def receipt_gets launch_gets)
  ultimately have "all_mutants recovery_receipt ?ok output_rows"
    by (elim all_mutantsI) (auto simp only: output_rows_def list.set prod.inject)
  with \<open>all_mutants recovery_receipt ?ok identity_rows\<close> show ?thesis
    by (simp only: mismatched_identity_rejected_def all_mutants_append)
qed

text \<open>The launch report inside a receipt after an assignment to it.\<close>

lemma raw_after:
  assumes "pointer_set (''launch_report'' # ''raw'' # q) v sample_receipt = Some e"
  obtains w where "pointer_set q v sample_raw_launch = Some w" and "raw_of e = w"
    and "\<And>l. l \<noteq> ''launch_report'' \<Longrightarrow> json_get e l = json_get sample_receipt l"
proof -
  note get = pointer_set_get(2) [OF assms receipt_objects(5)]
  obtain r where r: "json_get e ''launch_report'' = Some r"
      "pointer_set (''raw'' # q) v (JObject [(''path'', JString ''/output/new-run/launch.json''),
        (''complete'', JBool True), (''raw_schema'', JString ''26x86.vmapple-gui/1''),
        (''identity_valid'', JBool True), (''runtime_pid_observed'', JBool True),
        (''raw'', sample_raw_launch)]) = Some r"
    using assms get [of "''launch_report''"]
    by (cases "json_get e ''launch_report''")
      (auto simp: sample_receipt_def receipt_of_def split: option.splits)
  then obtain w where "pointer_set q v sample_raw_launch = Some w" "json_index r ''raw'' = w"
    by (auto simp: json_index_def update_conv')
  then show ?thesis using that r(1) get by (auto simp: raw_of_def json_index_def)
qed

lemma not_observed: "\<not> runtime_pid_observed e \<Longrightarrow> \<not> recovery_runtime q e"
  by (simp add: recovery_runtime_def)

lemma inventory_rows_rejected:
  assumes "(p, v) \<in> set inventory_rows" and e: "pointer_set p v sample_receipt = Some e"
  shows "\<not> recovery_runtime sample_recovery_request e"
proof (rule not_observed)
  consider (worker) q where "p = ''worker'' # ''observed_processes'' # ''1'' # q"
      "q = [''starttime''] \<and> v = num 0 \<or> q = [''session''] \<and> v = num 999 \<or> q = [''pid''] \<and> v = num 999"
    | (raw) "p = [''launch_report'', ''raw'', ''pid'']" "v = num 12 \<or> v = num 999"
    using assms(1) by (auto simp: inventory_rows_def)
  then show "\<not> runtime_pid_observed e"
  proof cases
    case worker
    note get = pointer_set_get(2) [OF e [unfolded worker(1)] receipt_objects(5)]
    show ?thesis
      using worker(2)
      by (auto simp: runtime_pid_observed_def worker_pid_def qemu_pid_def raw_of_def json_index_def get
          sample_receipt_def receipt_gets sample_launch_gets sample_worker_def tokens num_def pid_of_def)
  next
    case raw
    obtain w where w: "pointer_set [''pid''] v sample_raw_launch = Some w" "raw_of e = w"
        "\<And>l. l \<noteq> ''launch_report'' \<Longrightarrow> json_get e l = json_get sample_receipt l"
      using e raw(1) by (auto elim: raw_after)
    show ?thesis
      using raw(2)
      by (auto simp: runtime_pid_observed_def worker_pid_def qemu_pid_def json_index_def w
          pointer_set_get(2) [OF w(1)] sample_receipt_def receipt_gets sample_launch_gets
          sample_worker_def num_def pid_of_def)
  qed
qed

lemma rows_present_arrays:
  "has_pointers sample_receipt inventory_rows" "has_pointers sample_receipt marker_rows"
proof -
  show "has_pointers sample_receipt inventory_rows"
    by (rule has_pointersI)
      (simp add: inventory_rows_def sample_receipt_def receipt_gets sample_worker_def sample_launch_gets tokens)
  show "has_pointers sample_receipt marker_rows"
    by (rule has_pointersI)
      (simp add: marker_rows_def sample_receipt_def receipt_gets sample_launch_gets sample_markers_def tokens)
qed

lemma unique_qemu_required_holds: unique_qemu_required
proof -
  let ?ok = "\<lambda>e. let outcome = recovery_outcome e in
         \<not> guest_runtime_started outcome \<and> \<not> guest_process_terminated outcome \<and>
         \<not> xnu_executed outcome \<and> \<not> macos_boot_verified outcome"
  have missed: "?ok e" if "\<not> recovery_runtime sample_recovery_request e" for e
    using not_started [OF that] by (simp add: Let_def)
  have "all_mutants sample_receipt ?ok process_rows"
    by (rule mutants_by_table [OF rows_present(3) rows_miss(2)]) (rule missed, rule identity_missed)
  moreover have "all_mutants sample_receipt ?ok inventory_rows"
    by (rule all_mutantsI [OF rows_present_arrays(1)]) (rule missed, rule inventory_rows_rejected)
  moreover
  have items: "array_items (json_path sample_receipt [''worker'', ''observed_processes'']) @ [reused_process] =
      [JObject [(''pid'', num 12), (''starttime'', num 100), (''session'', num 12)],
       JObject [(''pid'', num 13), (''starttime'', num 110), (''session'', num 12)], reused_process]"
    by (simp add: sample_receipt_def json_index_def receipt_gets sample_worker_def array_items_def)
  obtain e where e: "pointer_set [''worker'', ''observed_processes'']
      (JArray (array_items (json_path sample_receipt [''worker'', ''observed_processes'']) @ [reused_process]))
      sample_receipt = Some e"
    using resolves_pointer [of "[''worker'', ''observed_processes'']" sample_receipt]
    by (fastforce simp: sample_receipt_def receipt_gets sample_worker_def)
  have "\<not> runtime_pid_observed e"
    using pointer_set_get(2) [OF e [unfolded items] receipt_objects(5)]
    by (simp add: runtime_pid_observed_def worker_pid_def qemu_pid_def raw_of_def json_index_def
        sample_receipt_def receipt_gets sample_launch_gets sample_worker_def reused_process_def num_def pid_of_def)
  then have "\<not> guest_runtime_started (recovery_outcome e)"
    using not_started(1) not_observed by blast
  ultimately show ?thesis
    using e by (simp add: unique_qemu_required_def all_mutants_append) (simp add: all_mutants_def)
qed

lemma cleanup_independent:
  assumes "\<And>l. l \<noteq> ''cleanup'' \<Longrightarrow> json_get e l = json_get e0 l"
  shows "recovery_runtime q e = recovery_runtime q e0"
proof -
  have index: "json_index e l = json_index e0 l" if "l \<noteq> ''cleanup''" for l
    using assms [OF that] by (simp add: json_index_def)
  have same: "raw_of e = raw_of e0" "canonical_output e = canonical_output e0"
    by (simp_all add: raw_of_def canonical_output_def index)
  then have pids: "worker_pid e = worker_pid e0" "qemu_pid e = qemu_pid e0"
    by (simp_all add: worker_pid_def qemu_pid_def index)
  have "runtime_pid_observed e = runtime_pid_observed e0"
    unfolding runtime_pid_observed_def pids by (simp add: index)
  moreover have "recovery_identity q e = recovery_identity q e0" "launch_identity q e = launch_identity q e0"
    using same by (simp_all add: recovery_identity_def launch_identity_def index Let_def)
  ultimately show ?thesis using same by (simp add: recovery_runtime_def)
qed

lemma transport_loss_unconfirmed_holds: transport_loss_unconfirmed
proof -
  have "\<not> recovery_runtime sample_recovery_request v"
    if "v \<in> {JNull, JArray [], JObject [(''error'', JString ''supervisor unavailable'')]}" for v
    using that by (auto simp: recovery_runtime_def launch_identity_def recovery_identity_def json_index_def)
  then have lost: "\<not> guest_process_terminated (recovery_outcome v)" "\<not> macos_boot_verified (recovery_outcome v)"
    if "v \<in> {JNull, JArray [], JObject [(''error'', JString ''supervisor unavailable'')]}" for v
    using not_started that by blast+
  let ?ok = "\<lambda>e. let outcome = recovery_outcome e in
         guest_runtime_started outcome \<and> \<not> guest_process_terminated outcome \<and>
         \<not> macos_boot_verified outcome"
  have "?ok e" if e: "(p, v) \<in> set cleanup_rows" "pointer_set p v recovery_receipt = Some e" for p v e
  proof -
    obtain q where p: "p = ''cleanup'' # q" using e(1) by (auto simp: cleanup_rows_def)
    have "recovery_runtime sample_recovery_request e"
      using base_runtime cleanup_independent [of e recovery_receipt]
        pointer_set_get(2) [OF e(2) [unfolded p] receipt_objects(6)] by simp
    moreover have "\<not> recovery_cleanup sample_recovery_request e"
      using row_missed [OF rows_miss(3) e] terminated_cleanup by blast
    ultimately show ?thesis
      by (simp add: Let_def sample_evaluator evaluate_recovery_report_def recovery_terminated_def
          recovery_verified_def)
  qed
  then have "all_mutants recovery_receipt ?ok cleanup_rows"
    by (rule all_mutantsI [OF rows_present(2)])
  then show ?thesis
    using lost report_verdict.no_report_no_claims [of sample_recovery_request "Some 0" "''WSL transport closed''"]
    by (simp add: transport_loss_unconfirmed_def Let_def)
qed

lemma unverified:
  assumes "\<not> recovery_verified sample_recovery_request (Some 0) e"
  shows "\<not> macos_boot_verified (recovery_outcome e)"
  using assms by (simp add: sample_evaluator evaluate_recovery_report_def Let_def)

lemma no_marker_unverified:
  assumes "recovery_xnu_offset sample_recovery_request e = None \<or>
    recovery_userspace_offset sample_recovery_request e = None"
  shows "\<not> recovery_verified sample_recovery_request (Some 0) e"
  using assms by (auto simp: recovery_verified_def recovery_xnu_def recovery_userspace_def Let_def)

lemma marker_rows_unverified:
  assumes "(p, v) \<in> set marker_rows" and e: "pointer_set p v sample_receipt = Some e"
  shows "\<not> recovery_verified sample_recovery_request (Some 0) e"
proof -
  obtain q where q: "p = ''launch_report'' # ''raw'' # q" "(q, v) \<in>
      {([''observed_markers''], JNull), ([''observed_markers'', ''xnu'', ''0'', ''kernel_major''], num 26),
       ([''observed_markers'', ''userspace'', ''0'', ''byte_offset''], num 50), ([''stage2'', ''byte_offset''], num 150)}"
    using assms(1) by (auto simp: marker_rows_def)
  obtain w where w: "pointer_set q v sample_raw_launch = Some w" "raw_of e = w"
    using e q(1) by (auto elim: raw_after)
  have get: "json_get w l = (if l = hd q then Option.bind (json_get sample_raw_launch (hd q)) (pointer_set (tl q) v)
      else json_get sample_raw_launch l)" for l
    using pointer_set_get(2) [of "hd q" "tl q" v sample_raw_launch w l] w(1) q(2) by auto
  have obs: "observation_of w = w"
    using q(2) by (auto simp: observation_of_def get sample_launch_gets)
  note read = recovery_xnu_offset_def recovery_userspace_offset_def recovery_markers_def w(2) obs
    json_index_def get sample_launch_gets sample_markers_def json_reads sample_target [unfolded target64_def] tokens
  consider (none) "v = JNull" "q = [''observed_markers'']"
    | (major) "v = num 26" "q = [''observed_markers'', ''xnu'', ''0'', ''kernel_major'']"
    | (early) "v = num 50" "q = [''observed_markers'', ''userspace'', ''0'', ''byte_offset'']"
    | (stage2) "v = num 150" "q = [''stage2'', ''byte_offset'']"
    using q(2) by auto
  then show ?thesis
  proof cases
    case none
    then show ?thesis by (intro no_marker_unverified) (simp add: read)
  next
    case major
    then show ?thesis by (intro no_marker_unverified) (simp add: read)
  next
    case early
    then show ?thesis by (intro no_marker_unverified) (simp add: read)
  next
    case stage2
    then have "recovery_xnu_offset sample_recovery_request e = Some 100"
        "as_u64 (json_path (raw_of e) [''stage2'', ''byte_offset'']) = Some 150"
      by (simp_all add: read)
    then show ?thesis by (simp add: recovery_verified_def Let_def)
  qed
qed

lemma strict_evidence_required_holds: strict_evidence_required
proof -
  have "all_mutants sample_receipt (\<lambda>e. \<not> macos_boot_verified (recovery_outcome e)) evidence_rows"
    by (rule mutants_by_table [OF rows_present(4) rows_miss(4)], rule unverified)
      (use verified_evidence in blast)
  moreover have "all_mutants sample_receipt (\<lambda>e. \<not> macos_boot_verified (recovery_outcome e)) marker_rows"
    by (rule all_mutantsI [OF rows_present_arrays(2)]) (rule unverified, rule marker_rows_unverified)
  moreover have "\<not> macos_boot_verified (evaluate_report sample_recovery_request x (Inr sample_receipt))"
    if "x \<noteq> Some 0" for x
    using report_verdict.verified_flags that by blast
  ultimately show ?thesis
    using sample_receipt_verified by (simp add: strict_evidence_required_def all_mutants_append)
qed

text \<open>Native and raw-TCG reports.\<close>

lemma assign_path: "assign ks x e = Some e' \<Longrightarrow> list_all names_entry ks \<Longrightarrow> json_path e' ks = x"
proof (induction ks x e arbitrary: e' rule: assign.induct)
  case (2 k ks x kvs)
  then obtain w where "assign ks x (case map_of kvs k of Some v \<Rightarrow> v | None \<Rightarrow> JNull) = Some w"
      "e' = JObject (AList.update k w kvs)" by auto
  then show ?case using 2 by (simp add: json_index_def update_conv' cong: option.case_cong)
next
  case (3 k ks x)
  then show ?case by (auto simp: json_index_def)
qed (auto simp: token_index_entry)

lemma tcg_evaluator: "evaluate_report sample_request x parsed = evaluate_native sample_request x parsed"
  by (simp add: evaluate_report_def sample_request_def)

lemma tcg_backend:
  "backend_schema (run_backend sample_request) = ''26x86.vmapple-tcg/1''"
  "backend_engine (run_backend sample_request) = ''qemu-vmapple-tcg''"
  "is_recovery (run_backend sample_request) = False" "is_native (run_backend sample_request) = False"
  by (simp_all add: sample_request_def)

lemma sample_report_is: "sample_report = tcg_report 100 200"
  by (simp add: sample_report_def tcg_report_def)

lemma tcg_missed:
  assumes "assign ks v e = Some e'" and "list_all names_entry ks"
    and "(ks, ok) \<in> set (verified_fields sample_request)" and "\<not> ok v"
  shows "\<not> macos_boot_verified (evaluate_report sample_request (Some 0) (Inr e'))"
proof -
  have "\<not> meets e' (verified_fields sample_request)"
    using assign_path [OF assms(1,2)] assms(3,4) by (force simp: meets_def list_all_iff)
  then show ?thesis using outcome_meets(3) by blast
qed

lemma boolean_stages:
  "native_runtime sample_request boolean_report" "native_terminated sample_request boolean_report"
  "native_xnu_offset boolean_report = None"
proof -
  show rt: "native_runtime sample_request boolean_report"
    unfolding native_runtime_def native_identity_def tcg_backend sample_target
    by (simp add: sample_request_def) (simp add: boolean_report_def json_index_def yes_def num_def)
  show "native_terminated sample_request boolean_report"
    using rt by (simp add: native_terminated_def) (simp add: boolean_report_def json_index_def num_def)
  show "native_xnu_offset boolean_report = None"
    by (simp add: native_xnu_offset_def marker_offsets_def array_items_def iter_min_def boolean_report_def
        json_index_def List.map_filter_def)
qed

lemma booleans_do_not_prove_boot_holds: booleans_do_not_prove_boot
  using boolean_stages
  by (simp add: booleans_do_not_prove_boot_def tcg_evaluator evaluate_native_def Let_def native_xnu_def
      native_verified_def native_failure_def guest_state_of_def)

lemma preflight_failure_remains_holds: preflight_failure_remains
  unfolding preflight_failure_remains_def tcg_evaluator evaluate_native_def Let_def
  by (simp add: native_failure_def native_runtime_def native_verified_def native_terminated_def
      native_identity_def tcg_backend json_index_def parse_error_of_def first_str_def List.map_filter_def)

lemma wrong_target_denied_holds: wrong_target_denied
proof -
  obtain base where base: "assign [''guest_kernel_major''] (num 26) (tcg_report 0 100) = Some base"
    by (simp add: tcg_report_def)
  have obj: "is_object base" by (rule assign_get(1) [OF base]) (simp add: tcg_report_def)
  then obtain b1 where b1: "assign [''guest_kernel_major''] (num 27) base = Some b1" by (cases base) auto
  have "is_object b1" by (rule assign_get(1) [OF b1 obj])
  then obtain mutated where m: "assign [''input_integrity''] (JBool False) b1 = Some mutated"
    by (cases b1) auto
  have fields: "([''guest_kernel_major''], counts (target64 sample_request)) \<in> set (verified_fields sample_request)"
      "([''input_integrity''], is_true) \<in> set (verified_fields sample_request)"
    by (simp_all add: verified_fields_def tcg_backend native_evidence_fields_def)
  have "\<not> macos_boot_verified (evaluate_report sample_request (Some 0) (Inr base))"
    by (rule tcg_missed [OF base _ fields(1)])
      (simp_all add: names_entry_def counts_def num_def sample_target)
  moreover have "\<not> macos_boot_verified (evaluate_report sample_request (Some 0) (Inr mutated))"
    by (rule tcg_missed [OF m _ fields(2)]) (simp_all add: names_entry_def is_true_def)
  ultimately show ?thesis by (simp add: wrong_target_denied_def assign_all_def base b1 m Let_def)
qed

lemma evidence_verdict_requires_holds: evidence_verdict_requires
proof -
  let ?base = "tcg_report 100 200"
  have base: "macos_boot_verified (evaluate_report sample_request (Some 0) (Inr ?base))"
    using sample_report_verified by (simp only: sample_report_is)
  have exit: "\<not> macos_boot_verified (evaluate_report sample_request (Some 2) (Inr ?base))"
    using report_verdict.verified_flags [of sample_request "Some 2" "Inr ?base"] by auto
  have reversed: "assign [''observed_markers'', ''userspace'', ''0'', ''byte_offset''] (num 0) ?base =
      Some (tcg_report 100 0)"
    by (simp add: tcg_report_def tokens)
  have "native_userspace_offset (tcg_report 100 0) = None"
    by (simp add: native_userspace_offset_def native_xnu_offset_def userspace_after_def tcg_report_def
        json_reads)
  then have rev: "\<not> macos_boot_verified (evaluate_report sample_request (Some 0) (Inr (tcg_report 100 0)))"
    by (simp add: tcg_evaluator evaluate_native_def native_verified_def native_userspace_def Let_def)
  obtain w1 where w1: "assign [''tcg_runtime_started''] (JBool False) ?base = Some w1"
    by (simp add: tcg_report_def)
  have "is_object w1" by (rule assign_get(1) [OF w1]) (simp add: tcg_report_def)
  then obtain w2 where w2: "assign [''native_runtime_started''] (JBool True) w1 = Some w2"
    by (cases w1) auto
  have "json_index w2 ''tcg_runtime_started'' = JBool False"
    using assign_get(2) [OF w2 \<open>is_object w1\<close>] assign_path [OF w1] by (simp add: names_entry_def json_index_def)
  then have "\<not> native_runtime sample_request w2"
    by (auto simp: native_runtime_def sample_request_def yes_is_true is_true_def)
  then have "\<not> guest_runtime_started (evaluate_report sample_request (Some 0) (Inr w2))"
      "\<not> macos_boot_verified (evaluate_report sample_request (Some 0) (Inr w2))"
    by (simp_all add: tcg_evaluator evaluate_native_def native_verified_def native_terminated_def Let_def)
  with base exit rev show ?thesis
    by (simp add: evidence_verdict_requires_def reversed assign_all_def w1 w2 Let_def)
qed

text \<open>Assignments inside the launch report of a receipt.\<close>

lemma assign_all_simps [simp]:
  "assign_all [] e = Some e"
  "assign_all ((p, v) # rows) e = Option.bind (assign p v e) (assign_all rows)"
proof -
  have none: "fold (\<lambda>(p, v) r. Option.bind r (assign p v)) rows None = None" for rows
    by (induction rows) auto
  show "assign_all [] e = Some e" by (simp add: assign_all_def)
  show "assign_all ((p, v) # rows) e = Option.bind (assign p v e) (assign_all rows)"
    by (cases "assign p v e") (simp_all add: assign_all_def none)
qed

lemma assign_all_append: "assign_all (rows @ rows') e = Option.bind (assign_all rows e) (assign_all rows')"
proof (induction rows arbitrary: e)
  case (Cons row rows)
  then show ?case by (cases row; cases "assign (fst row) (snd row) e") auto
qed simp

lemma assign_step:
  assumes "is_object v" and "assign ks x (json_index v k) = Some w"
  obtains v' where "assign (k # ks) x v = Some v'" and "is_object v'"
    and "\<And>l. json_index v' l = (if l = k then w else json_index v l)"
proof -
  obtain kvs where v: "v = JObject kvs" using assms(1) by (cases v) auto
  then have "assign (k # ks) x v = Some (JObject (AList.update k w kvs))"
    using assms(2) by (simp add: json_index_def)
  moreover have "json_index (JObject (AList.update k w kvs)) l = (if l = k then w else json_index v l)" for l
    by (simp add: v json_index_def update_conv')
  ultimately show ?thesis using that [of "JObject (AList.update k w kvs)"] by simp
qed

definition has_launch :: "json \<Rightarrow> bool" where
  "has_launch e \<longleftrightarrow> is_object e \<and> is_object (json_index e ''launch_report'') \<and> is_object (raw_of e)"

text \<open>Two receipts that differ at most in one entry and in one entry of the launch report.\<close>

definition differs :: "string \<Rightarrow> string \<Rightarrow> json \<Rightarrow> json \<Rightarrow> bool" where
  "differs k k' e e' \<longleftrightarrow>
     (\<forall>l. l \<noteq> k \<longrightarrow> l \<noteq> ''launch_report'' \<longrightarrow> json_index e' l = json_index e l) \<and>
     (\<forall>l. l \<noteq> ''raw'' \<longrightarrow> l \<noteq> ''path'' \<longrightarrow>
        json_path e' [''launch_report'', l] = json_path e [''launch_report'', l]) \<and>
     (\<forall>l. l \<noteq> k' \<longrightarrow> json_index (raw_of e') l = json_index (raw_of e) l)"

lemma assign_raw:
  assumes "has_launch e" and "assign q x (json_index (raw_of e) k) = Some w"
  obtains e' where "assign (''launch_report'' # ''raw'' # k # q) x e = Some e'" and "has_launch e'"
    and "differs ''launch_report'' k e e'" and "json_index (raw_of e') k = w"
proof -
  have raw: "raw_of v = json_index (json_index v ''launch_report'') ''raw''" for v
    by (simp add: raw_of_def)
  note obj = assms(1) [unfolded has_launch_def raw]
  obtain r where r: "assign (k # q) x (raw_of e) = Some r" "is_object r"
      "\<And>l. json_index r l = (if l = k then w else json_index (raw_of e) l)"
    using assign_step [of "raw_of e" q x k w] assms by (auto simp: has_launch_def)
  obtain n where n: "assign (''raw'' # k # q) x (json_index e ''launch_report'') = Some n" "is_object n"
      "\<And>l. json_index n l = (if l = ''raw'' then r else json_index (json_index e ''launch_report'') l)"
    using assign_step [of "json_index e ''launch_report''" "k # q" x "''raw''" r] obj r(1) [unfolded raw] by auto
  obtain e' where e': "assign (''launch_report'' # ''raw'' # k # q) x e = Some e'" "is_object e'"
      "\<And>l. json_index e' l = (if l = ''launch_report'' then n else json_index e l)"
    using assign_step [of e "''raw'' # k # q" x "''launch_report''" n] obj n(1) by auto
  show ?thesis
    by (rule that [OF e'(1)]) (simp_all add: has_launch_def differs_def raw e' n r [unfolded raw])
qed

lemma assign_entry:
  assumes "has_launch e" and "k \<noteq> ''launch_report''"
  obtains e' where "assign [k] x e = Some e'" and "has_launch e'" and "differs k [] e e'"
    and "raw_of e' = raw_of e" and "json_index e' k = x"
proof -
  obtain e' where e': "assign [k] x e = Some e'" "is_object e'"
      "\<And>l. json_index e' l = (if l = k then x else json_index e l)"
    using assign_step [of e "[]" x k x] assms by (auto simp: has_launch_def)
  have "raw_of e' = raw_of e" using assms(2) by (simp add: raw_of_def e')
  then show ?thesis
    using assms e' by (intro that [OF e'(1)]) (simp_all add: has_launch_def differs_def)
qed

lemma recovery_receipt_launch: "has_launch recovery_receipt"
  by (simp add: has_launch_def base_raw) (simp add: recovery_receipt_def json_index_def receipt_gets)

lemma relocate:
  assumes "has_launch e"
  obtains e' where "assign_all [([''output''], v), ([''launch_report'', ''raw'', ''output''], v)] e = Some e'"
    and "has_launch e'" and "differs ''output'' ''output'' e e'" and "json_index e' ''output'' = v"
    and "json_index (raw_of e') ''output'' = v"
proof -
  obtain e1 where e1: "assign [''output''] v e = Some e1" "has_launch e1" "differs ''output'' [] e e1"
      "raw_of e1 = raw_of e" "json_index e1 ''output'' = v"
    using assign_entry [OF assms, of "''output''" v] by auto
  obtain e2 where e2: "assign [''launch_report'', ''raw'', ''output''] v e1 = Some e2" "has_launch e2"
      "differs ''launch_report'' ''output'' e1 e2" "json_index (raw_of e2) ''output'' = v"
    using assign_raw [OF e1(2), of "[]" v "''output''" v] by auto
  have "json_index e2 ''output'' = v" using e2(3) e1(5) by (simp add: differs_def)
  moreover have "differs ''output'' ''output'' e e2"
    using e1(3,4) e2(3) by (simp add: differs_def)
  ultimately show ?thesis using that [of e2] e1(1) e2 by simp
qed

lemma differs_path: "differs k k' e e' \<Longrightarrow> l \<noteq> ''raw'' \<Longrightarrow> l \<noteq> ''path'' \<Longrightarrow>
    json_index (json_index e' ''launch_report'') l = json_index (json_index e ''launch_report'') l"
  by (simp add: differs_def)

lemma differs_pids:
  assumes d: "differs k k' e e'" and "k \<noteq> ''worker''" and "k' \<noteq> ''pid''"
  shows "runtime_pid_observed e' = runtime_pid_observed e"
proof -
  have same: "json_index e' ''worker'' = json_index e ''worker''"
      "json_index (raw_of e') ''pid'' = json_index (raw_of e) ''pid''"
    using assms by (auto simp: differs_def)
  then have pids: "worker_pid e' = worker_pid e" "qemu_pid e' = qemu_pid e"
    by (simp_all add: worker_pid_def qemu_pid_def)
  show ?thesis
    unfolding runtime_pid_observed_def pids by (simp add: same differs_path [OF d])
qed

lemma differs_chain:
  assumes d: "differs ''launch_report'' ''restore_chain'' e e'"
  shows "recovery_runtime q e' = recovery_runtime q e"
    and "json_index e' ''boot'' = json_index e ''boot''"
proof -
  have top: "json_index e' l = json_index e l" if "l \<noteq> ''launch_report''" for l
    using d that by (simp add: differs_def)
  have raw: "json_index (raw_of e') l = json_index (raw_of e) l" if "l \<noteq> ''restore_chain''" for l
    using d that by (simp add: differs_def)
  show "recovery_runtime q e' = recovery_runtime q e"
    by (simp add: recovery_runtime_def launch_identity_def recovery_identity_def canonical_output_def
        differs_pids [OF d] differs_path [OF d] top raw Let_def)
  show "json_index e' ''boot'' = json_index e ''boot''" by (simp add: top)
qed

lemma no_boot_unverified:
  assumes "\<not> is_true (json_path e [''boot'', ''xnu_executed''])"
  shows "\<not> recovery_verified q x e"
  using assms by (simp add: recovery_verified_def recovery_xnu_def Let_def)

lemma recovery_receipt_boot: "\<not> is_true (json_path recovery_receipt [''boot'', ''xnu_executed''])"
  by (simp add: recovery_receipt_def json_index_def receipt_gets is_true_def)

text \<open>The chain of the test: the last step is incomplete, the first one is reported twice.\<close>

definition step_of :: "string \<Rightarrow> bool \<Rightarrow> json" where
  "step_of role complete =
     JObject [(''role'', JString role), (''upload'', JObject [(''transfer_complete'', JBool complete)])]"

definition chain_of :: "json list \<Rightarrow> (string \<times> json) list \<Rightarrow> json" where
  "chain_of steps rest = JObject ([(''sequence_sent'', JBool True), (''input_integrity'', JBool True),
     (''bootx_acknowledged'', JBool True), (''steps'', JArray steps)] @ rest)"

definition three_steps :: "json list" where
  "three_steps = [step_of ''RestoreTrustCache'' True, step_of ''RestoreRamDisk'' True,
     step_of ''RestoreDeviceTree'' True]"

lemma chain_start: "json_index (launch_of b m ev) ''restore_chain'' =
    chain_of (three_steps @ [step_of ''RestoreKernelCache'' True]) []"
  by (simp add: json_index_def launch_gets sample_steps_def chain_of_def three_steps_def step_of_def)

lemma chain_incomplete:
  "assign [''steps'', ''3'', ''upload'', ''transfer_complete''] (JBool False)
     (chain_of (three_steps @ [step_of ''RestoreKernelCache'' True]) []) =
   Some (chain_of (three_steps @ [step_of ''RestoreKernelCache'' False]) [])"
  by (simp add: chain_of_def three_steps_def step_of_def tokens)

lemma chain_rest:
  "json_index (chain_of steps rest) ''steps'' = JArray steps"
  "assign [''steps''] (JArray steps') (chain_of steps []) = Some (chain_of steps' [])"
  "assign [''post_bootx_panic''] v (chain_of steps []) = Some (chain_of steps [(''post_bootx_panic'', v)])"
  by (simp_all add: chain_of_def json_index_def)

lemma chain_uploaded:
  assumes "json_index raw ''restore_chain'' = chain_of
    (three_steps @ [step_of ''RestoreKernelCache'' False, step_of ''RestoreTrustCache'' True]) rest"
  shows "uploaded_roles raw = [True, True, True, False, False]"
  using assms by (simp add: uploaded_roles_def restore_roles_def role_uploaded_def chain_rest)
    (simp add: three_steps_def step_of_def json_index_def is_true_def)

abbreviation restore_chain_path :: "string list" where
  "restore_chain_path \<equiv> [''launch_report'', ''raw'', ''restore_chain'']"

abbreviation changed_steps :: "json list" where
  "changed_steps \<equiv> three_steps @ [step_of ''RestoreKernelCache'' False]"

text \<open>The receipt whose last role was not transferred.\<close>

lemma last_role_lost:
  obtains changed where "assign (restore_chain_path @ [''steps'', ''3'', ''upload'', ''transfer_complete''])
      (JBool False) recovery_receipt = Some changed" and "has_launch changed"
    and "differs ''launch_report'' ''restore_chain'' recovery_receipt changed"
    and "json_index (raw_of changed) ''restore_chain'' = chain_of changed_steps []"
    and "array_items (json_path changed (restore_chain_path @ [''steps''])) = changed_steps"
proof -
  obtain changed where changed: "assign (restore_chain_path @ [''steps'', ''3'', ''upload'', ''transfer_complete''])
      (JBool False) recovery_receipt = Some changed" "has_launch changed"
      "differs ''launch_report'' ''restore_chain'' recovery_receipt changed"
      "json_index (raw_of changed) ''restore_chain'' = chain_of changed_steps []"
    using assign_raw [OF recovery_receipt_launch,
        of "[''steps'', ''3'', ''upload'', ''transfer_complete'']" "JBool False" "''restore_chain''"]
    unfolding base_raw chain_start chain_incomplete by auto
  then show ?thesis
    by (intro that [of changed]) (simp_all add: raw_of_def chain_rest array_items_def)
qed

lemma roles_counted_holds: roles_counted
proof -
  let ?chain = restore_chain_path and ?three = changed_steps
  let ?q = sample_recovery_request
  obtain changed where changed: "assign (?chain @ [''steps'', ''3'', ''upload'', ''transfer_complete''])
      (JBool False) recovery_receipt = Some changed" "has_launch changed"
      "differs ''launch_report'' ''restore_chain'' recovery_receipt changed"
      "json_index (raw_of changed) ''restore_chain'' = chain_of ?three []"
    and steps: "array_items (json_path changed (?chain @ [''steps''])) = ?three"
    by (rule last_role_lost)
  define steps where "steps = ?three @ [?three ! 0]"
  have first: "?three ! 0 = step_of ''RestoreTrustCache'' True" by (simp add: three_steps_def)
  obtain base where base: "assign (?chain @ [''steps'']) (JArray steps) changed = Some base" "has_launch base"
      "differs ''launch_report'' ''restore_chain'' changed base"
      "json_index (raw_of base) ''restore_chain'' = chain_of steps []"
    using assign_raw [OF changed(2), of "[''steps'']" "JArray steps" "''restore_chain''"]
    unfolding changed(4) chain_rest by auto
  obtain panicked where panicked: "assign (?chain @ [''post_bootx_panic'']) (JBool True) base = Some panicked"
      "differs ''launch_report'' ''restore_chain'' base panicked"
      "json_index (raw_of panicked) ''restore_chain'' = chain_of steps [(''post_bootx_panic'', JBool True)]"
    using assign_raw [OF base(2), of "[''post_bootx_panic'']" "JBool True" "''restore_chain''"]
    unfolding base(4) chain_rest by auto
  have rt: "recovery_runtime ?q base" "recovery_runtime ?q panicked"
    using base_runtime differs_chain(1) changed(3) base(3) panicked(2) by blast+
  have "uploaded_roles (raw_of base) = [True, True, True, False, False]"
    using chain_uploaded [of "raw_of base" "[]"] base(4) by (simp add: steps_def first)
  then have "restore_role_step_count (recovery_progress_value ?q base) = 3"
      "\<not> restore_sequence_sent (recovery_progress_value ?q base)"
    using rt(1) by (simp_all add: recovery_progress_value_def Let_def)
  moreover have "firmware_panic_observed (recovery_progress_value ?q panicked)"
    using rt(2) by (simp add: recovery_progress_value_def Let_def panicked(3))
      (simp add: chain_of_def json_index_def is_true_def)
  moreover have "\<not> recovery_verified ?q (Some 0) panicked"
    using no_boot_unverified [of panicked ?q "Some 0"] recovery_receipt_boot
      differs_chain(2) [OF changed(3)] differs_chain(2) [OF base(3)] differs_chain(2) [OF panicked(2)] by simp
  ultimately show ?thesis
    using changed(1) base(1) panicked(1) steps
    by (simp add: roles_counted_def Let_def sample_evaluator evaluate_recovery_report_def steps_def)
qed

text \<open>A relative request and the absolute output the worker reports for it.\<close>

lemma assign_path_entry:
  assumes "has_launch e"
  obtains e' where "assign [''launch_report'', ''path''] v e = Some e'" and "has_launch e'"
    and "differs ''launch_report'' [] e e'" and "raw_of e' = raw_of e"
proof -
  note obj = assms [unfolded has_launch_def raw_of_def]
  obtain n where n: "assign [''path''] v (json_index e ''launch_report'') = Some n" "is_object n"
      "\<And>l. json_index n l = (if l = ''path'' then v else json_index (json_index e ''launch_report'') l)"
    using assign_step [of "json_index e ''launch_report''" "[]" v "''path''" v] obj by auto
  obtain e' where e': "assign [''launch_report'', ''path''] v e = Some e'" "is_object e'"
      "\<And>l. json_index e' l = (if l = ''launch_report'' then n else json_index e l)"
    using assign_step [of e "[''path'']" v "''launch_report''" n] obj n(1) by auto
  have "raw_of e' = raw_of e" by (simp add: raw_of_def e' n)
  then show ?thesis
    using assms by (intro that [OF e'(1)]) (simp_all add: has_launch_def differs_def e' n)
qed

lemma no_output_not_started:
  assumes "json_index e ''output'' \<in> {JNull, JString ''relative-only''}"
  shows "\<not> recovery_runtime q e"
  using assms by (auto simp: recovery_runtime_def launch_identity_def recovery_identity_def
      canonical_output_def Let_def)

lemma relative_receipt:
  obtains base where "assign_all relative_rows recovery_receipt = Some base" and "has_launch base"
    and "\<And>l. l \<notin> {''requested_output'', ''output'', ''launch_report''} \<Longrightarrow>
      json_index base l = json_index recovery_receipt l"
    and "\<And>l. l \<noteq> ''output'' \<Longrightarrow> json_index (raw_of base) l = json_index (launch_of False JNull []) l"
    and "\<And>l. l \<notin> {''raw'', ''path''} \<Longrightarrow> json_path base [''launch_report'', l] =
      json_path recovery_receipt [''launch_report'', l]"
    and "json_index base ''requested_output'' = JString ''runs/../result''"
    and "json_index base ''output'' = JString ''/source/result''"
    and "json_index (raw_of base) ''output'' = JString ''/source/result''"
    and "runtime_pid_observed base"
proof -
  let ?out = "JString ''/source/result''"
  let ?outs = "[([''output''], ?out), ([''launch_report'', ''raw'', ''output''], ?out)]"
  obtain b1 where b1: "assign [''requested_output''] (JString ''runs/../result'') recovery_receipt = Some b1"
      "has_launch b1" "differs ''requested_output'' [] recovery_receipt b1"
      "json_index b1 ''requested_output'' = JString ''runs/../result''" "raw_of b1 = raw_of recovery_receipt"
    using assign_entry [OF recovery_receipt_launch, of "''requested_output''"] by auto
  obtain b2 where b2: "assign_all ?outs b1 = Some b2" "has_launch b2" "differs ''output'' ''output'' b1 b2"
      "json_index b2 ''output'' = ?out" "json_index (raw_of b2) ''output'' = ?out"
    using relocate [OF b1(2)] by blast
  obtain base where base: "assign [''launch_report'', ''path''] (JString ''/source/result/launch.json'') b2 = Some base"
      "has_launch base" "differs ''launch_report'' [] b2 base" "raw_of base = raw_of b2"
    using assign_path_entry [OF b2(2)] by blast
  have ends: "assign_all [([''requested_output''], JString ''runs/../result'')] recovery_receipt = Some b1"
      "assign_all [([''launch_report'', ''path''], JString ''/source/result/launch.json'')] b2 = Some base"
    by (simp_all add: b1(1) base(1))
  have rows: "relative_rows = [([''requested_output''], JString ''runs/../result'')] @ ?outs @
      [([''launch_report'', ''path''], JString ''/source/result/launch.json'')]"
    by (simp add: relative_rows_def)
  have "assign_all relative_rows recovery_receipt = Some base"
    by (simp only: rows assign_all_append ends b2(1) Option.bind.bind_lunit)
  moreover have "runtime_pid_observed base"
    using base_runtime differs_pids [OF b1(3)] differs_pids [OF b2(3)] differs_pids [OF base(3)]
    by (simp add: recovery_runtime_def)
  ultimately show ?thesis
    using b1 b2 base by (intro that [of base]) (simp_all add: differs_def base_raw)
qed

lemma output_correlated_holds: output_correlated
proof -
  let ?q = "sample_recovery_request\<lparr>output_path := ''runs/../result''\<rparr>"
  have eval: "evaluate_report ?q (Some 0) (Inr e) = evaluate_recovery_report ?q (Some 0) (Inr e)" for e
    by (simp add: evaluate_report_def sample_recovery_request_def)
  obtain base where base: "assign_all relative_rows recovery_receipt = Some base" "has_launch base"
      "json_index base ''requested_output'' = JString ''runs/../result''"
      "json_index base ''output'' = JString ''/source/result''"
      "json_index (raw_of base) ''output'' = JString ''/source/result''" "runtime_pid_observed base"
    and top: "\<And>l. l \<notin> {''requested_output'', ''output'', ''launch_report''} \<Longrightarrow>
      json_index base l = json_index recovery_receipt l"
    and raw: "\<And>l. l \<noteq> ''output'' \<Longrightarrow> json_index (raw_of base) l = json_index (launch_of False JNull []) l"
    and path: "\<And>l. l \<notin> {''raw'', ''path''} \<Longrightarrow> json_path base [''launch_report'', l] =
      json_path recovery_receipt [''launch_report'', l]"
    by (rule relative_receipt) blast
  have canonical: "canonical_output base = Some ''/source/result''"
    by (simp add: canonical_output_def base NUL_def)
  have target: "target64 ?q = 27" "to_str (output_path ?q) = Some ''runs/../result''"
    by (simp_all add: target64_def sample_recovery_request_def sample_request_def to_str_def ascii_is_str)
  have identity: "recovery_identity ?q base"
    unfolding recovery_identity_def canonical target
    by (simp add: base top) (simp add: recovery_receipt_def json_index_def receipt_gets num_def)
  then have "launch_identity ?q base"
    unfolding launch_identity_def canonical target Let_def
    using path by (simp add: base raw)
      (simp add: recovery_receipt_def json_index_def receipt_gets launch_gets num_def is_true_def)
  moreover have "is_true (json_index (raw_of base) ''runtime_started'')"
    by (simp add: raw) (simp add: json_index_def launch_gets is_true_def)
  ultimately have "recovery_runtime ?q base" by (simp add: recovery_runtime_def base)
  moreover have "recovery_cleanup ?q base"
    using base_stages(1) identity by (simp add: recovery_cleanup_def top)
  moreover have "\<not> recovery_verified ?q (Some 0) base"
    using no_boot_unverified [of base] recovery_receipt_boot by (simp add: top)
  moreover obtain e where e: "assign [''requested_output''] JNull base = Some e"
      "json_index e ''requested_output'' = JNull"
    using assign_entry [OF base(2), of "''requested_output''" JNull] by auto
  moreover have "\<not> recovery_runtime ?q e"
    by (simp add: recovery_runtime_def launch_identity_def recovery_identity_def e(2)
        target(2) [simplified] Let_def)
  moreover
  obtain n r where "assign_all [([''output''], JNull), ([''launch_report'', ''raw'', ''output''], JNull)]
      base = Some n" "assign_all [([''output''], JString ''relative-only''),
      ([''launch_report'', ''raw'', ''output''], JString ''relative-only'')] base = Some r"
    and "json_index n ''output'' = JNull" "json_index r ''output'' = JString ''relative-only''"
    using relocate [OF base(2)] by metis
  moreover from this(3,4) have "\<not> recovery_runtime ?q n" "\<not> recovery_runtime ?q r"
    using no_output_not_started by simp_all
  ultimately show ?thesis
    by (simp add: output_correlated_def Let_def eval evaluate_recovery_report_def recovery_terminated_def
        base(1) del: assign_all_simps)
qed

end
