(* ===== verification/Runner_Run.thy ===== *)
theory Runner_Run
  imports Runner_Recovery Vf_Policy
begin

text \<open>
  The run itself: \<open>RunnerRequest::run\<close>, \<open>read_report\<close> and \<open>write_new_json\<close> of
  \<open>src/runner.rs\<close>. The host is the record \<open>run_io\<close> of the results of each file and process
  operation; a run returns its result and the events it caused, in order, so that what happens
  before, between and after the effects can be stated.
\<close>

section \<open>The host\<close>

datatype payload_json =
    PRequest runner_request
  | PInvocation invocation
  | PSpawnError json
  | POutcome run_outcome

record run_io =
  io_create_dir :: "path \<Rightarrow> (unit, runner_error) result"
  io_create_new :: "path \<Rightarrow> string \<Rightarrow> (unit, runner_error) result"
  io_write_json :: "path \<Rightarrow> string \<Rightarrow> payload_json \<Rightarrow> (unit, runner_error) result"
  io_write_newline :: "path \<Rightarrow> string \<Rightarrow> (unit, runner_error) result"
  io_spawn :: "invocation \<Rightarrow> (u32, string) result"
  io_write_pid :: "path \<Rightarrow> u32 \<Rightarrow> (unit, runner_error) result"
  io_wait :: "u32 \<Rightarrow> (int option, runner_error) result"
  io_open_report :: "path \<Rightarrow> string \<Rightarrow> ((bytes, runner_error) result list, runner_error) result"
  io_parse_json :: "bytes \<Rightarrow> (json, string) result"
  io_sha256 :: "bytes \<Rightarrow> bytes"
  io_elapsed :: u64

datatype event =
    CreateDir path
  | CreateNew path string
  | WriteJson path string payload_json
  | WriteNewline path string
  | Spawn invocation
  | WritePid path u32
  | Wait u32
  | ReadReport path string

section \<open>Effects in order\<close>

type_synonym 'a traced = "('a, runner_error) result \<times> event list"

definition bindT :: "'a traced \<Rightarrow> ('a \<Rightarrow> 'b traced) \<Rightarrow> 'b traced" where
  "bindT m f =
     (case m of
        (Inl e, es) \<Rightarrow> (Inl e, es)
      | (Inr x, es) \<Rightarrow> (let (r, es') = f x in (r, es @ es')))"

definition effect :: "event \<Rightarrow> ('a, runner_error) result \<Rightarrow> 'a traced" where
  "effect ev r = (r, [ev])"

definition pure :: "('a, runner_error) result \<Rightarrow> 'a traced" where
  "pure r = (r, [])"

section \<open>Reading the worker report\<close>

definition MAX_REPORT_BYTES :: nat where "MAX_REPORT_BYTES = 4 * 1024 * 1024"
definition MAX_RECOVERY_REPORT_BYTES :: nat where "MAX_RECOVERY_REPORT_BYTES = 8 * 1024 * 1024 + 1"

text \<open>The loop over \<open>input.read\<close>: the bytes hashed so far and the bytes kept so far. The end of
  the list of read results stands for further reads of 0 bytes.\<close>

fun read_loop ::
    "nat \<Rightarrow> (bytes, runner_error) result list \<Rightarrow> bytes \<Rightarrow> bytes \<Rightarrow> (bytes \<times> bytes, runner_error) result" where
  "read_loop limit [] hashed bs = Ok (hashed, bs)"
| "read_loop limit (Inl e # reads) hashed bs = Err e"
| "read_loop limit (Inr chunk # reads) hashed bs =
     (if length chunk = 0 then Ok (hashed, bs)
      else
        (let remaining = (limit + 1) - length bs in
         read_loop limit reads (hashed @ chunk) (bs @ take (min (length chunk) remaining) chunk)))"

definition read_report ::
    "run_io \<Rightarrow> path \<Rightarrow> string \<Rightarrow> nat \<Rightarrow> (bytes \<times> string, runner_error) result" where
  "read_report w dir name limit =
     bindE (io_open_report w dir name) (\<lambda>reads.
     bindE (read_loop limit reads [] []) (\<lambda>(hashed, bs).
     Ok (bs, concat (map hex_byte (io_sha256 w hashed)))))"

section \<open>The run\<close>

definition write_new_json :: "run_io \<Rightarrow> path \<Rightarrow> string \<Rightarrow> payload_json \<Rightarrow> unit traced" where
  "write_new_json w dir name v =
     bindT (effect (CreateNew dir name) (io_create_new w dir name)) (\<lambda>_.
     bindT (effect (WriteJson dir name v) (io_write_json w dir name v)) (\<lambda>_.
     effect (WriteNewline dir name) (io_write_newline w dir name)))"

definition prepare :: "target \<Rightarrow> run_io \<Rightarrow> runner_request \<Rightarrow> invocation traced" where
  "prepare t w q =
     (let dir = host_receipt_dir q in
      bindT (pure (invocation_of t q)) (\<lambda>iv.
      bindT (effect (CreateDir dir) (io_create_dir w dir)) (\<lambda>_.
      bindT (write_new_json w dir ''request.json'' (PRequest q)) (\<lambda>_.
      bindT (write_new_json w dir ''invocation.json'' (PInvocation iv)) (\<lambda>_.
      bindT (effect (CreateNew dir ''worker.stdout.json'') (io_create_new w dir ''worker.stdout.json'')) (\<lambda>_.
      bindT (effect (CreateNew dir ''worker.stderr.log'') (io_create_new w dir ''worker.stderr.log'')) (\<lambda>_.
      pure (Ok iv))))))))"

text \<open>The \<open>json!\<close> value of the spawn error.\<close>

definition spawn_error_value :: "string \<Rightarrow> json" where
  "spawn_error_value error = JObject
     [(''runner_started'', JBool False), (''macos_boot_verified'', JBool False),
      (''error'', JString error)]"

text \<open>Spawning and reaping: the result of recording the PID is looked at after the wait.\<close>

definition supervise :: "run_io \<Rightarrow> runner_request \<Rightarrow> invocation \<Rightarrow> (u32 \<times> int option) traced" where
  "supervise w q iv =
     (let dir = host_receipt_dir q in
      case io_spawn w iv of
        Inl error \<Rightarrow>
          bindT (effect (Spawn iv) (Ok ())) (\<lambda>_.
          bindT (write_new_json w dir ''spawn-error.json'' (PSpawnError (spawn_error_value error))) (\<lambda>_.
          pure (Err (RunnerIo error))))
      | Inr pid \<Rightarrow>
          bindT (effect (Spawn iv) (Ok ())) (\<lambda>_.
          let pid_record = io_write_pid w dir pid in
          bindT (effect (WritePid dir pid) (Ok ())) (\<lambda>_.
          bindT (effect (Wait pid) (io_wait w pid)) (\<lambda>status.
          bindT (pure pid_record) (\<lambda>_.
          pure (Ok (pid, status)))))))"

definition report_limit :: "runner_request \<Rightarrow> nat" where
  "report_limit q =
     (if is_recovery (run_backend q) then MAX_RECOVERY_REPORT_BYTES else MAX_REPORT_BYTES)"

text \<open>The two \<open>format!\<close> messages.\<close>

definition invalid_json :: "string \<Rightarrow> string" where
  "invalid_json e = ''worker did not return valid JSON: '' @ e"

definition report_too_large :: "nat \<Rightarrow> string" where
  "report_too_large limit = ''worker report exceeds '' @ decimal (limit div (1024 * 1024)) @ '' MiB''"

definition parse_report :: "run_io \<Rightarrow> nat \<Rightarrow> bytes \<Rightarrow> (json, string) result" where
  "parse_report w limit bs =
     (if length bs > limit
      then Err (report_too_large limit)
      else map_err invalid_json (io_parse_json w bs))"

definition conclude :: "run_io \<Rightarrow> runner_request \<Rightarrow> u32 \<Rightarrow> int option \<Rightarrow> run_outcome traced" where
  "conclude w q pid status =
     (let dir = host_receipt_dir q; limit = report_limit q in
      bindT (effect (ReadReport dir ''worker.stdout.json'')
        (read_report w dir ''worker.stdout.json'' limit)) (\<lambda>(bs, hash).
      let outcome = (evaluate_report q status (parse_report w limit bs))
        \<lparr>runner_pid := pid, elapsed_seconds := io_elapsed w, stdout_sha256 := hash\<rparr> in
      bindT (write_new_json w dir ''adapter.json'' (POutcome outcome)) (\<lambda>_.
      pure (Ok outcome))))"

definition run :: "target \<Rightarrow> run_io \<Rightarrow> runner_request \<Rightarrow> run_outcome traced" where
  "run t w q =
     bindT (prepare t w q) (\<lambda>iv.
     bindT (supervise w q iv) (\<lambda>(pid, status).
     conclude w q pid status))"

section \<open>Lemmas\<close>

lemma bindT_simps [simp]:
  "bindT (Inl e, es) f = (Inl e, es)"
  "bindT (Inr x, es) f = (fst (f x), es @ snd (f x))"
  by (simp_all add: bindT_def split: prod.splits)

lemma bindT_eq:
  "bindT m f = (case fst m of Inl e \<Rightarrow> (Inl e, snd m) | Inr x \<Rightarrow> (fst (f x), snd m @ snd (f x)))"
  by (cases m; cases "fst m") auto

lemma snd_bindT:
  "snd (bindT m f) = snd m @ (case fst m of Inl _ \<Rightarrow> [] | Inr x \<Rightarrow> snd (f x))"
  by (simp add: bindT_eq split: sum.splits)

lemma fst_bindT_Inr_iff:
  "fst (bindT m f) = Inr y \<longleftrightarrow> (\<exists>x. fst m = Inr x \<and> fst (f x) = Inr y)"
  by (auto simp: bindT_eq split: sum.splits)

text \<open>The receipts written before a worker starts.\<close>

definition preparation :: "path \<Rightarrow> runner_request \<Rightarrow> invocation \<Rightarrow> event list" where
  "preparation dir q iv =
     [CreateDir dir,
      CreateNew dir ''request.json'', WriteJson dir ''request.json'' (PRequest q),
      WriteNewline dir ''request.json'',
      CreateNew dir ''invocation.json'', WriteJson dir ''invocation.json'' (PInvocation iv),
      WriteNewline dir ''invocation.json'',
      CreateNew dir ''worker.stdout.json'', CreateNew dir ''worker.stderr.log'']"

fun is_spawn :: "event \<Rightarrow> bool" where
  "is_spawn (Spawn _) = True"
| "is_spawn _ = False"

text \<open>The error of an event's operation, if it failed.\<close>

definition error_of :: "('a, 'e) result \<Rightarrow> 'e option" where
  "error_of r = (case r of Inl e \<Rightarrow> Some e | Inr _ \<Rightarrow> None)"

fun step_error :: "run_io \<Rightarrow> event \<Rightarrow> runner_error option" where
  "step_error w (CreateDir dir) = error_of (io_create_dir w dir)"
| "step_error w (CreateNew dir name) = error_of (io_create_new w dir name)"
| "step_error w (WriteJson dir name v) = error_of (io_write_json w dir name v)"
| "step_error w (WriteNewline dir name) = error_of (io_write_newline w dir name)"
| "step_error w (Spawn iv) = map_option RunnerIo (error_of (io_spawn w iv))"
| "step_error w (WritePid dir pid) = error_of (io_write_pid w dir pid)"
| "step_error w (Wait pid) = error_of (io_wait w pid)"
| "step_error w (ReadReport dir name) = error_of (io_open_report w dir name)"

text \<open>Operations carried out in order, up to the first that fails.\<close>

primrec in_order :: "run_io \<Rightarrow> event list \<Rightarrow> runner_error option \<times> event list" where
  "in_order w [] = (None, [])"
| "in_order w (ev # evs) =
     (case step_error w ev of
        Some e \<Rightarrow> (Some e, [ev])
      | None \<Rightarrow> (let (failed, did) = in_order w evs in (failed, ev # did)))"

definition outcome_of :: "'a traced \<Rightarrow> runner_error option \<times> event list" where
  "outcome_of m = (error_of (fst m), snd m)"

lemma error_of_simps [simp]:
  "error_of (Inl e) = Some e"
  "error_of (Inr x) = None"
  by (simp_all add: error_of_def)

lemma error_of_iff: "error_of r = None \<longleftrightarrow> (\<exists>x. r = Inr x)" "error_of r = Some e \<longleftrightarrow> r = Inl e"
  by (cases r; auto)+

lemma outcome_of_Some: "outcome_of m = (Some e, evs) \<longleftrightarrow> m = (Inl e, evs)"
  by (cases m) (auto simp: outcome_of_def error_of_iff)

lemma in_order_None:
  "fst (in_order w evs) = None \<longleftrightarrow> (\<forall>ev\<in>set evs. step_error w ev = None)"
  "fst (in_order w evs) = None \<Longrightarrow> snd (in_order w evs) = evs"
  by (induction evs) (auto split: option.splits prod.splits)

lemma set_in_order: "set (snd (in_order w evs)) \<subseteq> set evs"
  by (induction evs) (auto split: option.splits prod.splits)

text \<open>The receipts a JSON write consists of.\<close>

abbreviation json_events :: "path \<Rightarrow> string \<Rightarrow> payload_json \<Rightarrow> event list" where
  "json_events dir name v \<equiv> [CreateNew dir name, WriteJson dir name v, WriteNewline dir name]"

lemma write_new_json_in_order:
  "outcome_of (write_new_json w dir name v) = in_order w (json_events dir name v)"
  by (simp add: outcome_of_def write_new_json_def effect_def bindT_eq split: sum.splits option.splits)

lemma write_new_json_no_spawn: "list_all (\<lambda>ev. \<not> is_spawn ev) (snd (write_new_json w dir name v))"
  by (simp add: write_new_json_def effect_def bindT_eq split: sum.splits)

lemma prepare_in_order:
  "outcome_of (prepare t w q) =
     (case invocation_of t q of Inl e \<Rightarrow> (Some e, [])
      | Inr iv \<Rightarrow> in_order w (preparation (host_receipt_dir q) q iv))"
  by (simp add: outcome_of_def prepare_def write_new_json_def effect_def pure_def bindT_eq
      preparation_def Let_def split: sum.splits option.splits)

lemma fst_prepare: "fst (prepare t w q) = Inr iv \<Longrightarrow> invocation_of t q = Inr iv"
  by (auto simp: prepare_def pure_def fst_bindT_Inr_iff Let_def)

lemma prepare_Inr:
  assumes "fst (prepare t w q) = Inr iv"
  shows "invocation_of t q = Inr iv \<and> snd (prepare t w q) = preparation (host_receipt_dir q) q iv"
    and "\<forall>ev\<in>set (preparation (host_receipt_dir q) q iv). step_error w ev = None"
proof -
  note iv = fst_prepare [OF assms]
  have "in_order w (preparation (host_receipt_dir q) q iv) = (None, snd (prepare t w q))"
    using prepare_in_order [of t w q] by (simp add: iv outcome_of_def assms)
  then show "invocation_of t q = Inr iv \<and> snd (prepare t w q) = preparation (host_receipt_dir q) q iv"
    and "\<forall>ev\<in>set (preparation (host_receipt_dir q) q iv). step_error w ev = None"
    using iv in_order_None [of w "preparation (host_receipt_dir q) q iv"] by simp_all
qed

lemma preparation_no_spawn: "list_all (\<lambda>ev. \<not> is_spawn ev) (preparation dir q iv)"
  by (simp add: preparation_def)

lemma prepare_no_spawn: "list_all (\<lambda>ev. \<not> is_spawn ev) (snd (prepare t w q))"
proof -
  have "snd (prepare t w q) = snd (outcome_of (prepare t w q))" by (simp add: outcome_of_def)
  moreover have "set (snd (outcome_of (prepare t w q))) \<subseteq>
      (case invocation_of t q of Inl _ \<Rightarrow> {} | Inr iv \<Rightarrow> set (preparation (host_receipt_dir q) q iv))"
    using set_in_order by (simp add: prepare_in_order split: sum.splits)
  ultimately show ?thesis
    using preparation_no_spawn by (fastforce simp: list_all_iff split: sum.splits)
qed

lemma conclude_no_spawn: "list_all (\<lambda>ev. \<not> is_spawn ev) (snd (conclude w q pid status))"
  using write_new_json_no_spawn
  by (simp add: conclude_def effect_def pure_def bindT_eq Let_def split: sum.splits prod.splits)

text \<open>The content of a file read to its end.\<close>

fun file_content :: "(bytes, runner_error) result list \<Rightarrow> (bytes, runner_error) result" where
  "file_content [] = Ok []"
| "file_content (Inl e # reads) = Err e"
| "file_content (Inr chunk # reads) =
     (if chunk = [] then Ok [] else bindE (file_content reads) (\<lambda>rest. Ok (chunk @ rest)))"

lemma read_loop_eq:
  "length bs \<le> limit + 1 \<Longrightarrow> read_loop limit reads hashed bs =
     bindE (file_content reads) (\<lambda>c. Ok (hashed @ c, take (limit + 1) (bs @ c)))"
proof (induction limit reads hashed bs rule: read_loop.induct)
  case (3 limit chunk reads hashed bs)
  show ?case
  proof (cases "chunk = []")
    case False
    let ?bs = "bs @ take (min (length chunk) (limit + 1 - length bs)) chunk"
    have "length ?bs \<le> limit + 1" using 3(2) by simp
    moreover have "take (limit + 1) (?bs @ c) = take (limit + 1) (bs @ chunk @ c)" for c
      using 3(2) by (cases "length chunk \<le> limit + 1 - length bs") (simp_all add: min_def)
    ultimately show ?thesis
      using 3 False by (cases "file_content reads") (simp_all add: Let_def)
  qed (use 3(2) in simp)
qed simp_all

lemma snd_supervise:
  "snd (supervise w q iv) =
     (case io_spawn w iv of
        Inl error \<Rightarrow> Spawn iv # snd (write_new_json w (host_receipt_dir q) ''spawn-error.json'' (PSpawnError (spawn_error_value error)))
      | Inr pid \<Rightarrow> [Spawn iv, WritePid (host_receipt_dir q) pid, Wait pid])"
  by (auto simp: supervise_def effect_def pure_def bindT_eq Let_def split: sum.splits)

lemma supervise_failed:
  "io_spawn w iv = Inl error \<Longrightarrow> outcome_of (supervise w q iv) =
     (let (failed, did) = in_order w (json_events (host_receipt_dir q) ''spawn-error.json''
        (PSpawnError (spawn_error_value error)))
      in (case failed of None \<Rightarrow> Some (RunnerIo error) | Some e \<Rightarrow> Some e, Spawn iv # did))"
  by (simp add: outcome_of_def supervise_def write_new_json_def effect_def pure_def bindT_eq Let_def
      split: sum.splits option.splits)

lemma supervise_spawned:
  "io_spawn w iv = Inr pid \<Longrightarrow> outcome_of (supervise w q iv) =
     (case error_of (io_wait w pid) of
        Some e \<Rightarrow> Some e
      | None \<Rightarrow> error_of (io_write_pid w (host_receipt_dir q) pid),
      [Spawn iv, WritePid (host_receipt_dir q) pid, Wait pid])"
  by (simp add: outcome_of_def supervise_def effect_def pure_def bindT_eq Let_def split: sum.splits)

lemma fst_supervise_Inr_iff:
  "fst (supervise w q iv) = Inr (pid, status) \<longleftrightarrow>
     io_spawn w iv = Inr pid \<and> io_wait w pid = Inr status \<and>
     io_write_pid w (host_receipt_dir q) pid = Inr ()"
  by (auto simp: supervise_def effect_def pure_def bindT_eq Let_def split: sum.splits)

lemma snd_run:
  "snd (run t w q) =
     snd (prepare t w q) @
     (case fst (prepare t w q) of Inl _ \<Rightarrow> []
      | Inr iv \<Rightarrow> snd (supervise w q iv) @
          (case fst (supervise w q iv) of Inl _ \<Rightarrow> []
           | Inr (pid, status) \<Rightarrow> snd (conclude w q pid status)))"
  by (simp add: run_def bindT_eq split: sum.splits prod.splits)

text \<open>A run, taken apart into its phases.\<close>

lemma outcome_of_bindT: "outcome_of (bindT m f) =
    (case fst m of Inl e \<Rightarrow> (Some e, snd m)
     | Inr x \<Rightarrow> (fst (outcome_of (f x)), snd m @ snd (outcome_of (f x))))"
  by (simp add: outcome_of_def bindT_eq split: sum.splits)

definition work :: "run_io \<Rightarrow> runner_request \<Rightarrow> invocation \<Rightarrow> run_outcome traced" where
  "work w q iv = bindT (supervise w q iv) (\<lambda>(pid, status). conclude w q pid status)"

lemma outcome_of_run:
  "outcome_of (run t w q) =
     (case invocation_of t q of
        Inl e \<Rightarrow> (Some e, [])
      | Inr iv \<Rightarrow>
         (let (failed, did) = in_order w (preparation (host_receipt_dir q) q iv) in
          case failed of
            Some e \<Rightarrow> (Some e, did)
          | None \<Rightarrow> (fst (outcome_of (work w q iv)), did @ snd (outcome_of (work w q iv)))))"
proof -
  have p: "(error_of (fst (prepare t w q)), snd (prepare t w q)) =
      (case invocation_of t q of Inl e \<Rightarrow> (Some e, [])
       | Inr iv \<Rightarrow> in_order w (preparation (host_receipt_dir q) q iv))"
    using prepare_in_order [of t w q] by (simp add: outcome_of_def)
  show ?thesis
  proof (cases "fst (prepare t w q)")
    case (Inl e)
    then show ?thesis
      using p by (auto simp: run_def outcome_of_bindT split: sum.splits dest: sym)
  next
    case (Inr iv)
    then have "invocation_of t q = Inr iv" by (rule fst_prepare)
    then show ?thesis
      using p Inr by (auto simp: run_def outcome_of_bindT work_def [symmetric] dest: sym)
  qed
qed

lemma read_first:
  "\<exists>rest. snd (conclude w q pid status) = ReadReport (host_receipt_dir q) ''worker.stdout.json'' # rest"
  by (simp add: conclude_def effect_def bindT_eq Let_def split: sum.splits)

lemma work_stopped:
  assumes "fst (supervise w q iv) = Inl e"
  shows "outcome_of (work w q iv) = outcome_of (supervise w q iv)"
proof -
  have "supervise w q iv = (Inl e, snd (supervise w q iv))" using assms by (metis prod.collapse)
  then show ?thesis
    unfolding work_def by (metis bindT_simps(1) outcome_of_Some)
qed

lemma work_failed:
  assumes "io_spawn w iv = Inl error"
  shows "outcome_of (work w q iv) = outcome_of (supervise w q iv)"
proof (cases "fst (supervise w q iv)")
  case (Inr x)
  then show ?thesis
    using fst_supervise_Inr_iff [of w q iv "fst x" "snd x"] assms by simp
qed (rule work_stopped)

lemma work_spawned:
  assumes "io_spawn w iv = Inr pid"
  shows "case (io_wait w pid, io_write_pid w (host_receipt_dir q) pid) of
      (Inl e, _) \<Rightarrow> outcome_of (work w q iv) =
        (Some e, [Spawn iv, WritePid (host_receipt_dir q) pid, Wait pid])
    | (Inr _, Inl e) \<Rightarrow> outcome_of (work w q iv) =
        (Some e, [Spawn iv, WritePid (host_receipt_dir q) pid, Wait pid])
    | (Inr _, Inr _) \<Rightarrow> (\<exists>rest. snd (outcome_of (work w q iv)) =
        [Spawn iv, WritePid (host_receipt_dir q) pid, Wait pid,
         ReadReport (host_receipt_dir q) ''worker.stdout.json''] @ rest)"
proof (cases "fst (supervise w q iv)")
  case (Inl e)
  then show ?thesis
    using supervise_spawned [OF assms, of q] unfolding work_stopped [OF Inl]
    by (auto simp: outcome_of_def error_of_def split: sum.splits)
next
  case (Inr x)
  then obtain status where x: "x = (pid, status)" "io_wait w pid = Inr status"
      "io_write_pid w (host_receipt_dir q) pid = Inr ()"
    using fst_supervise_Inr_iff [of w q iv "fst x" "snd x"] assms by (cases x) auto
  obtain rest where "snd (conclude w q pid status) =
      ReadReport (host_receipt_dir q) ''worker.stdout.json'' # rest"
    using read_first by blast
  then show ?thesis
    using x Inr assms by (simp add: work_def outcome_of_def snd_bindT snd_supervise)
qed

lemma work_events:
  "\<exists>post. snd (outcome_of (work w q iv)) = Spawn iv # post \<and> list_all (\<lambda>ev. \<not> is_spawn ev) post"
proof -
  obtain rest where s: "snd (supervise w q iv) = Spawn iv # rest" "list_all (\<lambda>ev. \<not> is_spawn ev) rest"
    using write_new_json_no_spawn by (cases "io_spawn w iv") (simp_all add: snd_supervise)
  have "list_all (\<lambda>ev. \<not> is_spawn ev)
      (case fst (supervise w q iv) of Inl _ \<Rightarrow> [] | Inr (pid, status) \<Rightarrow> snd (conclude w q pid status))"
    by (simp add: conclude_no_spawn split: sum.splits prod.splits)
  then show ?thesis
    using s by (simp add: outcome_of_def work_def snd_bindT split: sum.splits prod.splits)
qed

lemma run_started:
  assumes "Spawn iv \<in> set (snd (run t w q))"
  shows "invocation_of t q = Inr iv" and "outcome_of (run t w q) =
    (fst (outcome_of (work w q iv)), preparation (host_receipt_dir q) q iv @ snd (outcome_of (work w q iv)))"
proof -
  have events: "snd (run t w q) = snd (outcome_of (run t w q))" by (simp add: outcome_of_def)
  obtain iv' where inv: "invocation_of t q = Inr iv'"
    using assms by (cases "invocation_of t q") (auto simp: events outcome_of_run)
  let ?prep = "preparation (host_receipt_dir q) q iv'"
  have no: "Spawn iv \<notin> set ?prep" by (simp add: preparation_def)
  then have none: "fst (in_order w ?prep) = None"
    using assms set_in_order [of w ?prep]
    by (auto simp: events outcome_of_run inv split_beta Let_def split: option.splits)
  then have run: "outcome_of (run t w q) =
      (fst (outcome_of (work w q iv')), ?prep @ snd (outcome_of (work w q iv')))"
    using in_order_None(2) [OF none] by (simp add: outcome_of_run inv split_beta Let_def)
  obtain post where "snd (outcome_of (work w q iv')) = Spawn iv' # post"
      "list_all (\<lambda>ev. \<not> is_spawn ev) post"
    using work_events by blast
  then have "iv = iv'" using assms no by (auto simp: events run list_all_iff)
  then show "invocation_of t q = Inr iv" and "outcome_of (run t w q) =
    (fst (outcome_of (work w q iv)), preparation (host_receipt_dir q) q iv @ snd (outcome_of (work w q iv)))"
    using inv run by simp_all
qed

lemma read_report_eq:
  "read_report w dir name limit =
     bindE (io_open_report w dir name) (\<lambda>reads. bindE (file_content reads) (\<lambda>c.
     Ok (take (limit + 1) c, concat (map hex_byte (io_sha256 w c)))))"
proof -
  have "bindE (read_loop limit reads [] []) (\<lambda>(hashed, bs). Ok (bs, concat (map hex_byte (io_sha256 w hashed)))) =
      bindE (file_content reads) (\<lambda>c. Ok (take (limit + 1) c, concat (map hex_byte (io_sha256 w c))))" for reads
    by (cases "file_content reads") (simp_all add: read_loop_eq)
  then show ?thesis by (simp add: read_report_def)
qed

text \<open>The length test on the kept bytes is the length test on the file.\<close>

lemma parse_report_take:
  "parse_report w limit (take (limit + 1) c) =
     (if length c \<le> limit then map_err invalid_json (io_parse_json w c)
      else Err (report_too_large limit))"
  by (simp add: parse_report_def min_def)

lemma fst_conclude_Inr:
  assumes "fst (conclude w q pid status) = Inr o'"
  obtains reads c where "io_open_report w (host_receipt_dir q) ''worker.stdout.json'' = Inr reads"
    and "file_content reads = Inr c"
    and "o' = (evaluate_report q status (parse_report w (report_limit q) (take (report_limit q + 1) c)))
      \<lparr>runner_pid := pid, elapsed_seconds := io_elapsed w,
       stdout_sha256 := concat (map hex_byte (io_sha256 w c))\<rparr>"
    and "snd (conclude w q pid status) = [ReadReport (host_receipt_dir q) ''worker.stdout.json'',
      CreateNew (host_receipt_dir q) ''adapter.json'',
      WriteJson (host_receipt_dir q) ''adapter.json'' (POutcome o'),
      WriteNewline (host_receipt_dir q) ''adapter.json'']"
proof -
  obtain bs hash where r: "read_report w (host_receipt_dir q) ''worker.stdout.json'' (report_limit q) = Inr (bs, hash)"
    and o': "o' = (evaluate_report q status (parse_report w (report_limit q) bs))
      \<lparr>runner_pid := pid, elapsed_seconds := io_elapsed w, stdout_sha256 := hash\<rparr>"
    and e: "snd (conclude w q pid status) = [ReadReport (host_receipt_dir q) ''worker.stdout.json'',
      CreateNew (host_receipt_dir q) ''adapter.json'',
      WriteJson (host_receipt_dir q) ''adapter.json'' (POutcome o'),
      WriteNewline (host_receipt_dir q) ''adapter.json'']"
    using assms
    by (auto simp: conclude_def write_new_json_def effect_def pure_def bindT_eq Let_def
        split: sum.splits prod.splits)
  obtain reads c where rc: "io_open_report w (host_receipt_dir q) ''worker.stdout.json'' = Inr reads"
      "file_content reads = Inr c"
    and eq: "bs = take (report_limit q + 1) c" "hash = concat (map hex_byte (io_sha256 w c))"
    using r by (auto simp: read_report_eq result_simps)
  show ?thesis by (rule that [OF rc]) (use o' e eq in simp_all)
qed

text \<open>A run that returns an outcome, taken apart into its phases.\<close>

lemma fst_run_Inr:
  assumes "fst (run t w q) = Inr out"
  obtains iv pid status reads c where "invocation_of t q = Inr iv" and "io_spawn w iv = Inr pid"
    and "io_wait w pid = Inr status"
    and "io_open_report w (host_receipt_dir q) ''worker.stdout.json'' = Inr reads"
    and "file_content reads = Inr c"
    and "out = (evaluate_report q status (parse_report w (report_limit q) (take (report_limit q + 1) c)))
      \<lparr>runner_pid := pid, elapsed_seconds := io_elapsed w,
       stdout_sha256 := concat (map hex_byte (io_sha256 w c))\<rparr>"
    and "snd (run t w q) = preparation (host_receipt_dir q) q iv @
      [Spawn iv, WritePid (host_receipt_dir q) pid, Wait pid,
       ReadReport (host_receipt_dir q) ''worker.stdout.json'',
       CreateNew (host_receipt_dir q) ''adapter.json'',
       WriteJson (host_receipt_dir q) ''adapter.json'' (POutcome out),
       WriteNewline (host_receipt_dir q) ''adapter.json'']"
proof -
  obtain iv pid status where r: "fst (prepare t w q) = Inr iv"
      "fst (supervise w q iv) = Inr (pid, status)" "fst (conclude w q pid status) = Inr out"
    using assms by (auto simp: run_def fst_bindT_Inr_iff split: prod.splits)
  have s: "io_spawn w iv = Inr pid" "io_wait w pid = Inr status" "invocation_of t q = Inr iv"
      "snd (prepare t w q) = preparation (host_receipt_dir q) q iv"
    using r(1,2) prepare_Inr [of t w q iv] by (simp_all add: fst_supervise_Inr_iff)
  show ?thesis
    by (rule fst_conclude_Inr [OF r(3)], rule that [OF s(3,1,2)])
      (simp_all add: snd_run r s snd_supervise)
qed

text \<open>The verdict of an outcome on the whole output of the worker.\<close>

lemma verdict_on_output:
  "macos_boot_verified (evaluate_report q status (parse_report w (report_limit q) (take (report_limit q + 1) c))) =
     (length c \<le> report_limit q \<and> macos_boot_verified (evaluate_report q status
        (map_err invalid_json (io_parse_json w c))))"
  using report_verdict.no_report_no_claims(2) parse_report_take [of w "report_limit q" c] by simp

lemma evaluate_report_exit_code: "runner_exit_code (evaluate_report q status p) = status"
  by (simp add: evaluate_report_def evaluate_native_def evaluate_recovery_report_def Let_def)

text \<open>A host on which everything succeeds and the worker prints one byte.\<close>

definition sample_io :: run_io where
  "sample_io =
     \<lparr>io_create_dir = (\<lambda>_. Ok ()), io_create_new = (\<lambda>_ _. Ok ()), io_write_json = (\<lambda>_ _ _. Ok ()),
      io_write_newline = (\<lambda>_ _. Ok ()), io_spawn = (\<lambda>_. Ok 4242),
      io_write_pid = (\<lambda>_ _. Err (RunnerIo ''disk full'')), io_wait = (\<lambda>_. Ok (Some 0)),
      io_open_report = (\<lambda>_ _. Ok [Ok [123]]), io_parse_json = (\<lambda>_. Err ''EOF''),
      io_sha256 = (\<lambda>_. replicate 32 0), io_elapsed = 0\<rparr>"

lemma sample_invocation: "\<exists>iv. invocation_of linux_target sample_request = Inr iv"
proof -
  have "in_range (duration_secs sample_request) 1 86400"
    using sample_request_ok by (simp add: request_ok_def)
  then show ?thesis
    using sample_request_ok backend_arguments_accepts [of "duration_secs sample_request" "run_backend sample_request"]
      host_invocation_accepts [of linux_target sample_request "repository sample_request"]
    unfolding invocation_of_Inr_iff request_ok_def by blast
qed

lemma sample_prepare:
  assumes "invocation_of linux_target sample_request = Inr iv"
  shows "fst (prepare linux_target (sample_io\<lparr>io_write_pid := f\<rparr>) sample_request) = Inr iv"
  by (simp add: prepare_def write_new_json_def effect_def pure_def sample_io_def assms Let_def)

section \<open>Properties\<close>

text \<open>C32: No effect without a valid request, no worker without its receipts. A rejected request
  causes no event at all. Otherwise the new receipt directory, the request and invocation receipts
  and both log files are created in this order: if one of these operations fails, the run stops
  there with its error and no worker is started; if all of them succeeded, exactly one worker is
  started, with the checked invocation, right after them.\<close>

theorem run_start_order:
  "(case invocation_of t q of
      Inl e \<Rightarrow> run t w q = (Inl e, [])
    | Inr iv \<Rightarrow>
       (case in_order w (preparation (host_receipt_dir q) q iv) of
          (Some e, did) \<Rightarrow> run t w q = (Inl e, did) \<and> filter is_spawn did = []
        | (None, did) \<Rightarrow>
            list_all (\<lambda>ev. step_error w ev = None) (preparation (host_receipt_dir q) q iv) \<and>
            (\<exists>post. snd (run t w q) = preparation (host_receipt_dir q) q iv @ Spawn iv # post \<and>
               filter is_spawn post = [])))"
proof (cases "invocation_of t q")
  case (Inl e)
  then show ?thesis using outcome_of_run [of t w q] by (simp add: outcome_of_Some)
next
  case (Inr iv)
  let ?prep = "preparation (host_receipt_dir q) q iv"
  have none: "filter is_spawn es = []" if "list_all (\<lambda>ev. \<not> is_spawn ev) es" for es
    using that by (simp add: list_all_iff filter_empty_conv)
  obtain failed did where o: "in_order w ?prep = (failed, did)" by fastforce
  show ?thesis
  proof (cases failed)
    case None
    then have "did = ?prep" "list_all (\<lambda>ev. step_error w ev = None) ?prep"
      using in_order_None [of w ?prep] o by (simp_all add: list_all_iff)
    moreover have "snd (run t w q) = did @ snd (outcome_of (work w q iv))"
      using outcome_of_run [of t w q] by (simp add: outcome_of_def Inr o None)
    moreover obtain post where "snd (outcome_of (work w q iv)) = Spawn iv # post"
        "list_all (\<lambda>ev. \<not> is_spawn ev) post"
      using work_events by blast
    ultimately show ?thesis using none by (simp add: Inr o None)
  next
    case (Some e)
    then have "run t w q = (Inl e, did)"
      using outcome_of_run [of t w q] by (simp add: Inr o outcome_of_Some)
    moreover have "filter is_spawn did = []"
      using set_in_order [of w ?prep] preparation_no_spawn o
      by (intro none) (fastforce simp: list_all_iff)
    ultimately show ?thesis by (simp add: Inr o Some)
  qed
qed

text \<open>C10: A worker that was started is always reaped. If the run started a process, the next events
  are recording its PID and waiting for it, whether or not the recording succeeded; an error of the
  wait, and after it one of the recording, ends the run, otherwise the report is read next. A spawn
  that failed is recorded in a new file that holds its error and the denials, and the run returns
  the spawn error (or the error of the first operation of that recording that failed).\<close>

theorem run_reaps_worker:
  assumes "Spawn iv \<in> set (snd (run t w q))"
  shows "invocation_of t q = Inr iv \<and>
    (case io_spawn w iv of
       Inr pid \<Rightarrow> (\<exists>post. snd (run t w q) = preparation (host_receipt_dir q) q iv @
          [Spawn iv, WritePid (host_receipt_dir q) pid, Wait pid] @ post \<and>
          (case (io_wait w pid, io_write_pid w (host_receipt_dir q) pid) of
             (Inl e, _) \<Rightarrow> fst (run t w q) = Inl e \<and> post = []
           | (Inr _, Inl e) \<Rightarrow> fst (run t w q) = Inl e \<and> post = []
           | (Inr _, Inr _) \<Rightarrow> (\<exists>rest. post = ReadReport (host_receipt_dir q) ''worker.stdout.json'' # rest)))
     | Inl error \<Rightarrow>
         (case in_order w
            [CreateNew (host_receipt_dir q) ''spawn-error.json'',
             WriteJson (host_receipt_dir q) ''spawn-error.json'' (PSpawnError (JObject
               [(''runner_started'', JBool False), (''macos_boot_verified'', JBool False),
                (''error'', JString error)])),
             WriteNewline (host_receipt_dir q) ''spawn-error.json''] of
            (None, did) \<Rightarrow> run t w q = (Inl (RunnerIo error),
              preparation (host_receipt_dir q) q iv @ Spawn iv # did)
          | (Some e, did) \<Rightarrow> run t w q = (Inl e,
              preparation (host_receipt_dir q) q iv @ Spawn iv # did)))"
proof -
  note started = run_started [OF assms]
  show ?thesis
  proof (cases "io_spawn w iv")
    case (Inl error)
    have "outcome_of (run t w q) =
       (let (failed, did) = in_order w (json_events (host_receipt_dir q) ''spawn-error.json''
          (PSpawnError (spawn_error_value error)))
        in (case failed of None \<Rightarrow> Some (RunnerIo error) | Some e \<Rightarrow> Some e,
          preparation (host_receipt_dir q) q iv @ Spawn iv # did))"
      by (simp add: started work_failed [OF Inl] supervise_failed [OF Inl] split_beta Let_def)
    then show ?thesis
      using Inl started(1)
      by (auto simp: spawn_error_value_def outcome_of_Some simp del: in_order.simps split: option.splits)
  next
    case (Inr pid)
    then show ?thesis
      using work_spawned [OF Inr, of q] started
      by (auto simp: outcome_of_def error_of_iff split: sum.splits)
  qed
qed

lemma run_reaps_worker_witness:
  "\<exists>iv post. snd (run linux_target sample_io sample_request) =
     preparation ''/receipts/new-run'' sample_request iv @
     [Spawn iv, WritePid ''/receipts/new-run'' 4242, Wait 4242] @ post"
proof -
  obtain iv where iv: "invocation_of linux_target sample_request = Inr iv"
    using sample_invocation by blast
  have p: "fst (prepare linux_target sample_io sample_request) = Inr iv"
    using sample_prepare [OF iv, of "io_write_pid sample_io"] by simp
  have s: "io_spawn sample_io iv = Inr 4242" by (simp add: sample_io_def)
  have "Spawn iv \<in> set (snd (run linux_target sample_io sample_request))"
    by (simp add: snd_run p snd_supervise s)
  from run_reaps_worker [OF this] s show ?thesis by (auto simp: sample_request_def)
qed

text \<open>C33: The report is read completely and kept within bounds. The kept bytes are at most one more
  than the limit and are a prefix of the worker's output, the hash covers the whole output, and
  the output is parsed exactly when it is within the limit, in full; otherwise it is refused.\<close>

theorem read_report_exact:
  "case read_report w dir name limit of
     Inl e \<Rightarrow> bindE (io_open_report w dir name) file_content = Inl e
   | Inr (bs, hash) \<Rightarrow>
       (\<exists>c. bindE (io_open_report w dir name) file_content = Inr c \<and>
          bs = take (limit + 1) c \<and> hash = concat (map hex_byte (io_sha256 w c)) \<and>
          parse_report w limit bs =
            (if length c \<le> limit
             then map_err invalid_json (io_parse_json w c)
             else Inl (report_too_large limit)))"
proof (cases "bindE (io_open_report w dir name) file_content")
  case (Inl e)
  then show ?thesis
    by (cases "io_open_report w dir name") (simp_all add: read_report_eq)
next
  case (Inr c)
  then show ?thesis
    using parse_report_take [of w limit c]
    by (cases "io_open_report w dir name") (simp_all add: read_report_eq)
qed

text \<open>C11: The outcome of a run is the verdict on what the worker printed. A run that returns an
  outcome spawned the checked invocation, waited for it, and judged the complete output (or, if
  it is over the limit, refused it), all flags included; the outcome carries the process id, the exit code and the
  hash of the output, its guest state is never running, and the last thing the run did was to
  write exactly this outcome to the adapter receipt.\<close>

theorem run_outcome_faithful:
  assumes "fst (run t w q) = Inr out"
  shows "\<exists>iv pid status reads c. invocation_of t q = Inr iv \<and> io_spawn w iv = Inr pid \<and>
    io_wait w pid = Inr status \<and>
    io_open_report w (host_receipt_dir q) ''worker.stdout.json'' = Inr reads \<and>
    file_content reads = Inr c \<and> runner_pid out = pid \<and> runner_exit_code out = status \<and>
    stdout_sha256 out = concat (map hex_byte (io_sha256 w c)) \<and>
    out = (evaluate_report q status
        (if length c \<le> report_limit q then map_err invalid_json (io_parse_json w c)
         else Inl (report_too_large (report_limit q))))
      \<lparr>runner_pid := pid, elapsed_seconds := io_elapsed w,
       stdout_sha256 := concat (map hex_byte (io_sha256 w c))\<rparr> \<and>
    macos_boot_verified out =
      (length c \<le> report_limit q \<and> macos_boot_verified (evaluate_report q status
         (map_err invalid_json (io_parse_json w c)))) \<and>
    guest_state_of out \<notin> {Running, Paused} \<and>
    (\<exists>pre. snd (run t w q) = pre @ [CreateNew (host_receipt_dir q) ''adapter.json'',
       WriteJson (host_receipt_dir q) ''adapter.json'' (POutcome out),
       WriteNewline (host_receipt_dir q) ''adapter.json''])"
proof -
  obtain iv pid status reads c where r: "invocation_of t q = Inr iv" "io_spawn w iv = Inr pid"
      "io_wait w pid = Inr status"
      "io_open_report w (host_receipt_dir q) ''worker.stdout.json'' = Inr reads"
      "file_content reads = Inr c"
    and out: "out = (evaluate_report q status (parse_report w (report_limit q) (take (report_limit q + 1) c)))
      \<lparr>runner_pid := pid, elapsed_seconds := io_elapsed w,
       stdout_sha256 := concat (map hex_byte (io_sha256 w c))\<rparr>"
    and ev: "snd (run t w q) = preparation (host_receipt_dir q) q iv @
      [Spawn iv, WritePid (host_receipt_dir q) pid, Wait pid,
       ReadReport (host_receipt_dir q) ''worker.stdout.json'',
       CreateNew (host_receipt_dir q) ''adapter.json'',
       WriteJson (host_receipt_dir q) ''adapter.json'' (POutcome out),
       WriteNewline (host_receipt_dir q) ''adapter.json'']"
    by (rule fst_run_Inr [OF assms])
  have state: "guest_state_of (x\<lparr>runner_pid := a, elapsed_seconds := b, stdout_sha256 := d\<rparr>) = guest_state_of x"
    for x a b d
    by (simp add: guest_state_of_def)
  have "guest_state_of out \<notin> {Running, Paused}"
    unfolding out state by (rule report_verdict.never_active)
  moreover have "macos_boot_verified out =
      (length c \<le> report_limit q \<and> macos_boot_verified (evaluate_report q status
         (map_err invalid_json (io_parse_json w c))))"
    using verdict_on_output [of q status w c] by (simp add: out)
  moreover have "runner_pid out = pid" "runner_exit_code out = status"
      "stdout_sha256 out = concat (map hex_byte (io_sha256 w c))"
    by (simp_all add: out evaluate_report_exit_code)
  ultimately show ?thesis
    using r ev out [unfolded parse_report_take]
    by (intro exI [of _ iv] exI [of _ pid] exI [of _ status] exI [of _ reads] exI [of _ c]) simp
qed

lemma run_outcome_faithful_witness:
  "\<exists>out. fst (run linux_target (sample_io\<lparr>io_write_pid := (\<lambda>_ _. Ok ())\<rparr>) sample_request) = Inr out \<and>
     runner_pid out = 4242 \<and> \<not> macos_boot_verified out"
proof -
  let ?w = "sample_io\<lparr>io_write_pid := (\<lambda>_ _. Ok ())\<rparr>"
  obtain iv where iv: "invocation_of linux_target sample_request = Inr iv"
    using sample_invocation by blast
  have "fst (supervise ?w sample_request iv) = Inr (4242, Some 0)"
    by (simp add: fst_supervise_Inr_iff sample_io_def)
  moreover have "\<exists>out. fst (conclude ?w sample_request 4242 (Some 0)) = Inr out"
    by (simp add: conclude_def write_new_json_def effect_def pure_def read_report_eq sample_io_def Let_def)
  ultimately obtain out where out: "fst (run linux_target ?w sample_request) = Inr out"
    using sample_prepare [OF iv] by (auto simp: run_def fst_bindT_Inr_iff)
  from run_outcome_faithful [OF out] out show ?thesis
    using report_verdict.no_report_no_claims(2) by (auto simp: sample_io_def)
qed

end
