(* ===== verification/Runner_Request_Tests.thy ===== *)
theory Runner_Request_Tests
  imports Runner_Run
begin

text \<open>
  The unit tests of \<open>src/runner.rs\<close> on requests and invocations, read as propositions about the
  model: one boolean definition per test function, with the same inputs and assertions, and the
  proof that it holds. Tests that are compiled on Windows only are stated for a Windows target.
\<close>

definition windows_target :: target where
  "windows_target = \<lparr>ptr_width = 64, reserve_ok = (\<lambda>_. True), target_arch = ''x86_64'',
     target_os = ''windows'', target_vendor = ''pc''\<rparr>"

section \<open>The tests\<close>

definition command_keeps_paths :: "target \<Rightarrow> bool" where
  "command_keeps_paths t \<longleftrightarrow>
     (case invocation_of t sample_request of
        Inl _ \<Rightarrow> False
      | Inr command \<Rightarrow>
          ''/input/my bundle/macosvm.json'' \<in> set (arguments command) \<and>
          ''/opt/qemu custom'' \<in> set (arguments command) \<and>
          ''--gui'' \<notin> set (arguments command) \<and>
          isl (invocation_of t (sample_request\<lparr>research_only := False\<rparr>)))"

definition wsl_explicit_exec :: "target \<Rightarrow> bool" where
  "wsl_explicit_exec t \<longleftrightarrow>
     (let r = sample_request\<lparr>host := Wsl ''Ubuntu-24.04'' ''/usr/bin/python3''\<rparr> in
      case invocation_of t r of
        Inl _ \<Rightarrow> False
      | Inr iv \<Rightarrow>
          executable iv = ''wsl.exe'' \<and>
          take 7 (arguments iv) = [''--distribution'', ''Ubuntu-24.04'', ''--cd'', ''/source'', ''--exec'',
            ''/usr/bin/python3'', ''-m''] \<and>
          current_dir iv = None \<and>
          invocation_of t (r\<lparr>run_backend := Native ''/usr/bin/macosvm''\<rparr>) = Inl RunnerUnsupportedHost)"

definition invalid_request_fails :: "target \<Rightarrow> run_io \<Rightarrow> bool" where
  "invalid_request_fails t w \<longleftrightarrow> isl (fst (run t w (sample_request\<lparr>duration_secs := 0\<rparr>)))"

text \<open>Changing the configuration of a recovery backend.\<close>

definition on_recovery :: "(recovery_config \<Rightarrow> recovery_config) \<Rightarrow> runner_request \<Rightarrow> runner_request" where
  "on_recovery f q =
     (case run_backend q of TcgRecovery c \<Rightarrow> q\<lparr>run_backend := TcgRecovery (f c)\<rparr> | _ \<Rightarrow> q)"

definition recovery_invocation_flags :: "target \<Rightarrow> bool" where
  "recovery_invocation_flags t \<longleftrightarrow>
     (let request = sample_recovery_request\<lparr>observation_timeout_secs := 0\<rparr> in
      case (invocation_of t request,
            invocation_of t (on_recovery (\<lambda>c. c\<lparr>optional_rpc_unavailable := True\<rparr>) request)) of
        (Inr iv, Inr iv') \<Rightarrow>
          executable iv = ''python3'' \<and> current_dir iv = Some ''/source'' \<and>
          arguments iv =
            [''-m'', ''x86.recovery_supervisor'', ''--qemu'', ''/qemu tools/qemu-system-aarch64'',
             ''--qemu-img'', ''/qemu tools/qemu-img'', ''--firmware'', ''/inputs/AVPBooter.bin'',
             ''--build-manifest'', ''/inputs/BuildManifest.plist'',
             ''--tss-helper'', ''/helper tools/request-encoder'',
             ''--original-ibss'', ''/inputs/original iBSS.im4p'',
             ''--original-ibec'', ''/inputs/original iBEC.im4p'',
             ''--restore-role-dir'', ''/inputs/restore roles'', ''--memory-mib'', ''4096'', ''--smp'', ''2'',
             ''--transition-timeout'', ''20'', ''--restore-timeout'', ''30'', ''--total-timeout'', ''75'',
             ''--cleanup-grace'', ''5'', ''--target'', ''27'', ''--vm-json'', ''/input/my bundle/macosvm.json'',
             ''--output'', ''/output/new-run'', ''--duration'', ''10''] \<and>
          length (filter (\<lambda>arg. arg = ''--optional-rpc-unavailable'') (arguments iv')) = 1 \<and>
          list_all (\<lambda>absent. \<not> list_ex (\<lambda>arg. arg = absent) (arguments iv'))
            [''run-tcg'', ''--firmware-kind'', ''--observation-timeout'', ''--json'', ''--research-only'']
      | _ \<Rightarrow> False)"

text \<open>\<open>*input.pointer_mut(pointer).unwrap() = value\<close> for the path and number fields of a request.\<close>

definition path_setters :: "(path \<Rightarrow> runner_request \<Rightarrow> runner_request) list" where
  "path_setters =
     [\<lambda>p q. q\<lparr>repository := p\<rparr>, \<lambda>p q. q\<lparr>vm_json := p\<rparr>, \<lambda>p q. q\<lparr>output_path := p\<rparr>,
      \<lambda>p q. q\<lparr>host_receipt_dir := p\<rparr>, \<lambda>p q. q\<lparr>host := Local p\<rparr>,
      \<lambda>p. on_recovery (\<lambda>c. c\<lparr>qemu := p\<rparr>), \<lambda>p. on_recovery (\<lambda>c. c\<lparr>qemu_img := p\<rparr>),
      \<lambda>p. on_recovery (\<lambda>c. c\<lparr>firmware := p\<rparr>), \<lambda>p. on_recovery (\<lambda>c. c\<lparr>build_manifest := p\<rparr>),
      \<lambda>p. on_recovery (\<lambda>c. c\<lparr>tss_helper := p\<rparr>), \<lambda>p. on_recovery (\<lambda>c. c\<lparr>original_ibss := p\<rparr>),
      \<lambda>p. on_recovery (\<lambda>c. c\<lparr>original_ibec := p\<rparr>), \<lambda>p. on_recovery (\<lambda>c. c\<lparr>restore_role_dir := p\<rparr>)]"

definition bad_path :: path where
  "bad_path = ''bad'' @ [NUL] @ ''path''"

definition number_setters :: "(runner_request \<Rightarrow> runner_request) list" where
  "number_setters =
     [on_recovery (\<lambda>c. c\<lparr>memory_mib := 511\<rparr>), on_recovery (\<lambda>c. c\<lparr>memory_mib := 1048577\<rparr>),
      on_recovery (\<lambda>c. c\<lparr>smp := 0\<rparr>), on_recovery (\<lambda>c. c\<lparr>smp := 33\<rparr>),
      on_recovery (\<lambda>c. c\<lparr>transition_timeout_secs := 0\<rparr>),
      on_recovery (\<lambda>c. c\<lparr>transition_timeout_secs := 301\<rparr>),
      on_recovery (\<lambda>c. c\<lparr>restore_timeout_secs := 0\<rparr>), on_recovery (\<lambda>c. c\<lparr>restore_timeout_secs := 301\<rparr>),
      on_recovery (\<lambda>c. c\<lparr>total_timeout_secs := 29\<rparr>), on_recovery (\<lambda>c. c\<lparr>total_timeout_secs := 86401\<rparr>),
      \<lambda>q. q\<lparr>duration_secs := 70\<rparr>, \<lambda>q. q\<lparr>duration_secs := 0\<rparr>]"

definition recovery_request_rejects :: "target \<Rightarrow> bool" where
  "recovery_request_rejects t \<longleftrightarrow>
     list_all (\<lambda>set_path. isl (invocation_of t (set_path '''' sample_recovery_request)) \<and>
       isl (invocation_of t (set_path bad_path sample_recovery_request))) path_setters \<and>
     list_all (\<lambda>change. isl (invocation_of t (change sample_recovery_request))) number_setters \<and>
     (let request = sample_recovery_request\<lparr>duration_secs := 69\<rparr> in
      \<not> isl (invocation_of t request) \<and> isl (invocation_of t (request\<lparr>research_only := False\<rparr>)))"

definition recovery_wsl_explicit :: "target \<Rightarrow> bool" where
  "recovery_wsl_explicit t \<longleftrightarrow>
     (case invocation_of t (sample_recovery_request\<lparr>host := Wsl ''Ubuntu-24.04'' ''/usr/bin/python3''\<rparr>) of
        Inl _ \<Rightarrow> False
      | Inr iv \<Rightarrow>
          executable iv = ''wsl.exe'' \<and> current_dir iv = None \<and>
          take 8 (arguments iv) = [''--distribution'', ''Ubuntu-24.04'', ''--cd'', ''/source'', ''--exec'',
            ''/usr/bin/python3'', ''-m'', ''x86.recovery_supervisor''])"

section \<open>The tests hold\<close>

lemmas request_texts = sample_recovery_request_def sample_request_def

text \<open>The paths of the samples are accepted.\<close>

lemma clean_literals:
  "list_all clean
     [''/source'', ''/input/my bundle/macosvm.json'', ''/output/new-run'', ''/receipts/new-run'', ''python3'',
      ''/usr/bin/python3'', ''/opt/qemu custom'', ''/usr/bin/qemu-img'', ''/input/original firmware.bin'',
      ''/qemu tools/qemu-system-aarch64'', ''/qemu tools/qemu-img'', ''/inputs/AVPBooter.bin'',
      ''/inputs/BuildManifest.plist'', ''/helper tools/request-encoder'', ''/inputs/original iBSS.im4p'',
      ''/inputs/original iBEC.im4p'', ''/inputs/restore roles'']"
  by (simp add: clean_def ascii_is_str NUL_def)

lemmas clean_facts = clean_literals [unfolded list.pred_inject]

lemma text_path_clean: "clean p \<Longrightarrow> text_path p = Inr p"
  by (simp add: text_path_Inr_iff)

lemma not_clean: "\<not> clean ''''" "\<not> clean bad_path"
  by (simp_all add: clean_def bad_path_def)

lemma path_setters_reject:
  assumes "run_backend q = TcgRecovery c" and "\<not> clean p"
  shows "list_all (\<lambda>set_path. \<not> request_ok t (set_path p q)) path_setters"
  using assms by (simp add: path_setters_def on_recovery_def request_ok_def)

lemma number_setters_reject:
  assumes "run_backend q = TcgRecovery c" and "total_timeout_secs c = 75"
  shows "list_all (\<lambda>change. \<not> request_ok t (change q)) number_setters"
  using assms by (simp add: number_setters_def on_recovery_def request_ok_def in_range_def)

lemma sample_recovery_config:
  obtains c where "run_backend sample_recovery_request = TcgRecovery c" and "total_timeout_secs c = 75"
  by (rule that, simp add: sample_recovery_request_def, simp)

lemma request_ok_69: "request_ok t (sample_recovery_request\<lparr>duration_secs := 69\<rparr>)"
  using clean_facts by (simp add: request_texts request_ok_def in_range_def)

lemma recovery_request_rejects_holds: "recovery_request_rejects t"
proof (rule sample_recovery_config)
  fix c
  assume c: "run_backend sample_recovery_request = TcgRecovery c" "total_timeout_secs c = 75"
  have "list_all (\<lambda>set_path. \<not> request_ok t (set_path [] sample_recovery_request) \<and>
      \<not> request_ok t (set_path bad_path sample_recovery_request)) path_setters"
    using path_setters_reject [OF c(1)] not_clean by (simp only: list_all_iff) blast
  moreover have "\<not> request_ok t (sample_recovery_request\<lparr>duration_secs := 69, research_only := False\<rparr>)"
    by (simp add: request_ok_def)
  ultimately show ?thesis
    using number_setters_reject [OF c] request_ok_69
    by (simp only: recovery_request_rejects_def isl_invocation_of Let_def not_not simp_thms)
qed

lemmas decimals = decimal.simps decimal_digit_def

lemma sample_invocation_value:
  "invocation_of t (sample_request) = Inr \<lparr>executable = ''python3'',
     arguments = [''-m'', ''x86'', ''vmapple'', ''run-tcg'', ''--qemu'', ''/opt/qemu custom'', ''--qemu-img'',
       ''/usr/bin/qemu-img'', ''--firmware'', ''/input/original firmware.bin'', ''--firmware-kind'',
       ''avpbooter'', ''--memory-mib'', ''4096'', ''--smp'', ''2'', ''--display'', ''none'', ''--target'', ''27'',
       ''--vm-json'', ''/input/my bundle/macosvm.json'', ''--output'', ''/output/new-run'',
       ''--duration'', ''5'', ''--observation-timeout'', ''5'', ''--research-only'', ''--json''],
     current_dir = Some ''/source''\<rparr>"
  using clean_facts
  by (simp add: invocation_of_def sample_request_def text_path_clean backend_arguments_def
      tcg_arguments_def host_invocation_def decimals)

lemma command_keeps_paths_holds: "command_keeps_paths t"
  unfolding command_keeps_paths_def sample_invocation_value
  by (simp add: isl_invocation_of request_ok_def)

lemma wsl_explicit_exec_holds: "target_os t = ''windows'' \<Longrightarrow> wsl_explicit_exec t"
  using clean_facts
  by (simp add: wsl_explicit_exec_def invocation_of_def sample_request_def text_path_clean
      backend_arguments_def tcg_arguments_def host_invocation_def NUL_def)

lemma recovery_arguments_value:
  "recovery_arguments 10 \<lparr>qemu = ''/qemu tools/qemu-system-aarch64'', qemu_img = ''/qemu tools/qemu-img'',
        firmware = ''/inputs/AVPBooter.bin'', memory_mib = 4096, smp = 2,
        build_manifest = ''/inputs/BuildManifest.plist'',
        tss_helper = ''/helper tools/request-encoder'',
        original_ibss = ''/inputs/original iBSS.im4p'',
        original_ibec = ''/inputs/original iBEC.im4p'', restore_role_dir = ''/inputs/restore roles'',
        transition_timeout_secs = 20, restore_timeout_secs = 30, total_timeout_secs = 75,
        optional_rpc_unavailable = rpc\<rparr> = Inr
     ([''-m'', ''x86.recovery_supervisor'', ''--qemu'', ''/qemu tools/qemu-system-aarch64'',
       ''--qemu-img'', ''/qemu tools/qemu-img'', ''--firmware'', ''/inputs/AVPBooter.bin'',
       ''--build-manifest'', ''/inputs/BuildManifest.plist'',
       ''--tss-helper'', ''/helper tools/request-encoder'',
       ''--original-ibss'', ''/inputs/original iBSS.im4p'',
       ''--original-ibec'', ''/inputs/original iBEC.im4p'',
       ''--restore-role-dir'', ''/inputs/restore roles'', ''--memory-mib'', ''4096'', ''--smp'', ''2'',
       ''--transition-timeout'', ''20'', ''--restore-timeout'', ''30'', ''--total-timeout'', ''75'',
       ''--cleanup-grace'', ''5''] @ (if rpc then [''--optional-rpc-unavailable''] else []))"
  using clean_facts
  by (simp add: recovery_arguments_def text_path_clean number_flags_def decimals)

lemma recovery_invocation_flags_holds: "recovery_invocation_flags t"
  using clean_facts
  by (simp add: recovery_invocation_flags_def on_recovery_def invocation_of_def request_texts
      text_path_clean backend_arguments_def recovery_arguments_value host_invocation_def decimals)

lemma recovery_wsl_explicit_holds: "target_os t = ''windows'' \<Longrightarrow> recovery_wsl_explicit t"
  using clean_facts
  by (simp add: recovery_wsl_explicit_def invocation_of_def request_texts text_path_clean
      backend_arguments_def recovery_arguments_value host_invocation_def NUL_def)

lemma invalid_request_fails_holds: "invalid_request_fails t w"
proof -
  have "isl (invocation_of t (sample_request\<lparr>duration_secs := 0\<rparr>))"
    by (simp add: isl_invocation_of request_ok_def in_range_def)
  then show ?thesis
    by (cases "fst (run t w (sample_request\<lparr>duration_secs := 0\<rparr>))")
      (auto simp: invalid_request_fails_def elim!: fst_run_Inr)
qed

end
