(* ===== verification/Runner_Archive.thy ===== *)
theory Runner_Archive
  imports Runner_Samples
begin

text \<open>
  The archived generation of the runner,
  \<open>src/research/handoff/legacy-uncommitted-20261001/src/runner.rs\<close>. Its text is that of
  \<open>src/runner.rs\<close> except for the schema names of the worker's reports, which start with
  \<open>NextCore.\<close> where the current ones start with \<open>26x86.\<close>. Every binding of the verdict that
  depends on a schema name is defined again from the archived lines, as \<open>arch_<binding>\<close>; the
  bindings that do not are the ones of Runner_Report and Runner_Recovery. The theorem says that
  the two generations decide alike up to the renaming of these schema names, and that no report
  counts as a started guest under both.
\<close>

section \<open>Schema names\<close>

fun arch_backend_schema :: "runner_backend \<Rightarrow> string" where
  "arch_backend_schema (Native _) = ''NextCore.macosvm-native/1''"
| "arch_backend_schema (Tcg _) = ''NextCore.vmapple-tcg/1''"
| "arch_backend_schema (TcgRecovery _) = ''nextcore.recovery-supervisor/1''"

section \<open>The archived native and raw-TCG verdict\<close>

definition arch_native_identity :: "runner_request \<Rightarrow> json \<Rightarrow> bool" where
  "arch_native_identity q r \<longleftrightarrow>
     as_str (json_index r ''schema'') = Some (arch_backend_schema (run_backend q)) \<and>
     as_str (json_index r ''engine'') = Some (backend_engine (run_backend q)) \<and>
     as_u64 (json_index r ''target_major'') = Some (target64 q)"

definition arch_native_runtime :: "runner_request \<Rightarrow> json \<Rightarrow> bool" where
  "arch_native_runtime q r \<longleftrightarrow>
     arch_native_identity q r \<and>
     (case run_backend q of
        Native _ \<Rightarrow> yes r ''native_runtime_started''
      | Tcg _ \<Rightarrow> yes r ''tcg_runtime_started''
      | TcgRecovery _ \<Rightarrow> False)"

definition arch_native_terminated :: "runner_request \<Rightarrow> json \<Rightarrow> bool" where
  "arch_native_terminated q r \<longleftrightarrow>
     arch_native_runtime q r \<and>
     as_i64 (json_index r ''returncode'') \<noteq> None \<and>
     (case as_str (json_index r ''termination'') of Some s \<Rightarrow> s \<noteq> [] | None \<Rightarrow> False)"

definition arch_native_xnu :: "runner_request \<Rightarrow> json \<Rightarrow> bool" where
  "arch_native_xnu q r \<longleftrightarrow> arch_native_runtime q r \<and> yes r ''xnu_executed'' \<and> native_xnu_offset r \<noteq> None"

definition arch_native_userspace :: "runner_request \<Rightarrow> json \<Rightarrow> bool" where
  "arch_native_userspace q r \<longleftrightarrow>
     arch_native_runtime q r \<and> yes r ''macos_userspace_reached'' \<and> native_userspace_offset r \<noteq> None"

definition arch_native_target :: "runner_request \<Rightarrow> json \<Rightarrow> bool" where
  "arch_native_target q r \<longleftrightarrow>
     arch_native_identity q r \<and> yes r ''guest_target_match'' \<and>
     as_u64 (json_index r ''guest_kernel_major'') = Some (target64 q) \<and>
     (case as_array (json_path r [''observed_markers'', ''xnu'']) of
        None \<Rightarrow> False
      | Some items \<Rightarrow> list_ex (\<lambda>m. xnu_marker m \<and>
          as_u64 (json_index m ''kernel_major'') = Some (target64 q) \<and>
          as_u64 (json_index m ''byte_offset'') \<noteq> None) items)"

definition arch_native_intact :: "runner_request \<Rightarrow> json \<Rightarrow> bool" where
  "arch_native_intact q r \<longleftrightarrow>
     arch_native_identity q r \<and> yes r ''input_integrity'' \<and> \<not> yes r ''guest_inputs_modified''"

definition arch_native_verified :: "runner_request \<Rightarrow> int option \<Rightarrow> json \<Rightarrow> bool" where
  "arch_native_verified q exit r \<longleftrightarrow>
     exit = Some 0 \<and> arch_native_terminated q r \<and> arch_native_xnu q r \<and> arch_native_userspace q r \<and>
     arch_native_target q r \<and> arch_native_intact q r \<and> yes r ''macos_boot_verified'' \<and>
     is_null (json_index r ''error'')"

definition arch_native_failure :: "runner_request \<Rightarrow> int option \<Rightarrow> json \<Rightarrow> string option \<Rightarrow> string option" where
  "arch_native_failure q exit r parse_error =
     (if arch_native_verified q exit r then None
      else Some (case parse_error of
          Some e \<Rightarrow> e
        | None \<Rightarrow> first_str [json_index r ''error'', json_index r ''blocker'']
            (if \<not> arch_native_identity q r then ''worker report has no matching backend/target receipt''
             else if \<not> arch_native_runtime q r then ''guest runtime was not started''
             else if \<not> arch_native_terminated q r then ''guest process termination is unconfirmed''
             else if \<not> arch_native_intact q r then ''original input integrity is unconfirmed''
             else ''target-matching XNU/userspace boot evidence is incomplete'')))"

definition arch_evaluate_native :: "runner_request \<Rightarrow> int option \<Rightarrow> (json, string) result \<Rightarrow> run_outcome" where
  "arch_evaluate_native q exit parsed =
     (let r = report_or_null parsed in
      \<lparr>schema = ''nextcore.apls-host-run/1'', runner_pid = 0, runner_exit_code = exit,
       runner_completed = True, elapsed_seconds = 0, engine = backend_engine (run_backend q),
       guest_runtime_started = arch_native_runtime q r,
       guest_process_terminated = arch_native_terminated q r,
       xnu_executed = arch_native_xnu q r, macos_userspace_reached = arch_native_userspace q r,
       guest_target_match = arch_native_target q r, input_integrity = arch_native_intact q r,
       macos_boot_verified = arch_native_verified q exit r, installation_verified = False,
       graphics_acceleration_verified = False, recovery_progress_of = None, stdout_sha256 = [],
       report = report_of parsed,
       failure = arch_native_failure q exit r (parse_error_of parsed)\<rparr>)"

section \<open>The archived recovery verdict\<close>

definition arch_launch_identity :: "runner_request \<Rightarrow> json \<Rightarrow> bool" where
  "arch_launch_identity q e \<longleftrightarrow>
     (let raw = raw_of e in
      recovery_identity q e \<and>
      as_str (json_path e [''launch_report'', ''raw_schema'']) = Some ''NextCore.vmapple-gui/1'' \<and>
      is_true (json_path e [''launch_report'', ''identity_valid'']) \<and>
      as_str (json_index raw ''schema'') = Some ''NextCore.vmapple-gui/1'' \<and>
      as_u64 (json_index raw ''target_major'') = Some (target64 q) \<and>
      as_str (json_index raw ''output'') = canonical_output e \<and>
      as_str (json_index raw ''machine_type'') = Some ''iBoot(AArch64)'' \<and>
      as_str (json_index raw ''personality'') = Some ''iBoot'' \<and>
      as_str (json_index raw ''guest_os'') = Some ''macOS'' \<and>
      as_str (json_index raw ''boot_mode'') = Some ''recovery'')"

definition arch_recovery_runtime :: "runner_request \<Rightarrow> json \<Rightarrow> bool" where
  "arch_recovery_runtime q e \<longleftrightarrow>
     arch_launch_identity q e \<and> is_true (json_index (raw_of e) ''runtime_started'') \<and>
     runtime_pid_observed e"

definition arch_recovery_terminated :: "runner_request \<Rightarrow> json \<Rightarrow> bool" where
  "arch_recovery_terminated q e \<longleftrightarrow> arch_recovery_runtime q e \<and> recovery_cleanup q e"

definition arch_recovery_progress_value :: "runner_request \<Rightarrow> json \<Rightarrow> recovery_progress" where
  "arch_recovery_progress_value q e =
     (let raw = raw_of e; uploaded = uploaded_roles raw in
      if arch_recovery_runtime q e then
        \<lparr>dfu_upload_completed = is_true (json_path raw [''dfu_upload'', ''transfer_complete'']),
         ibec_endpoint_advertised =
           (as_str (json_path raw [''transition'', ''state'']) = Some ''ibec-ready''),
         stage2_banner_observed =
           (is_true (json_path raw [''stage2'', ''stage2_serial_started'']) \<and>
            as_u64 (json_path raw [''stage2'', ''stage2_serial_start_byte_offset'']) \<noteq> None),
         stage2_prompt_observed =
           (is_true (json_path raw [''stage2'', ''observed'']) \<and>
            as_u64 (json_path raw [''stage2'', ''byte_offset'']) \<noteq> None),
         restore_sequence_sent =
           (is_true (json_path raw [''restore_chain'', ''sequence_sent'']) \<and>
            is_true (json_path raw [''restore_chain'', ''input_integrity'']) \<and>
            list_all (\<lambda>complete. complete) (take 4 uploaded)),
         restore_role_step_count = word_of_nat (length (filter (\<lambda>complete. complete) uploaded)),
         bootx_acknowledged = is_true (json_path raw [''restore_chain'', ''bootx_acknowledged'']),
         firmware_panic_observed =
           (is_true (json_path raw [''guest_panic'', ''observed'']) \<or>
            is_true (json_path raw [''stage2'', ''panic_observed'']) \<or>
            is_true (json_path raw [''restore_chain'', ''post_bootx_panic'']))\<rparr>
      else progress_default)"

definition arch_handoff_identity :: "runner_request \<Rightarrow> json \<Rightarrow> bool" where
  "arch_handoff_identity q e \<longleftrightarrow>
     (let handoff = handoff_of e in
      as_str (json_index handoff ''schema'') = Some ''NextCore.iboot-xnu-handoff/1'' \<and>
      is_true (json_index handoff ''valid'') \<and>
      as_str (json_index handoff ''mode'') = Some ''recovery'' \<and>
      as_u64 (json_index handoff ''target_major'') = Some (target64 q))"

definition arch_recovery_xnu :: "runner_request \<Rightarrow> json \<Rightarrow> bool" where
  "arch_recovery_xnu q e \<longleftrightarrow>
     arch_recovery_runtime q e \<and> recovery_xnu_offset q e \<noteq> None \<and>
     is_true (json_index (raw_of e) ''xnu_executed'') \<and>
     is_true (json_index (observation_of (raw_of e)) ''xnu_executed'') \<and>
     is_true (json_path e [''boot'', ''xnu_executed''])"

definition arch_recovery_userspace :: "runner_request \<Rightarrow> json \<Rightarrow> bool" where
  "arch_recovery_userspace q e \<longleftrightarrow>
     arch_recovery_xnu q e \<and> recovery_userspace_offset q e \<noteq> None \<and>
     is_true (json_index (observation_of (raw_of e)) ''macos_userspace_reached'') \<and>
     is_true (json_path e [''boot'', ''userspace''])"

definition arch_recovery_target :: "runner_request \<Rightarrow> json \<Rightarrow> bool" where
  "arch_recovery_target q e \<longleftrightarrow>
     (let raw = raw_of e; observation = observation_of raw in
      arch_recovery_xnu q e \<and>
      as_u64 (json_index raw ''guest_kernel_major'') = Some (target64 q) \<and>
      as_u64 (json_index observation ''guest_kernel_major'') = Some (target64 q) \<and>
      as_u64 (json_path e [''boot'', ''guest_kernel_major'']) = Some (target64 q) \<and>
      is_true (json_index raw ''guest_target_match'') \<and>
      is_true (json_index observation ''guest_target_match'') \<and>
      is_true (json_path e [''boot'', ''target_match'']))"

definition arch_recovery_verified :: "runner_request \<Rightarrow> int option \<Rightarrow> json \<Rightarrow> bool" where
  "arch_recovery_verified q exit e \<longleftrightarrow>
     (let raw = raw_of e; handoff = handoff_of e; progress = arch_recovery_progress_value q e in
      exit = Some 0 \<and> recovery_complete e \<and> uninterrupted e \<and> arch_recovery_terminated q e \<and>
      recovery_intact q e \<and> arch_recovery_xnu q e \<and> arch_recovery_userspace q e \<and> arch_recovery_target q e \<and>
      is_true (json_index raw ''input_integrity'') \<and> is_null (json_index raw ''error'') \<and>
      is_null (json_index e ''error'') \<and> is_true (json_index raw ''macos_boot_verified'') \<and>
      is_true (json_path e [''boot'', ''macos_boot_verified'']) \<and> arch_handoff_identity q e \<and>
      is_true (json_path handoff [''claims'', ''xnu_executed'']) \<and>
      is_true (json_path handoff [''claims'', ''macos_userspace_reached'']) \<and>
      is_true (json_path handoff [''claims'', ''macos_boot_verified'']) \<and>
      dfu_upload_completed progress \<and> ibec_endpoint_advertised progress \<and>
      stage2_prompt_observed progress \<and> restore_sequence_sent progress \<and>
      bootx_acknowledged progress \<and> \<not> firmware_panic_observed progress \<and>
      (case (as_u64 (json_path raw [''stage2'', ''byte_offset'']), recovery_xnu_offset q e) of
         (Some stage2, Some xnu) \<Rightarrow> stage2 < xnu
       | _ \<Rightarrow> False))"

definition arch_recovery_failure :: "runner_request \<Rightarrow> int option \<Rightarrow> json \<Rightarrow> string option \<Rightarrow> string option" where
  "arch_recovery_failure q exit e parse_error =
     (if arch_recovery_verified q exit e then None
      else Some (case parse_error of
          Some err \<Rightarrow> err
        | None \<Rightarrow>
            if \<not> recovery_identity q e \<or> \<not> arch_launch_identity q e
            then ''recovery receipt has no matching supervisor/launch identity''
            else if \<not> arch_recovery_runtime q e
            then ''recovery QEMU process identity was not observed in this run''
            else if \<not> recovery_cleanup q e then ''Linux guest process cleanup is unconfirmed''
            else if \<not> recovery_intact q e
            then ''original recovery input integrity is unconfirmed''
            else if \<not> uninterrupted e then ''recovery was cancelled or exceeded its deadline''
            else first_str
              [json_index e ''error'', json_index (raw_of e) ''error'',
               json_index (raw_of e) ''transition_blocker'',
               json_path (raw_of e) [''golden_gate_installation'', ''blocker'']]
              ''recovery completed-unverified: target-matching XNU/userspace evidence is incomplete''))"

definition arch_evaluate_recovery_report ::
    "runner_request \<Rightarrow> int option \<Rightarrow> (json, string) result \<Rightarrow> run_outcome" where
  "arch_evaluate_recovery_report q exit parsed =
     (let e = report_or_null parsed in
      \<lparr>schema = ''nextcore.apls-host-run/1'', runner_pid = 0, runner_exit_code = exit,
       runner_completed = True, elapsed_seconds = 0, engine = backend_engine (run_backend q),
       guest_runtime_started = arch_recovery_runtime q e,
       guest_process_terminated = arch_recovery_terminated q e,
       xnu_executed = arch_recovery_xnu q e, macos_userspace_reached = arch_recovery_userspace q e,
       guest_target_match = arch_recovery_target q e, input_integrity = recovery_intact q e,
       macos_boot_verified = arch_recovery_verified q exit e, installation_verified = False,
       graphics_acceleration_verified = False,
       recovery_progress_of = Some (arch_recovery_progress_value q e), stdout_sha256 = [],
       report = report_of parsed,
       failure = arch_recovery_failure q exit e (parse_error_of parsed)\<rparr>)"

definition arch_evaluate_report ::
    "runner_request \<Rightarrow> int option \<Rightarrow> (json, string) result \<Rightarrow> run_outcome" where
  "arch_evaluate_report q exit parsed =
     (if is_recovery (run_backend q) then arch_evaluate_recovery_report q exit parsed
      else arch_evaluate_native q exit parsed)"

section \<open>Renaming the schemas of a report\<close>

text \<open>The schema names of the two generations, exchanged. Only the values of \<open>schema\<close> and
  \<open>raw_schema\<close> entries are renamed; the flag says that the value stands at such an entry.\<close>

definition schema_names :: "(string \<times> string) list" where
  "schema_names =
     [(''26x86.macosvm-native/1'', ''NextCore.macosvm-native/1''),
      (''26x86.vmapple-tcg/1'', ''NextCore.vmapple-tcg/1''),
      (''26x86.vmapple-gui/1'', ''NextCore.vmapple-gui/1''),
      (''26x86.iboot-xnu-handoff/1'', ''NextCore.iboot-xnu-handoff/1'')]"

definition swap_name :: "string \<Rightarrow> string" where
  "swap_name s =
     (case map_of (schema_names @ map prod.swap schema_names) s of Some t \<Rightarrow> t | None \<Rightarrow> s)"

definition schema_key :: "string \<Rightarrow> bool" where
  "schema_key k \<longleftrightarrow> k = ''schema'' \<or> k = ''raw_schema''"

fun rename :: "bool \<Rightarrow> json \<Rightarrow> json" where
  "rename at_schema (JString s) = JString (if at_schema then swap_name s else s)"
| "rename _ (JArray xs) = JArray (map (rename False) xs)"
| "rename _ (JObject kvs) = JObject (map (\<lambda>(k, v). (k, rename (schema_key k) v)) kvs)"
| "rename _ v = v"

abbreviation rename_report :: "json \<Rightarrow> json" where
  "rename_report \<equiv> rename False"

lemma swap_name_involution [simp]: "swap_name (swap_name s) = s"
  by (simp add: swap_name_def schema_names_def)

lemma swap_name_eq_iff: "swap_name s = t \<longleftrightarrow> s = swap_name t"
  by auto

lemma swap_name_archived [simp]:
  "swap_name ''NextCore.macosvm-native/1'' = ''26x86.macosvm-native/1''"
  "swap_name ''NextCore.vmapple-tcg/1'' = ''26x86.vmapple-tcg/1''"
  "swap_name ''NextCore.vmapple-gui/1'' = ''26x86.vmapple-gui/1''"
  "swap_name ''NextCore.iboot-xnu-handoff/1'' = ''26x86.iboot-xnu-handoff/1''"
  "swap_name ''nextcore.recovery-supervisor/1'' = ''nextcore.recovery-supervisor/1''"
  by (simp_all add: swap_name_def schema_names_def)

lemma swap_name_backend [simp]: "swap_name (arch_backend_schema b) = backend_schema b"
  by (cases b) simp_all

section \<open>What a renamed report shows\<close>

text \<open>Entries keep their places, and every view but the string of a schema entry is kept.\<close>

named_theorems rename_reads

lemma rename_get [rename_reads]:
  "json_get (rename b v) k = map_option (rename (schema_key k)) (json_get v k)"
proof (cases v)
  case (JObject kvs)
  have "map_of (map (\<lambda>(k, v). (k, rename (schema_key k) v)) kvs) k =
      map_option (rename (schema_key k)) (map_of kvs k)"
    by (induction kvs) auto
  then show ?thesis using JObject by simp
qed simp_all

lemma rename_index [rename_reads]:
  "json_index (rename b v) k = rename (schema_key k) (json_index v k)"
  by (simp add: json_index_def rename_get split: option.splits)

lemma rename_views [rename_reads]:
  "as_bool (rename b v) = as_bool v" "as_u64 (rename b v) = as_u64 v"
  "as_i64 (rename b v) = as_i64 v" "is_null (rename b v) = is_null v"
  "is_object (rename b v) = is_object v" "is_true (rename b v) = is_true v"
  "as_str (rename_report v) = as_str v"
  "as_array (rename b v) = map_option (map rename_report) (as_array v)"
  by (cases v; simp add: is_true_def; fail)+

lemma rename_named [rename_reads]:
  "as_str (rename True v) = Some t \<longleftrightarrow> as_str v = Some (swap_name t)"
  by (cases v) (auto simp: swap_name_eq_iff)

declare schema_key_def [rename_reads]

lemma rename_yes [rename_reads]: "yes (rename b r) k = yes r k"
  by (cases "json_get r k") (simp_all add: yes_def rename_reads)

lemma rename_markers [rename_reads]:
  "xnu_marker (rename b m) = xnu_marker m" "userspace_marker (rename b m) = userspace_marker m"
  by (simp_all add: xnu_marker_def userspace_marker_def rename_reads)

lemma rename_offsets [rename_reads]:
  assumes "\<And>m. recognized (rename_report m) = recognized m"
  shows "marker_offsets recognized (rename b ms) = marker_offsets recognized ms"
proof -
  have "offset_if recognized (rename_report m) = offset_if recognized m" for m
    by (simp add: offset_if_def assms rename_reads)
  then show ?thesis
    by (simp add: marker_offsets_def array_items_def List.map_filter_def filter_map o_def rename_reads
        split: option.splits)
qed

lemma rename_userspace_after [rename_reads]: "userspace_after (rename b ms) x = userspace_after ms x"
  by (simp add: userspace_after_def rename_reads)

lemma rename_first_str [rename_reads]:
  "first_str (map rename_report vs) fallback = first_str vs fallback"
  by (simp add: first_str_def List.map_filter_def filter_map o_def rename_reads split: list.splits)

section \<open>The verdicts on a renamed report\<close>

lemma arch_native_bindings [rename_reads]:
  shows "arch_native_identity q (rename_report r) = native_identity q r"
    and "arch_native_runtime q (rename_report r) = native_runtime q r"
    and "arch_native_terminated q (rename_report r) = native_terminated q r"
    and "native_xnu_offset (rename_report r) = native_xnu_offset r"
    and "native_userspace_offset (rename_report r) = native_userspace_offset r"
    and "arch_native_xnu q (rename_report r) = native_xnu q r"
    and "arch_native_userspace q (rename_report r) = native_userspace q r"
    and "arch_native_target q (rename_report r) = native_target q r"
    and "arch_native_intact q (rename_report r) = native_intact q r"
    and "arch_native_verified q exit (rename_report r) = native_verified q exit r"
    and "arch_native_failure q exit (rename_report r) err = native_failure q exit r err"
proof -
  show i: "arch_native_identity q (rename_report r) = native_identity q r"
    by (simp add: arch_native_identity_def native_identity_def rename_reads)
  show rt: "arch_native_runtime q (rename_report r) = native_runtime q r"
    by (simp add: arch_native_runtime_def native_runtime_def i rename_yes split: runner_backend.splits)
  show t: "arch_native_terminated q (rename_report r) = native_terminated q r"
    by (simp add: arch_native_terminated_def native_terminated_def rt rename_reads)
  show xo: "native_xnu_offset (rename_report r) = native_xnu_offset r"
    by (simp add: native_xnu_offset_def rename_reads)
  show uo: "native_userspace_offset (rename_report r) = native_userspace_offset r"
    by (simp add: native_userspace_offset_def xo rename_index rename_userspace_after)
  show x: "arch_native_xnu q (rename_report r) = native_xnu q r"
    by (simp add: arch_native_xnu_def native_xnu_def rt xo rename_yes)
  show u: "arch_native_userspace q (rename_report r) = native_userspace q r"
    by (simp add: arch_native_userspace_def native_userspace_def rt uo rename_yes)
  show g: "arch_native_target q (rename_report r) = native_target q r"
    by (simp add: arch_native_target_def native_target_def i list_ex_iff rename_reads
        split: option.splits)
  show n: "arch_native_intact q (rename_report r) = native_intact q r"
    by (simp add: arch_native_intact_def native_intact_def i rename_yes)
  show v: "arch_native_verified q exit (rename_report r) = native_verified q exit r"
    by (simp add: arch_native_verified_def native_verified_def t x u g n rename_reads)
  have "first_str [json_index (rename_report r) ''error'', json_index (rename_report r) ''blocker'']
      fallback = first_str [json_index r ''error'', json_index r ''blocker''] fallback" for fallback
    using rename_first_str [of "[json_index r ''error'', json_index r ''blocker'']"]
    by (simp add: rename_index schema_key_def)
  then show "arch_native_failure q exit (rename_report r) err = native_failure q exit r err"
    by (simp only: arch_native_failure_def native_failure_def i rt t n v)
qed

lemma rename_raw [rename_reads]: "raw_of (rename_report e) = rename_report (raw_of e)"
  by (simp add: raw_of_def rename_reads)

lemma rename_supervisor [rename_reads]:
  "canonical_output (rename_report e) = canonical_output e"
  "recovery_identity q (rename_report e) = recovery_identity q e"
  "recovery_cleanup q (rename_report e) = recovery_cleanup q e"
  "recovery_intact q (rename_report e) = recovery_intact q e"
  "recovery_complete (rename_report e) = recovery_complete e"
  "uninterrupted (rename_report e) = uninterrupted e"
proof -
  show c: "canonical_output (rename_report e) = canonical_output e"
    by (simp add: canonical_output_def rename_reads)
  show i: "recovery_identity q (rename_report e) = recovery_identity q e"
    by (simp add: recovery_identity_def c rename_reads)
  show "recovery_cleanup q (rename_report e) = recovery_cleanup q e"
    by (simp add: recovery_cleanup_def i rename_reads split: option.splits)
  show "recovery_intact q (rename_report e) = recovery_intact q e"
    by (simp add: recovery_intact_def i rename_reads)
  show "recovery_complete (rename_report e) = recovery_complete e"
    by (simp add: recovery_complete_def rename_reads)
  show "uninterrupted (rename_report e) = uninterrupted e"
    by (simp add: uninterrupted_def rename_reads)
qed

lemma rename_processes [rename_reads]:
  "worker_pid (rename_report e) = worker_pid e" "qemu_pid (rename_report e) = qemu_pid e"
  "runtime_pid_observed (rename_report e) = runtime_pid_observed e"
proof -
  show w: "worker_pid (rename_report e) = worker_pid e"
    by (simp add: worker_pid_def pid_of_def rename_reads)
  show p: "qemu_pid (rename_report e) = qemu_pid e"
    by (simp add: qemu_pid_def pid_of_def rename_reads)
  show "runtime_pid_observed (rename_report e) = runtime_pid_observed e"
    by (simp add: runtime_pid_observed_def w p filter_map o_def rename_reads
        split: option.splits list.splits)
qed

lemma rename_progress [rename_reads]:
  "uploaded_roles (rename_report raw) = uploaded_roles raw"
  "observation_of (rename_report raw) = rename_report (observation_of raw)"
  by (simp_all add: uploaded_roles_def role_uploaded_def list_ex_iff observation_of_def rename_reads
      split: option.splits)

lemma rename_recovery_offsets [rename_reads]:
  "recovery_xnu_offset q (rename_report e) = recovery_xnu_offset q e"
  "recovery_userspace_offset q (rename_report e) = recovery_userspace_offset q e"
  by (simp_all add: recovery_xnu_offset_def recovery_userspace_offset_def recovery_markers_def
      rename_reads)

lemma arch_recovery_runtime [rename_reads]:
  "arch_launch_identity q (rename_report e) = launch_identity q e"
  "arch_recovery_runtime q (rename_report e) = recovery_runtime q e"
  "arch_recovery_terminated q (rename_report e) = recovery_terminated q e"
proof -
  show l: "arch_launch_identity q (rename_report e) = launch_identity q e"
    by (simp add: arch_launch_identity_def launch_identity_def Let_def rename_reads)
  show r: "arch_recovery_runtime q (rename_report e) = recovery_runtime q e"
    by (simp add: arch_recovery_runtime_def recovery_runtime_def l rename_reads)
  show "arch_recovery_terminated q (rename_report e) = recovery_terminated q e"
    by (simp add: arch_recovery_terminated_def recovery_terminated_def r rename_reads)
qed

lemma arch_recovery_progress [rename_reads]:
  "arch_recovery_progress_value q (rename_report e) = recovery_progress_value q e"
  by (simp add: arch_recovery_progress_value_def recovery_progress_value_def Let_def rename_reads)

lemma arch_recovery_claims [rename_reads]:
  "arch_handoff_identity q (rename_report e) = handoff_identity q e"
  "arch_recovery_xnu q (rename_report e) = recovery_xnu q e"
  "arch_recovery_userspace q (rename_report e) = recovery_userspace q e"
  "arch_recovery_target q (rename_report e) = recovery_target q e"
proof -
  show "arch_handoff_identity q (rename_report e) = handoff_identity q e"
    by (simp add: arch_handoff_identity_def handoff_identity_def handoff_of_def Let_def rename_reads)
  show x: "arch_recovery_xnu q (rename_report e) = recovery_xnu q e"
    by (simp add: arch_recovery_xnu_def recovery_xnu_def rename_reads)
  show "arch_recovery_userspace q (rename_report e) = recovery_userspace q e"
    by (simp add: arch_recovery_userspace_def recovery_userspace_def x rename_reads)
  show "arch_recovery_target q (rename_report e) = recovery_target q e"
    by (simp add: arch_recovery_target_def recovery_target_def Let_def x rename_reads)
qed

lemma arch_recovery_verdict [rename_reads]:
  "arch_recovery_verified q exit (rename_report e) = recovery_verified q exit e"
  "arch_recovery_failure q exit (rename_report e) err = recovery_failure q exit e err"
proof -
  show v: "arch_recovery_verified q exit (rename_report e) = recovery_verified q exit e"
    by (simp add: arch_recovery_verified_def recovery_verified_def handoff_of_def Let_def rename_reads
        split: option.splits)
  let ?blockers = "\<lambda>e. [json_index e ''error'', json_index (raw_of e) ''error'',
      json_index (raw_of e) ''transition_blocker'',
      json_path (raw_of e) [''golden_gate_installation'', ''blocker'']]"
  have "?blockers (rename_report e) = map rename_report (?blockers e)"
    by (simp add: rename_raw rename_index schema_key_def)
  then have "first_str (?blockers (rename_report e)) fallback = first_str (?blockers e) fallback"
    for fallback
    by (simp only: rename_first_str)
  then show "arch_recovery_failure q exit (rename_report e) err = recovery_failure q exit e err"
    by (simp only: arch_recovery_failure_def recovery_failure_def v arch_recovery_runtime
        rename_supervisor)
qed

abbreviation rename_parsed :: "(json, string) result \<Rightarrow> (json, string) result" where
  "rename_parsed \<equiv> map_sum id rename_report"

lemma rename_parsed_views [rename_reads]:
  "report_or_null (rename_parsed parsed) = rename_report (report_or_null parsed)"
  "report_of (rename_parsed parsed) = map_option rename_report (report_of parsed)"
  "parse_error_of (rename_parsed parsed) = parse_error_of parsed"
  by (cases parsed; simp add: report_of_def parse_error_of_def; fail)+

lemma arch_evaluators:
  "arch_evaluate_native q exit (rename_parsed parsed) =
     (evaluate_native q exit parsed)\<lparr>report := map_option rename_report (report_of parsed)\<rparr>"
  "arch_evaluate_recovery_report q exit (rename_parsed parsed) =
     (evaluate_recovery_report q exit parsed)\<lparr>report := map_option rename_report (report_of parsed)\<rparr>"
  by (simp_all add: arch_evaluate_native_def evaluate_native_def arch_evaluate_recovery_report_def
      evaluate_recovery_report_def Let_def rename_reads)

text \<open>The report a verdict starts a guest on names the schema of its own generation.\<close>

lemma started_schema:
  assumes "guest_runtime_started (evaluate_report q exit parsed)"
  obtains r where "parsed = Inr r" and "as_str (json_index r ''schema'') = Some (backend_schema (run_backend q))"
    and "is_recovery (run_backend q) \<Longrightarrow>
      as_str (json_path r [''launch_report'', ''raw_schema'']) = Some ''26x86.vmapple-gui/1''"
proof -
  obtain r where "parsed = Inr r" using report_verdict.runtime_report [OF assms] by blast
  then show ?thesis using assms that
    by (cases "run_backend q")
      (auto simp: evaluate_report_def evaluate_native_def evaluate_recovery_report_def Let_def
        native_runtime_def native_identity_def recovery_runtime_def launch_identity_def
        recovery_identity_def)
qed

lemma arch_started_schema:
  assumes "guest_runtime_started (arch_evaluate_report q exit parsed)"
  obtains r where "parsed = Inr r"
    and "as_str (json_index r ''schema'') = Some (arch_backend_schema (run_backend q))"
    and "is_recovery (run_backend q) \<Longrightarrow>
      as_str (json_path r [''launch_report'', ''raw_schema'']) = Some ''NextCore.vmapple-gui/1''"
  using assms that
  by (cases parsed; cases "run_backend q")
    (auto simp: arch_evaluate_report_def arch_evaluate_native_def arch_evaluate_recovery_report_def
      Let_def arch_native_runtime_def arch_native_identity_def arch_recovery_runtime_def
      arch_launch_identity_def recovery_identity_def)

lemma archived_verdict:
  "arch_evaluate_report q exit (rename_parsed parsed) =
     (evaluate_report q exit parsed)\<lparr>report := map_option rename_report (report_of parsed)\<rparr>"
  by (simp add: arch_evaluate_report_def evaluate_report_def arch_evaluators)

section \<open>Properties\<close>

text \<open>The two generations of the runner differ in their schema names only. The archived verdict
  on a report with its schema names exchanged is the current verdict on the report itself: the
  same claims, progress, engine and failure message, for every backend, exit code and parse
  result. And no report counts as a started guest under both generations, whichever backends the
  requests name, so a worker of one generation is never believed by the runner of the other.\<close>

theorem archived_verdict_renames:
  "arch_evaluate_report q exit (rename_parsed parsed) =
     (evaluate_report q exit parsed)\<lparr>report := map_option rename_report (report_of parsed)\<rparr> \<and>
   \<not> (guest_runtime_started (evaluate_report q exit parsed) \<and>
      guest_runtime_started (arch_evaluate_report q' exit' parsed))"
proof
  show "arch_evaluate_report q exit (rename_parsed parsed) =
      (evaluate_report q exit parsed)\<lparr>report := map_option rename_report (report_of parsed)\<rparr>"
    by (rule archived_verdict)
  show "\<not> (guest_runtime_started (evaluate_report q exit parsed) \<and>
      guest_runtime_started (arch_evaluate_report q' exit' parsed))"
  proof
    assume "guest_runtime_started (evaluate_report q exit parsed) \<and>
      guest_runtime_started (arch_evaluate_report q' exit' parsed)"
    then show False
      by (elim conjE started_schema arch_started_schema)
        (cases "run_backend q"; cases "run_backend q'"; auto)
  qed
qed

theorem archived_verdict_renames_witness:
  "macos_boot_verified
     (arch_evaluate_report sample_recovery_request (Some 0) (Inr (rename_report sample_receipt))) \<and>
   \<not> guest_runtime_started
     (arch_evaluate_report sample_recovery_request (Some 0) (Inr sample_receipt))"
  using archived_verdict_renames [of sample_recovery_request "Some 0" "Inr sample_receipt"
      sample_recovery_request "Some 0"]
    sample_receipt_verified report_verdict.verified_flags [OF sample_receipt_verified]
  by simp

end
