(* ===== verification/Archive_Run.thy ===== *)
theory Archive_Run
  imports Runner_Archive Runner_Run
begin

text \<open>
  The run of the archived runner. Its text is that of \<open>run\<close> in \<open>src/runner.rs\<close>; the two differ
  through \<open>evaluate_report\<close>, so the part of a run from the verdict on is defined again, and the
  checks, receipts, process and file handling are those of Runner_Request and Runner_Run. The
  theorem lifts the agreement of the verdicts to complete runs with all their effects.
\<close>

section \<open>The archived run\<close>

definition arch_conclude ::
    "run_io \<Rightarrow> runner_request \<Rightarrow> u32 \<Rightarrow> int option \<Rightarrow> run_outcome traced" where
  "arch_conclude w q pid status =
     (let dir = host_receipt_dir q; limit = report_limit q in
      bindT (effect (ReadReport dir ''worker.stdout.json'')
        (read_report w dir ''worker.stdout.json'' limit)) (\<lambda>(bs, hash).
      let outcome = (arch_evaluate_report q status (parse_report w limit bs))
        \<lparr>runner_pid := pid, elapsed_seconds := io_elapsed w, stdout_sha256 := hash\<rparr> in
      bindT (write_new_json w dir ''adapter.json'' (POutcome outcome)) (\<lambda>_.
      pure (Ok outcome))))"

definition arch_run :: "target \<Rightarrow> run_io \<Rightarrow> runner_request \<Rightarrow> run_outcome traced" where
  "arch_run t w q =
     bindT (prepare t w q) (\<lambda>iv.
     bindT (supervise w q iv) (\<lambda>(pid, status).
     arch_conclude w q pid status))"

section \<open>The host of the other generation\<close>

text \<open>The same files and processes, with the worker's report and the recorded outcome in the schema
  names of the other generation.\<close>

definition rename_outcome :: "run_outcome \<Rightarrow> run_outcome" where
  "rename_outcome o' = o'\<lparr>report := map_option rename_report (report o')\<rparr>"

fun rename_payload :: "payload_json \<Rightarrow> payload_json" where
  "rename_payload (POutcome o') = POutcome (rename_outcome o')"
| "rename_payload v = v"

fun rename_event :: "event \<Rightarrow> event" where
  "rename_event (WriteJson dir name v) = WriteJson dir name (rename_payload v)"
| "rename_event ev = ev"

definition rename_host :: "run_io \<Rightarrow> run_io" where
  "rename_host w = w
     \<lparr>io_parse_json := \<lambda>bs. rename_parsed (io_parse_json w bs),
      io_write_json := \<lambda>dir name v. io_write_json w dir name (rename_payload v)\<rparr>"

lemma rename_host_sel [simp]:
  "io_create_dir (rename_host w) = io_create_dir w" "io_create_new (rename_host w) = io_create_new w"
  "io_write_newline (rename_host w) = io_write_newline w" "io_spawn (rename_host w) = io_spawn w"
  "io_write_pid (rename_host w) = io_write_pid w" "io_wait (rename_host w) = io_wait w"
  "io_open_report (rename_host w) = io_open_report w" "io_sha256 (rename_host w) = io_sha256 w"
  "io_elapsed (rename_host w) = io_elapsed w"
  "io_write_json (rename_host w) dir name v = io_write_json w dir name (rename_payload v)"
  "io_parse_json (rename_host w) bs = rename_parsed (io_parse_json w bs)"
  by (simp_all add: rename_host_def)

lemma rename_rename [simp]: "rename b (rename b v) = v"
proof (induction b v rule: rename.induct)
  case (2 b xs)
  then show ?case by (simp add: map_idI)
next
  case (3 b kvs)
  then show ?case by (auto intro!: map_idI simp: case_prod_unfold)
qed simp_all

lemma rename_outcome_involution [simp]: "rename_outcome (rename_outcome o') = o'"
  by (cases "report o'") (simp_all add: rename_outcome_def)

lemma rename_payload_involution [simp]: "rename_payload (rename_payload v) = v"
  by (cases v) simp_all

text \<open>A phase under the renamed host, given the phase under the host itself.\<close>

definition renamed :: "('a \<Rightarrow> 'a) \<Rightarrow> 'a traced \<Rightarrow> 'a traced" where
  "renamed f m = (map_sum id f (fst m), map rename_event (snd m))"

lemma renamed_bindT: "renamed f (bindT m k) = bindT (renamed id m) (\<lambda>x. renamed f (k x))"
  by (cases m; cases "fst m") (auto simp: renamed_def)

lemma renamed_effect:
  "renamed f (effect ev r) = effect (rename_event ev) (map_sum id f r)"
  "renamed f (pure r) = pure (map_sum id f r)"
  by (simp_all add: effect_def pure_def renamed_def)

lemma renamed_write:
  "renamed id (write_new_json w dir name v) = write_new_json (rename_host w) dir name (rename_payload v)"
  by (simp add: write_new_json_def renamed_bindT renamed_effect map_sum.id)

lemmas renamed_phase = renamed_bindT renamed_effect renamed_write map_sum.id Let_def

lemma renamed_prepare: "renamed id (prepare t w q) = prepare t (rename_host w) q"
  by (simp add: prepare_def renamed_phase)

lemma renamed_supervise: "renamed id (supervise w q iv) = supervise (rename_host w) q iv"
  by (simp add: supervise_def renamed_phase split: sum.splits)

lemma renamed_verdict:
  "arch_evaluate_report q status (parse_report (rename_host w) limit bs) =
     rename_outcome (evaluate_report q status (parse_report w limit bs))"
proof -
  have "parse_report (rename_host w) limit bs = rename_parsed (parse_report w limit bs)"
    by (simp add: parse_report_def split: sum.splits)
      (cases "io_parse_json w bs"; simp)
  moreover have "report (evaluate_report q status p) = report_of p" for p
    by (simp add: evaluate_report_def evaluate_native_def evaluate_recovery_report_def Let_def)
  ultimately show ?thesis
    using archived_verdict by (simp add: rename_outcome_def)
qed

lemma renamed_conclude: "renamed rename_outcome (conclude w q pid status) = arch_conclude (rename_host w) q pid status"
proof -
  have same: "read_report (rename_host w) = read_report w"
    by (simp add: read_report_def fun_eq_iff)
  have stamp: "rename_outcome (o'\<lparr>runner_pid := p, elapsed_seconds := s, stdout_sha256 := h\<rparr>) =
      (rename_outcome o')\<lparr>runner_pid := p, elapsed_seconds := s, stdout_sha256 := h\<rparr>" for o' p s h
    by (simp add: rename_outcome_def)
  show ?thesis
    by (simp add: arch_conclude_def conclude_def same renamed_verdict renamed_phase stamp
        case_prod_unfold)
qed

text \<open>C31: The two generations run alike. Under a host that differs only in the schema names of the
  worker's report and of the recorded outcome, the archived run has the effects of the current run
  in the same order, reaps the worker exactly when the current run does, and returns the same error
  or the same outcome up to these schema names; so every property of \<open>run\<close> carries over.\<close>

theorem archived_run_renames:
  "arch_run t (rename_host w) q =
     (map_sum id rename_outcome (fst (run t w q)), map rename_event (snd (run t w q)))"
proof -
  have "renamed rename_outcome (run t w q) = arch_run t (rename_host w) q"
    by (simp add: arch_run_def run_def renamed_bindT renamed_prepare renamed_supervise
        renamed_conclude case_prod_unfold)
  then show ?thesis by (simp add: renamed_def)
qed

end
