(* ===== verification/Run_Host.thy ===== *)
theory Run_Host
  imports Runner_Run Runner_Samples
begin

text \<open>
  The command-line program \<open>src/examples/run_host.rs\<close>: it takes one argument, reads a request
  from that file, runs it and turns the outcome into an exit code. Reading the file, parsing and
  rendering JSON and the texts of errors are parameters. The observable behaviour is the exit code
  and the sequence of effects, the events of the run among them.
\<close>

section \<open>The program\<close>

record host_env =
  env_read :: "path \<Rightarrow> (bytes, string) result"
  env_parse_request :: "bytes \<Rightarrow> (runner_request, string) result"
  env_render :: "run_outcome \<Rightarrow> (string, string) result"
  env_error_text :: "runner_error \<Rightarrow> string"

datatype host_event =
    ReadRequest path
  | RunEvent event
  | PrintOut string
  | PrintErr string

definition USAGE :: string where "USAGE = ''usage: run_host REQUEST.json''"

text \<open>The closure: the result and the effects up to it.\<close>

definition host_body ::
    "target \<Rightarrow> run_io \<Rightarrow> host_env \<Rightarrow> path list \<Rightarrow> (bool, string) result \<times> host_event list" where
  "host_body t w E args =
     (case args of
        [] \<Rightarrow> (Err USAGE, [])
      | path # rest \<Rightarrow>
         (if rest \<noteq> [] then (Err USAGE, [])
          else (case env_read E path of
            Inl e \<Rightarrow> (Err e, [ReadRequest path])
          | Inr bs \<Rightarrow> (case env_parse_request E bs of
              Inl e \<Rightarrow> (Err e, [ReadRequest path])
            | Inr q \<Rightarrow>
               (let (r, evs) = run t w q; effects = ReadRequest path # map RunEvent evs in
                case r of
                  Inl e \<Rightarrow> (Err (env_error_text E e), effects)
                | Inr out \<Rightarrow> (case env_render E out of
                    Inl e \<Rightarrow> (Err e, effects)
                  | Inr shown \<Rightarrow> (Ok (macos_boot_verified out), effects @ [PrintOut shown])))))))"

definition host_main ::
    "target \<Rightarrow> run_io \<Rightarrow> host_env \<Rightarrow> path list \<Rightarrow> int \<times> host_event list" where
  "host_main t w E args =
     (case host_body t w E args of
        (Inr True, evs) \<Rightarrow> (0, evs)
      | (Inr False, evs) \<Rightarrow> (2, evs)
      | (Inl error, evs) \<Rightarrow> (2, evs @ [PrintErr error]))"

section \<open>Lemmas\<close>

lemma fst_host_main: "fst (host_main t w E args) = (if fst (host_body t w E args) = Inr True then 0 else 2)"
  by (auto simp: host_main_def split: sum.splits prod.splits bool.splits)

lemma host_body_Inr:
  assumes "fst (host_body t w E args) = Inr v"
  obtains path bs q out shown where "args = [path]" and "env_read E path = Inr bs"
    and "env_parse_request E bs = Inr q" and "fst (run t w q) = Inr out"
    and "env_render E out = Inr shown" and "v = macos_boot_verified out"
    and "snd (host_body t w E args) =
      ReadRequest path # map RunEvent (snd (run t w q)) @ [PrintOut shown]"
  using assms that
  by (cases args) (auto simp: host_body_def Let_def split: sum.splits prod.splits if_splits)

lemma verified_output:
  assumes "fst (run t w q) = Inr out" and "macos_boot_verified out"
  obtains iv pid reads c r where "invocation_of t q = Inr iv" and "io_spawn w iv = Inr pid"
    and "io_wait w pid = Inr (Some 0)"
    and "io_open_report w (host_receipt_dir q) ''worker.stdout.json'' = Inr reads"
    and "file_content reads = Inr c" and "length c \<le> report_limit q" and "io_parse_json w c = Inr r"
    and "macos_boot_verified (evaluate_report q (Some 0) (Inr r))"
    and "out = (evaluate_report q (Some 0) (Inr r))\<lparr>runner_pid := pid,
      elapsed_seconds := io_elapsed w, stdout_sha256 := concat (map hex_byte (io_sha256 w c))\<rparr>"
proof (rule fst_run_Inr [OF assms(1)], goal_cases)
  case (1 iv pid status reads c)
  then have v: "length c \<le> report_limit q"
      "macos_boot_verified (evaluate_report q status (map_err invalid_json (io_parse_json w c)))"
    using assms(2) verdict_on_output [of q status w c] by simp_all
  obtain r where r: "io_parse_json w c = Inr r"
    using report_verdict.verified_report [OF v(2)] by (cases "io_parse_json w c") auto
  moreover have "status = Some 0" using report_verdict.verified_flags [OF v(2)] by blast
  ultimately show ?case using 1 v by (intro that) (simp_all add: parse_report_def)
qed

text \<open>The events of a run that returned, with the worker's first.\<close>

lemma run_events:
  assumes "fst (run t w q) = Inr out" and "invocation_of t q = Inr iv" and "io_spawn w iv = Inr pid"
  shows "snd (run t w q) = preparation (host_receipt_dir q) q iv @
    [Spawn iv, WritePid (host_receipt_dir q) pid, Wait pid,
     ReadReport (host_receipt_dir q) ''worker.stdout.json'',
     CreateNew (host_receipt_dir q) ''adapter.json'',
     WriteJson (host_receipt_dir q) ''adapter.json'' (POutcome out),
     WriteNewline (host_receipt_dir q) ''adapter.json'']"
  by (rule fst_run_Inr [OF assms(1)]) (use assms(2,3) in simp)

lemma host_main_zero:
  assumes "host_main t w E args = (0, evs)"
  obtains path bs q out shown where "args = [path]" and "env_read E path = Inr bs"
    and "env_parse_request E bs = Inr q" and "fst (run t w q) = Inr out" and "macos_boot_verified out"
    and "env_render E out = Inr shown"
    and "evs = ReadRequest path # map RunEvent (snd (run t w q)) @ [PrintOut shown]"
proof -
  have b: "fst (host_body t w E args) = Inr True" and evs: "evs = snd (host_body t w E args)"
    using assms by (auto simp: host_main_def split: prod.splits sum.splits bool.splits)
  show ?thesis by (rule host_body_Inr [OF b], rule that) (use evs in simp_all)
qed

text \<open>A host whose worker prints one byte that parses to a verified report.\<close>

definition verified_io :: run_io where
  "verified_io = sample_io
     \<lparr>io_write_pid := (\<lambda>_ _. Ok ()), io_parse_json := (\<lambda>_. Ok sample_report)\<rparr>"

definition sample_env :: host_env where
  "sample_env =
     \<lparr>env_read = (\<lambda>_. Ok [123, 125]), env_parse_request = (\<lambda>_. Ok sample_request),
      env_render = (\<lambda>_. Ok ''{}''), env_error_text = (\<lambda>_. ''runner'')\<rparr>"

lemma sample_run_verified:
  "\<exists>out. fst (run linux_target verified_io sample_request) = Inr out \<and> macos_boot_verified out"
proof -
  obtain iv where iv: "invocation_of linux_target sample_request = Inr iv"
    using sample_invocation by blast
  have "fst (prepare linux_target verified_io sample_request) = Inr iv"
    by (simp add: verified_io_def prepare_def write_new_json_def effect_def pure_def sample_io_def
        iv Let_def)
  moreover have "fst (supervise verified_io sample_request iv) = Inr (4242, Some 0)"
    by (simp add: fst_supervise_Inr_iff verified_io_def sample_io_def)
  moreover have "\<exists>out. fst (conclude verified_io sample_request 4242 (Some 0)) = Inr out \<and>
      macos_boot_verified out"
    using sample_report_verified
    by (simp add: conclude_def write_new_json_def effect_def pure_def read_report_eq verified_io_def
        sample_io_def parse_report_def report_limit_def MAX_REPORT_BYTES_def
        MAX_RECOVERY_REPORT_BYTES_def Let_def)
  ultimately show ?thesis by (auto simp: run_def bindT_eq)
qed

section \<open>Property\<close>

lemma host_main_code:
  "fst (host_main t w E args) =
     (if \<exists>path bs q out shown. args = [path] \<and> env_read E path = Inr bs \<and>
         env_parse_request E bs = Inr q \<and> fst (run t w q) = Inr out \<and> env_render E out = Inr shown \<and>
         macos_boot_verified out
      then 0 else 2)"
proof -
  have "fst (host_body t w E args) = Inr True \<longleftrightarrow>
      (\<exists>path bs q out shown. args = [path] \<and> env_read E path = Inr bs \<and>
         env_parse_request E bs = Inr q \<and> fst (run t w q) = Inr out \<and> env_render E out = Inr shown \<and>
         macos_boot_verified out)"
    by (auto simp: host_body_def Let_def split: list.splits sum.splits prod.splits)
  then show ?thesis by (simp add: fst_host_main)
qed

text \<open>C12: The exit code of the program is a boot verdict. It is 0 or 2, and it is 0 exactly when the
  one argument names a readable request whose run returns a verified outcome that can be rendered.
  Exit code 0 means that the request passed every check, its worker was started once, reaped and
  exited with 0, what the worker printed was within the limit and parsed to a report whose evidence
  is verified for this request, and the outcome on this very report was written to the adapter
  receipt and its rendering printed last.\<close>

theorem run_host_exit:
  assumes "host_main t w E args = (code, evs)"
  shows "code \<in> {0, 2} \<and>
    (code = 0 \<longleftrightarrow> (\<exists>path bs q out shown. args = [path] \<and> env_read E path = Inr bs \<and>
       env_parse_request E bs = Inr q \<and> fst (run t w q) = Inr out \<and> env_render E out = Inr shown \<and>
       macos_boot_verified out)) \<and>
    (code = 0 \<longrightarrow> (\<exists>path bs q iv pid reads c r out shown. args = [path] \<and>
       env_read E path = Inr bs \<and> env_parse_request E bs = Inr q \<and> invocation_of t q = Inr iv \<and>
       io_spawn w iv = Inr pid \<and> io_wait w pid = Inr (Some 0) \<and>
       io_open_report w (host_receipt_dir q) ''worker.stdout.json'' = Inr reads \<and>
       file_content reads = Inr c \<and> length c \<le> report_limit q \<and> io_parse_json w c = Inr r \<and>
       macos_boot_verified (evaluate_report q (Some 0) (Inr r)) \<and>
       out = (evaluate_report q (Some 0) (Inr r))\<lparr>runner_pid := pid,
         elapsed_seconds := io_elapsed w, stdout_sha256 := concat (map hex_byte (io_sha256 w c))\<rparr> \<and>
       env_render E out = Inr shown \<and>
       evs = ReadRequest path # map RunEvent (preparation (host_receipt_dir q) q iv @
         [Spawn iv, WritePid (host_receipt_dir q) pid, Wait pid,
          ReadReport (host_receipt_dir q) ''worker.stdout.json'',
          CreateNew (host_receipt_dir q) ''adapter.json'',
          WriteJson (host_receipt_dir q) ''adapter.json'' (POutcome out),
          WriteNewline (host_receipt_dir q) ''adapter.json'']) @ [PrintOut shown]))"
proof (cases "code = 0")
  case False
  then show ?thesis using assms host_main_code [of t w E args] by (simp split: if_splits)
next
  case True
  obtain path bs q out shown where b: "args = [path]" "env_read E path = Inr bs"
      "env_parse_request E bs = Inr q" "fst (run t w q) = Inr out" "macos_boot_verified out"
      "env_render E out = Inr shown"
    and evs: "evs = ReadRequest path # map RunEvent (snd (run t w q)) @ [PrintOut shown]"
    by (rule host_main_zero [OF assms [unfolded True]])
  obtain iv pid reads c r where v: "invocation_of t q = Inr iv" "io_spawn w iv = Inr pid"
      "io_wait w pid = Inr (Some 0)"
      "io_open_report w (host_receipt_dir q) ''worker.stdout.json'' = Inr reads"
      "file_content reads = Inr c" "length c \<le> report_limit q" "io_parse_json w c = Inr r"
      "macos_boot_verified (evaluate_report q (Some 0) (Inr r))"
      "out = (evaluate_report q (Some 0) (Inr r))\<lparr>runner_pid := pid,
         elapsed_seconds := io_elapsed w, stdout_sha256 := concat (map hex_byte (io_sha256 w c))\<rparr>"
    by (rule verified_output [OF b(4,5)])
  note ev = evs [unfolded run_events [OF b(4) v(1,2)]]
  have "code \<in> {0, 2}" using True by simp
  then show ?thesis using True b by (intro conjI impI iffI exI) (assumption | rule b v ev)+
qed

lemma run_host_exit_witness:
  "\<exists>evs. host_main linux_target verified_io sample_env [''/request.json''] = (0, evs) \<and>
     io_wait verified_io 4242 = Inr (Some 0) \<and>
     macos_boot_verified (evaluate_report sample_request (Some 0) (Inr sample_report))"
proof -
  obtain out where out: "fst (run linux_target verified_io sample_request) = Inr out"
      "macos_boot_verified out"
    using sample_run_verified by blast
  then have "fst (host_body linux_target verified_io sample_env [''/request.json'']) = Inr True"
    by (auto simp: host_body_def sample_env_def Let_def split: prod.splits sum.splits)
  then obtain evs where m: "host_main linux_target verified_io sample_env [''/request.json''] = (0, evs)"
    using fst_host_main [of linux_target verified_io sample_env "[''/request.json'']"]
    by (cases "host_main linux_target verified_io sample_env [''/request.json'']") simp
  from run_host_exit [OF m] have "io_wait verified_io 4242 = Inr (Some 0) \<and>
      macos_boot_verified (evaluate_report sample_request (Some 0) (Inr sample_report))"
    by (auto simp: verified_io_def sample_io_def sample_env_def)
  with m show ?thesis by blast
qed

end
