(* ===== verification/Frame_Tests.thy ===== *)
theory Frame_Tests
  imports Sgpu_Frame
begin

text \<open>
  The unit tests of \<open>src/vf_abi.rs\<close> and those of \<open>src/sgpu.rs\<close> on frames, read as propositions
  about the model: one boolean definition per test function, with the same inputs and assertions,
  and the proof that it holds. They follow from the exact sets of accepted headers and messages.
\<close>

section \<open>The envelope\<close>

abbreviation is_ok :: "('a, 'e) result \<Rightarrow> bool" where
  "is_ok r \<equiv> \<not> isl r"

definition header_roundtrip :: bool where
  "header_roundtrip \<longleftrightarrow>
     (let h = (header_new VF_FAMILY_SGPU VF_SGPU_SUBMIT_COMMAND_LIST)
        \<lparr>request_id := 0x1234, payload_bytes := 16\<rparr>
      in header_decode (header_encode h) = Inr h)"

definition decode_rejects_wrong_size :: bool where
  "decode_rejects_wrong_size \<longleftrightarrow>
     isl (header_decode (replicate 63 0)) \<and> isl (header_decode (replicate 65 0))"

definition shape_rejects_bad_magic :: bool where
  "shape_rejects_bad_magic \<longleftrightarrow>
     (\<exists>m. validate_shape ((header_new VF_FAMILY_ROOT VF_OP_GRANT_CREATE)\<lparr>magic := 0\<rparr>) = Inl (Vf_Eabi m))"

definition shape_rejects_bad_family :: bool where
  "shape_rejects_bad_family \<longleftrightarrow>
     isl (validate_shape ((header_new VF_FAMILY_ROOT VF_OP_GRANT_CREATE)\<lparr>family := 0xF00D\<rparr>))"

definition payload_bounds_checked :: bool where
  "payload_bounds_checked \<longleftrightarrow>
     (let h = (header_new VF_FAMILY_SGPU VF_SGPU_CREATE_RESOURCE)
        \<lparr>message_bytes := 128, payload_offset := 0, payload_bytes := 16\<rparr>
      in payload_end h = Inr 16 \<and>
         isl (payload_end (h\<lparr>payload_offset := 64\<rparr>)) \<and>
         isl (validate_shape (h\<lparr>payload_offset := 0, payload_bytes := VF_PAYLOAD_MAX + 1\<rparr>)))"

definition encode_uses_little_endian :: bool where
  "encode_uses_little_endian \<longleftrightarrow>
     (let bytes = header_encode ((header_new VF_FAMILY_SGPU VF_SGPU_QUERY_CAPS)
        \<lparr>request_id := 1, object := 2\<rparr>)
      in of_le_bytes (slice bytes 0 4) = VF_MSG_MAGIC \<and>
         of_le_bytes (slice bytes 12 14) = VF_FAMILY_SGPU \<and>
         of_le_bytes (slice bytes 16 24) = (1 :: u64) \<and> of_le_bytes (slice bytes 24 32) = (2 :: u64))"

lemma header_roundtrip_holds: header_roundtrip
  by (simp add: header_roundtrip_def)

lemma decode_rejects_wrong_size_holds: decode_rejects_wrong_size
  by (simp add: decode_rejects_wrong_size_def header_decode_def)

lemma shape_rejects_bad_magic_holds: shape_rejects_bad_magic
  by (simp add: shape_rejects_bad_magic_def validate_shape_def)

lemma shape_rejects_bad_family_holds: shape_rejects_bad_family
  by (simp add: shape_rejects_bad_family_def validate_shape_def header_new_def header_default_def)

lemma payload_bounds_checked_holds: payload_bounds_checked
  by (simp add: payload_bounds_checked_def payload_end_eq validate_shape_def header_new_def
      header_default_def)

lemma encode_uses_little_endian_holds: encode_uses_little_endian
  by (simp add: encode_uses_little_endian_def header_encode_concat slice_def of_le_bytes_le_bytes
      header_new_def header_default_def)

section \<open>Inline frames\<close>

text \<open>The helper \<open>request\<close> of the tests.\<close>

definition request_frame :: "u16 \<Rightarrow> bytes \<Rightarrow> sgpu_frame" where
  "request_frame op p =
     (let h = header_new VF_FAMILY_SGPU op;
          h = h\<lparr>payload_bytes := word_of_nat (length p)\<rparr>;
          h = h\<lparr>message_bytes := VF_MSG_BYTES + payload_bytes h\<rparr>
      in \<lparr>header = h, payload = p\<rparr>)"

definition padded_request :: sgpu_frame where
  "padded_request =
     (let f = request_frame VF_SGPU_CREATE_RESOURCE (le_bytes 8 (256 :: u64))
      in f\<lparr>header := (header f)
        \<lparr>payload_offset := 3, message_bytes := message_bytes (header f) + 8,
         request_id := 0xfedcba9876543210, object := 0x1234567800000001,
         payload_grant := 0x8877665544332211, flags := 0x10203040,
         reserved0 := 0x0102030405060708\<rparr>\<rparr>)"

definition frame_roundtrip_with_padding :: "target \<Rightarrow> bool" where
  "frame_roundtrip_with_padding t \<longleftrightarrow>
     (case try_to_wire t padded_request of
        Inl _ \<Rightarrow> False
      | Inr wire \<Rightarrow>
          length wire = 80 \<and> slice wire 64 67 = replicate 3 0 \<and>
          slice wire 75 (length wire) = replicate 5 0 \<and>
          (case from_wire t wire of
             Inl _ \<Rightarrow> False
           | Inr decoded \<Rightarrow>
               header_encode (header decoded) = header_encode (header padded_request) \<and>
               payload decoded = payload padded_request \<and> to_wire t decoded = Returned wire))"

definition frame_rejects_other_lengths :: "target \<Rightarrow> bool" where
  "frame_rejects_other_lengths t \<longleftrightarrow>
     (case try_to_wire t (request_frame VF_SGPU_CREATE_RESOURCE (le_bytes 8 (8 :: u64))) of
        Inl _ \<Rightarrow> False
      | Inr wire \<Rightarrow>
          list_all (\<lambda>n. isl (from_wire t (take n wire))) [0..<length wire] \<and>
          isl (from_wire t (wire @ [0])) \<and>
          list_all (\<lambda>declared. isl (from_wire t (copy_at 8 (le_bytes 4 declared) wire)))
            [64 :: u32, 71, 73, 0xFFFFFFFF]) \<and>
     isl (from_wire t (header_encode ((header_new VF_FAMILY_SGPU VF_SGPU_QUERY_CAPS)
       \<lparr>message_bytes := 72, payload_bytes := 8\<rparr>)))"

definition frame_checks_limits :: "target \<Rightarrow> bool" where
  "frame_checks_limits t \<longleftrightarrow>
     (let valid = request_frame VF_SGPU_CREATE_RESOURCE (le_bytes 8 (8 :: u64));
          changed = (\<lambda>f. valid\<lparr>header := f (header valid)\<rparr>)
      in list_all (\<lambda>off. let bad = changed (\<lambda>h. h\<lparr>payload_offset := off\<rparr>) in
             isl (try_to_wire t bad) \<and> isl (from_wire t (header_encode (header bad))))
           [0xFFFFFFFFFFFFFFFF, 0xFFFFFFFFFFFFFFFC, push_bit 32 1] \<and>
         isl (try_to_wire t (changed (\<lambda>h. h\<lparr>message_bytes := VF_MSG_BYTES + VF_PAYLOAD_MAX + 1\<rparr>))) \<and>
         isl (try_to_wire t (changed (\<lambda>h. h\<lparr>payload_bytes := VF_PAYLOAD_MAX + 1\<rparr>))) \<and>
         isl (try_to_wire t (valid\<lparr>payload := payload valid @ [0]\<rparr>)) \<and>
         isl (try_to_wire t (changed (\<lambda>h. h\<lparr>magic := 0\<rparr>))) \<and>
         isl (try_to_wire t (changed (\<lambda>h. h\<lparr>family := VF_FAMILY_ROOT\<rparr>))))"

lemma request_frame_simps [simp]:
  "payload (request_frame op p) = p"
  "header (request_frame op p) = (header_new VF_FAMILY_SGPU op)
     \<lparr>payload_bytes := word_of_nat (length p), message_bytes := 64 + word_of_nat (length p)\<rparr>"
  by (simp_all add: request_frame_def Let_def)

lemmas new_header = header_new_def header_default_def

lemma request_frame_valid: "length p \<le> 8 \<Longrightarrow> valid_frame (request_frame op p)"
  by (simp add: valid_frame_def inline_header_def new_header unat_of_nat unat_word_ariths)

text \<open>A message or a frame that is not valid is refused.\<close>

lemma not_to_wire: "supported_target t \<Longrightarrow> \<not> valid_frame f \<Longrightarrow> isl (try_to_wire t f)"
  by (cases "try_to_wire t f") (simp_all add: try_to_wire_Inr_iff)

lemma not_from_wire:
  assumes t: "supported_target t" and "\<And>f. from_wire t bs = Inr f \<Longrightarrow> False"
  shows "isl (from_wire t bs)"
  using assms(2) by (cases "from_wire t bs") simp_all

lemma header_from_wire:
  assumes "supported_target t" and "from_wire t (header_encode h @ rest) = Inr f"
  shows "header f = h" and "inline_header h" and "unat (message_bytes h) = 64 + length rest"
proof -
  obtain pre post where f: "valid_frame f" "pad_lengths f pre post"
      "header_encode h @ rest = padded_wire f pre post"
    using assms by (auto simp: from_wire_Inr_iff)
  then have "header_encode h = header_encode (header f)" by (simp add: padded_wire_def)
  then show "header f = h" by (simp add: header_encode_inject)
  then show "inline_header h" using f(1) by (simp add: valid_frame_def)
  show "unat (message_bytes h) = 64 + length rest"
    using length_padded_wire [OF f(2)] \<open>header f = h\<close> by (simp flip: f(3))
qed

lemma frame_roundtrip_with_padding_holds:
  assumes t: "supported_target t" and r: "\<forall>n. reserve_ok t n"
  shows "frame_roundtrip_with_padding t"
proof -
  let ?f = padded_request
  have valid: "valid_frame ?f"
    by (simp add: padded_request_def Let_def valid_frame_def inline_header_def new_header)
  let ?wire = "padded_wire ?f (replicate 3 0) (replicate 5 0)"
  have pads: "zero_pads ?f = (replicate 3 0, replicate 5 0)"
    by (simp add: zero_pads_def padded_request_def Let_def new_header)
  then have wire: "try_to_wire t ?f = Inr ?wire"
    using valid r by (simp add: try_to_wire_Inr_iff [OF t])
  have "pad_lengths ?f (replicate 3 0) (replicate 5 0)"
    using pad_lengths_zero_pads [OF valid] by (simp add: pads)
  then have again: "from_wire t ?wire = Inr ?f"
    using from_wire_padded [OF t valid] r by simp
  have "length ?wire = 80" "slice ?wire 64 67 = replicate 3 0" "slice ?wire 75 80 = replicate 5 0"
    by (simp_all add: padded_wire_def slice_def padded_request_def Let_def)
  then show ?thesis
    using wire again
    by (simp add: frame_roundtrip_with_padding_def to_wire_def)
qed

lemma declared_length:
  assumes "length rest = 8"
  shows "copy_at 8 (le_bytes 4 n) (header_encode h @ rest) = header_encode (h\<lparr>message_bytes := n\<rparr>) @ rest"
  using assms by (simp add: copy_at_def header_encode_concat)

lemma frame_rejects_other_lengths_holds:
  assumes t: "supported_target t" and r: "\<forall>n. reserve_ok t n"
  shows "frame_rejects_other_lengths t"
proof -
  let ?f = "request_frame VF_SGPU_CREATE_RESOURCE (le_bytes 8 (8 :: u64))"
  let ?wire = "header_encode (header ?f) @ le_bytes 8 (8 :: u64)"
  have valid: "valid_frame ?f" by (rule request_frame_valid) simp
  have wire: "try_to_wire t ?f = Inr ?wire"
    using r valid by (simp add: try_to_wire_Inr_iff [OF t] padded_wire_def zero_pads_def new_header)
  have "pad_lengths ?f [] []" by (simp add: pad_lengths_def new_header)
  then have again: "from_wire t ?wire = Inr ?f"
    using from_wire_padded [OF t valid] r by (fastforce simp: padded_wire_def)
  note exact = from_wire_exact_length [OF t again]
  have "isl (from_wire t (take n ?wire))" if "n < length ?wire" for n
    using exact that by fastforce
  moreover have "isl (from_wire t (?wire @ [0]))"
    using exact by simp
  moreover have "isl (from_wire t (copy_at 8 (le_bytes 4 n) ?wire))" if "n \<in> {64, 71, 73, 0xFFFFFFFF}" for n :: u32
  proof (rule not_from_wire [OF t])
    fix g assume "from_wire t (copy_at 8 (le_bytes 4 n) ?wire) = Inr g"
    then have "unat n = 64 + 8"
      using header_from_wire(3) [OF t, of "(header ?f)\<lparr>message_bytes := n\<rparr>"] by (fastforce simp: declared_length)
    then show False using that by auto
  qed
  moreover have "isl (from_wire t (header_encode ((header_new VF_FAMILY_SGPU VF_SGPU_QUERY_CAPS)
       \<lparr>message_bytes := 72, payload_bytes := 8\<rparr>)))"
  proof (rule not_from_wire [OF t])
    fix g assume "from_wire t (header_encode ((header_new VF_FAMILY_SGPU VF_SGPU_QUERY_CAPS)
       \<lparr>message_bytes := 72, payload_bytes := 8\<rparr>)) = Inr g"
    then show False using header_from_wire(3) [OF t, where rest = "[]"] by fastforce
  qed
  ultimately show ?thesis
    unfolding frame_rejects_other_lengths_def wire by (simp add: list_all_iff)
qed

lemma frame_checks_limits_holds:
  assumes t: "supported_target t"
  shows "frame_checks_limits t"
proof -
  have off: "isl (from_wire t (header_encode h))" if "unat (payload_offset h) + unat (payload_bytes h) > 0" for h
  proof (rule not_from_wire [OF t])
    fix g assume "from_wire t (header_encode h) = Inr g"
    then have "inline_header h" "unat (message_bytes h) = 64"
      using header_from_wire(2,3) [OF t, where rest = "[]"] by fastforce+
    then show False using that by (simp add: inline_header_def)
  qed
  let ?valid = "request_frame VF_SGPU_CREATE_RESOURCE (le_bytes 8 (8 :: u64))"
  have "isl (try_to_wire t (?valid\<lparr>header := (header ?valid)\<lparr>payload_offset := w\<rparr>\<rparr>))"
      "isl (from_wire t (header_encode ((header ?valid)\<lparr>payload_offset := w\<rparr>)))"
    if "w \<in> {0xFFFFFFFFFFFFFFFF, 0xFFFFFFFFFFFFFFFC, push_bit 32 1}" for w :: u64
  proof -
    have "8 < unat w" using that by auto
    then show "isl (try_to_wire t (?valid\<lparr>header := (header ?valid)\<lparr>payload_offset := w\<rparr>\<rparr>))"
      by (intro not_to_wire [OF t]) (simp add: valid_frame_def inline_header_def new_header)
    show "isl (from_wire t (header_encode ((header ?valid)\<lparr>payload_offset := w\<rparr>)))"
      by (rule off) simp
  qed
  moreover have "isl (try_to_wire t f)" if "f \<in> {?valid\<lparr>header := (header ?valid)\<lparr>message_bytes := VF_MSG_BYTES + VF_PAYLOAD_MAX + 1\<rparr>\<rparr>,
      ?valid\<lparr>header := (header ?valid)\<lparr>payload_bytes := VF_PAYLOAD_MAX + 1\<rparr>\<rparr>,
      ?valid\<lparr>payload := payload ?valid @ [0]\<rparr>, ?valid\<lparr>header := (header ?valid)\<lparr>magic := 0\<rparr>\<rparr>,
      ?valid\<lparr>header := (header ?valid)\<lparr>family := VF_FAMILY_ROOT\<rparr>\<rparr>}" for f
    using that by (intro not_to_wire [OF t]) (auto simp: valid_frame_def inline_header_def new_header)
  ultimately show ?thesis
    by (simp add: frame_checks_limits_def Let_def)
qed

end
