(* ===== verification/Session_Tests.thy ===== *)
theory Session_Tests
  imports Frame_Tests Sgpu_Trace
begin

text \<open>
  The unit tests of \<open>src/sgpu.rs\<close> on the session, read as propositions about the model for any
  device \<open>D\<close> in its initial state \<open>d\<close>: one boolean definition per test function, with the same
  requests and assertions, and the proof that it holds. What a test knows of the software device
  is an assumption of its proof: buffers have the requested size, the first one has handle 1, freeing
  succeeds and makes a buffer unreadable, presenting fails. The tests that move data through device
  memory are in \<open>Memory_Tests\<close>.
\<close>

section \<open>The limits\<close>

text \<open>What the tests rely on of the limits of the GPU crate.\<close>

definition usable_limits :: "sgpu_limits \<Rightarrow> bool" where
  "usable_limits lim \<longleftrightarrow>
     8 \<le> unat (max_resource_bytes lim) \<and> unat (max_resource_bytes lim) < 2 ^ 32 - 1 \<and>
     0 < max_resources lim \<and> max_resources lim < 2 ^ 32 \<and>
     max_resource_bytes lim \<le> max_total_resource_bytes lim \<and>
     4 * max_resources lim \<le> unat (max_total_resource_bytes lim) \<and>
     unat (max_resource_bytes lim) dvd unat (max_total_resource_bytes lim) \<and>
     unat (max_total_resource_bytes lim) div unat (max_resource_bytes lim) \<le> max_resources lim"

text \<open>The accesses of the tests to \<open>session.device.memory\<close>: handle, offset, and length or data.\<close>

record 'd device_memory =
  mem_read :: "'d \<Rightarrow> u64 \<Rightarrow> nat \<Rightarrow> nat \<Rightarrow> (bytes, string) result"
  mem_write :: "'d \<Rightarrow> u64 \<Rightarrow> nat \<Rightarrow> bytes \<Rightarrow> (unit, string) result \<times> 'd"

text \<open>Dispatching one frame after the other, and creating \<open>k\<close> resources of a size.\<close>

fun dispatch_all ::
    "target \<Rightarrow> sgpu_limits \<Rightarrow> ('v, 'm) gpu_enums \<Rightarrow> ('d, 'v, 'm) gpu_device \<Rightarrow>
     (bytes \<Rightarrow> sgpu_command list option) \<Rightarrow> sgpu_frame list \<Rightarrow> 'd sgpu_session \<Rightarrow>
     (sgpu_frame, sgpu_error) result list \<times> 'd sgpu_session" where
  "dispatch_all t lim g D dec [] s = ([], s)"
| "dispatch_all t lim g D dec (f # fs) s =
     (let (r, s) = dispatch t lim g D dec f s; (rs, s) = dispatch_all t lim g D dec fs s in (r # rs, s))"

primrec create_n ::
    "target \<Rightarrow> sgpu_limits \<Rightarrow> ('d, 'v, 'm) gpu_device \<Rightarrow> u64 \<Rightarrow> nat \<Rightarrow> 'd sgpu_session \<Rightarrow>
     (sgpu_resource, sgpu_error) result list \<times> 'd sgpu_session" where
  "create_n t lim D n 0 s = ([], s)"
| "create_n t lim D n (Suc k) s =
     (let (r, s) = create_resource t lim D n s; (rs, s) = create_n t lim D n k s in (r # rs, s))"

section \<open>The tests\<close>

definition first_resource :: "(sgpu_resource, sgpu_error) result \<Rightarrow> bool" where
  "first_resource r \<longleftrightarrow> (case r of Inr res \<Rightarrow> sgp_handle res = 1 \<and> gpu_handle res = 1 | Inl _ \<Rightarrow> False)"

definition dispatch_validates_first ::
    "target \<Rightarrow> sgpu_limits \<Rightarrow> ('v, 'm) gpu_enums \<Rightarrow> ('d, 'v, 'm) gpu_device \<Rightarrow>
     (bytes \<Rightarrow> sgpu_command list option) \<Rightarrow> 'd \<Rightarrow> bool" where
  "dispatch_validates_first t lim g D dec d \<longleftrightarrow>
     (let good = request_frame VF_SGPU_CREATE_RESOURCE (le_bytes 8 (8 :: u64));
          bad1 = good\<lparr>header := (header good)\<lparr>payload_bytes := 0\<rparr>\<rparr>;
          bad2 = good\<lparr>header := (header good)\<lparr>payload_bytes := 8, message_bytes := 64\<rparr>\<rparr>;
          (rs, s) = dispatch_all t lim g D dec [bad1, bad2] (session_new d);
          (r, s) = create_resource t lim D 8 s
      in list_all isl rs \<and> first_resource r)"

definition requests_need_exact_lengths ::
    "target \<Rightarrow> sgpu_limits \<Rightarrow> ('v, 'm) gpu_enums \<Rightarrow> ('d, 'v, 'm) gpu_device \<Rightarrow>
     (bytes \<Rightarrow> sgpu_command list option) \<Rightarrow> 'd \<Rightarrow> bool" where
  "requests_need_exact_lengths t lim g D dec d \<longleftrightarrow>
     (case create_resource t lim D 8 (session_new d) of
        (Inl _, _) \<Rightarrow> False
      | (Inr res, s) \<Rightarrow>
          let resized = (\<lambda>n. take n (le_bytes 8 (sgp_handle res) @ replicate n 0));
              frames = concat (map (\<lambda>op. map (\<lambda>n. request_frame op (resized n)) [7, 9])
                [VF_SGPU_CREATE_RESOURCE, VF_SGPU_DESTROY_RESOURCE, VF_SGPU_PRESENT]) @
                [request_frame VF_SGPU_QUERY_CAPS [0]];
              (rs, s) = dispatch_all t lim g D dec frames s
          in list_all (\<lambda>r. r = Inl Payload) rs \<and>
            lookup_gpu_handle s (sgp_handle res) = Inr (gpu_handle res))"

definition oversized_fail ::
    "target \<Rightarrow> sgpu_limits \<Rightarrow> ('v, 'm) gpu_enums \<Rightarrow> ('d, 'v, 'm) gpu_device \<Rightarrow>
     (bytes \<Rightarrow> sgpu_command list option) \<Rightarrow> 'd \<Rightarrow> bool" where
  "oversized_fail t lim g D dec d \<longleftrightarrow>
     (let sent = map (\<lambda>n. bindE (try_to_wire t (request_frame VF_SGPU_CREATE_RESOURCE (le_bytes 8 n))) (from_wire t))
            [max_resource_bytes lim + 1, push_bit 32 1, 0xFFFFFFFFFFFFFFFF];
          decoded = List.map_filter (\<lambda>r. case r of Inr f \<Rightarrow> Some f | Inl _ \<Rightarrow> None) sent;
          (rs, s) = dispatch_all t lim g D dec decoded (session_new d);
          (r0, s) = create_resource t lim D 0 s;
          (r, s) = create_resource t lim D 4 s
      in list_all is_ok sent \<and> list_all (\<lambda>r. r = Inl ResourceLimit) rs \<and> r0 = Inl Payload \<and> first_resource r)"

definition count_budget_recovers ::
    "target \<Rightarrow> sgpu_limits \<Rightarrow> ('d, 'v, 'm) gpu_device \<Rightarrow> 'd device_memory \<Rightarrow> 'd \<Rightarrow> bool" where
  "count_budget_recovers t lim D M d \<longleftrightarrow>
     (let (rs, s) = create_n t lim D 4 (max_resources lim) (session_new d);
          (full, s) = create_resource t lim D 4 s
      in list_all is_ok rs \<and> full = Inl ResourceLimit \<and>
        (case hd rs of
           Inl _ \<Rightarrow> False
         | Inr first \<Rightarrow>
             let (freed, s) = destroy_resource D (sgp_handle first) s;
                 gone = lookup_gpu_handle s (sgp_handle first);
                 bytes = mem_read M (device s) (gpu_handle first) 0 1;
                 (replacement, s) = create_resource t lim D 4 s
             in is_ok freed \<and> isl gone \<and> isl bytes \<and>
               (case replacement of
                  Inl _ \<Rightarrow> False
                | Inr res \<Rightarrow> sgp_handle res = word_of_nat (max_resources lim) + 1)))"

definition byte_budget_recovers ::
    "target \<Rightarrow> sgpu_limits \<Rightarrow> ('d, 'v, 'm) gpu_device \<Rightarrow> 'd \<Rightarrow> bool" where
  "byte_budget_recovers t lim D d \<longleftrightarrow>
     (let big = max_resource_bytes lim;
          n = unat (max_total_resource_bytes lim) div unat big;
          (rs, s) = create_n t lim D big n (session_new d);
          (full, s) = create_resource t lim D 1 s
      in list_all is_ok rs \<and> full = Inl ResourceLimit \<and>
        (case hd rs of
           Inl _ \<Rightarrow> False
         | Inr first \<Rightarrow>
             let (freed, s) = destroy_resource D (sgp_handle first) s;
                 (again, s) = create_resource t lim D big s;
                 (full, s) = create_resource t lim D 1 s
             in is_ok freed \<and> is_ok again \<and> full = Inl ResourceLimit))"

definition caps_survive :: "('v, 'm) gpu_enums \<Rightarrow> bool" where
  "caps_survive g \<longleftrightarrow>
     (let caps = \<lparr>vendor = vendor_AMD g, metal_version = metal_V3_1 g, vram_bytes = push_bit 20 4,
        max_threads_per_threadgroup = 1, has_compute_shaders = False, software_accelerated = True\<rparr>
      in caps_decode g (caps_encode g caps) = Inr caps)"

definition query_through_dispatch ::
    "target \<Rightarrow> sgpu_limits \<Rightarrow> ('v, 'm) gpu_enums \<Rightarrow> ('d, 'v, 'm) gpu_device \<Rightarrow>
     (bytes \<Rightarrow> sgpu_command list option) \<Rightarrow> 'd \<Rightarrow> bool" where
  "query_through_dispatch t lim g D dec d \<longleftrightarrow>
     (let h = (header_new VF_FAMILY_SGPU VF_SGPU_QUERY_CAPS)
        \<lparr>request_id := 42, payload_offset := 0, message_bytes := VF_MSG_BYTES, payload_bytes := 0\<rparr>
      in case fst (dispatch t lim g D dec \<lparr>header = h, payload = []\<rparr> (session_new d)) of
           Inl _ \<Rightarrow> False
         | Inr resp \<Rightarrow>
             request_id (header resp) = 42 \<and> opcode (header resp) = VF_SGPU_QUERY_CAPS \<and>
             message_bytes (header resp) \<ge> VF_MSG_BYTES \<and>
             (case caps_decode g (payload resp) of
                Inl _ \<Rightarrow> False
              | Inr caps \<Rightarrow> software_accelerated caps \<and> vendor caps = vendor_AMD g))"

definition present_rejected ::
    "target \<Rightarrow> sgpu_limits \<Rightarrow> ('d, 'v, 'm) gpu_device \<Rightarrow> 'd \<Rightarrow> bool" where
  "present_rejected t lim D d \<longleftrightarrow>
     (case create_resource t lim D 64 (session_new d) of
        (Inl _, _) \<Rightarrow> False
      | (Inr res, s) \<Rightarrow> (\<exists>m. fst (present lim D (sgp_handle res) s) = Inl (Gpu m)))"

definition unknown_opcode_rejected ::
    "target \<Rightarrow> sgpu_limits \<Rightarrow> ('v, 'm) gpu_enums \<Rightarrow> ('d, 'v, 'm) gpu_device \<Rightarrow>
     (bytes \<Rightarrow> sgpu_command list option) \<Rightarrow> 'd \<Rightarrow> bool" where
  "unknown_opcode_rejected t lim g D dec d \<longleftrightarrow>
     isl (fst (dispatch t lim g D dec \<lparr>header = header_new VF_FAMILY_SGPU 0xF0, payload = []\<rparr> (session_new d)))"

definition unknown_resource_rejected ::
    "sgpu_limits \<Rightarrow> ('d, 'v, 'm) gpu_device \<Rightarrow> 'd \<Rightarrow> bool" where
  "unknown_resource_rejected lim D d \<longleftrightarrow>
     fst (submit lim D [CopyBuffer 99 100 1] (session_new d)) = Inl (ResourceNotFound 99)"

section \<open>Creating and destroying\<close>

lemma create_n_ok:
  assumes "alloc_exact D" and "n \<noteq> 0" and "unat n < 2 ^ ptr_width t" and "n \<le> max_resource_bytes lim"
  shows "session_inv lim s \<Longrightarrow> hm_len (resources s) + k \<le> max_resources lim \<Longrightarrow>
    live_bytes s + k * unat n \<le> unat (max_total_resource_bytes lim) \<Longrightarrow>
    unat (next_resource_id s) + k < 2 ^ 64 \<Longrightarrow>
    \<exists>rs s'. create_n t lim D n k s = (map Inr rs, s') \<and> session_inv lim s' \<and>
      hm_len (resources s') = hm_len (resources s) + k \<and> live_bytes s' = live_bytes s + k * unat n \<and>
      unat (next_resource_id s') = unat (next_resource_id s) + k \<and> length rs = k \<and>
      (0 < k \<longrightarrow> hm_get (resources s') (sgp_handle (hd rs)) = Some (hd rs)) \<and>
      (\<forall>h q. hm_get (resources s) h = Some q \<longrightarrow> hm_get (resources s') h = Some q)"
proof (induction k arbitrary: s)
  case 0
  then show ?case by (intro exI [of _ "[]"]) simp
next
  case (Suc k)
  have can: "can_create t lim n s"
    using Suc.prems assms by (simp add: can_create_def)
  obtain r s1 where r: "create_resource t lim D n s = (Inr r, s1)" "session_inv lim s1"
      "hm_len (resources s1) = Suc (hm_len (resources s))" "live_bytes s1 = live_bytes s + unat n"
      "unat (next_resource_id s1) = unat (next_resource_id s) + 1"
      "hm_get (resources s1) (sgp_handle r) = Some r"
    and old: "\<And>h q. hm_get (resources s) h = Some q \<Longrightarrow> hm_get (resources s1) h = Some q"
    by (rule create_step [OF assms(1) Suc.prems(1) assms(2) can]) (rule that)
  then obtain rs s' where rs: "create_n t lim D n k s1 = (map Inr rs, s')" "session_inv lim s'"
      "hm_len (resources s') = hm_len (resources s1) + k" "live_bytes s' = live_bytes s1 + k * unat n"
      "unat (next_resource_id s') = unat (next_resource_id s1) + k" "length rs = k"
      "\<forall>h q. hm_get (resources s1) h = Some q \<longrightarrow> hm_get (resources s') h = Some q"
    using Suc.IH [of s1] Suc.prems by auto
  then have "create_n t lim D n (Suc k) s = (map Inr (r # rs), s')" using r(1) by simp
  then show ?case
    using r rs old by (intro exI [of _ "r # rs"] exI [of _ s']) auto
qed

text \<open>A freed resource gives back its handle, its place and its bytes.\<close>

lemma destroy_step:
  assumes inv: "session_inv lim s" and get: "hm_get (resources s) h = Some q"
    and "\<And>d g. fst (free_buffer D d g) = Inr ()"
  obtains s' where "destroy_resource D h s = (Inr (), s')" and "session_inv lim s'"
    and "lookup_gpu_handle s' h = Inl (ResourceNotFound h)"
    and "hm_len (resources s) = Suc (hm_len (resources s'))"
    and "live_bytes s = live_bytes s' + unat (res_size q)" and "next_resource_id s' = next_resource_id s"
proof -
  have m: "hm_inv (resources s)" using inv by (simp add: session_inv_def)
  let ?s = "s\<lparr>resources := hm_remove h (resources s), device := snd (free_buffer D (device s) (gpu_handle q))\<rparr>"
  have eq: "destroy_resource D h s = (Inr (), ?s)"
    using assms by (simp add: destroy_resource_eq)
  show ?thesis
  proof (rule that [OF eq])
    show "session_inv lim ?s" by (rule session_inv_destroy [OF inv eq])
    show "live_bytes s = live_bytes ?s + unat (res_size q)"
      using hm.total_rem [OF m get, of "\<lambda>r. unat (res_size r)"] by (simp add: live_bytes_def)
  qed (simp_all add: lookup_gpu_handle_def hm.get_rem [OF m] hm.len_rem [OF m get])
qed

lemma new_session [simp]:
  "hm_len (resources (session_new d)) = 0" "live_bytes (session_new d) = 0"
  "next_resource_id (session_new d) = 1" "hm_get (resources (session_new d)) h = None"
  "device (session_new d) = d"
  by (simp_all add: session_new_def live_bytes_def hm.len_empty hm.vals_empty hm.get_empty)

lemma supported_width: "supported_target t \<Longrightarrow> 2 ^ 32 \<le> (2 :: nat) ^ ptr_width t"
  by (auto simp: supported_target_def)

section \<open>The tests hold\<close>

lemma new_can_create:
  assumes "supported_target t" and "usable_limits lim" and "n \<noteq> 0" and "n \<le> 8"
  shows "can_create t lim n (session_new d)"
proof -
  have small: "unat n \<le> 8" using assms(4) by (simp add: word_le_nat_alt)
  have lim: "8 \<le> unat (max_resource_bytes lim)" "0 < max_resources lim"
      "unat (max_resource_bytes lim) \<le> unat (max_total_resource_bytes lim)"
    using assms(2) by (simp_all add: usable_limits_def word_le_nat_alt)
  have "unat n < 2 ^ ptr_width t" using small assms(1) by (auto simp: supported_target_def)
  moreover have "n \<le> max_resource_bytes lim" using small lim(1) by (simp add: word_le_nat_alt)
  ultimately show ?thesis using assms(3) small lim by (simp add: can_create_def)
qed

lemma new_create:
  assumes "alloc_exact D" and "supported_target t" and "usable_limits lim" and "n \<noteq> 0" and "n \<le> 8"
  obtains r s where "create_resource t lim D n (session_new d) = (Inr r, s)"
    and "sgp_handle r = 1" and "gpu_handle r = fst (fst (allocate_buffer D d n))"
    and "hm_get (resources s) 1 = Some r" and "session_inv lim s"
proof -
  have can: "can_create t lim n (session_new d)" by (rule new_can_create [OF assms(2-5)])
  obtain r s where r: "create_resource t lim D n (session_new d) = (Inr r, s)" "session_inv lim s"
      "sgp_handle r = next_resource_id (session_new d)" "hm_get (resources s) (sgp_handle r) = Some r"
    by (rule create_step [OF assms(1) session_inv_new assms(4) can]) (rule that)
  moreover have "r = created D n (session_new d)"
    using r(1) can assms(4) by (simp add: create_resource_eq)
  then have "gpu_handle r = fst (fst (allocate_buffer D d n))"
    by (simp add: created_def split: prod.splits)
  ultimately show ?thesis by (intro that [of r s]) simp_all
qed

lemma first_resource_new:
  assumes "alloc_exact D" and "supported_target t" and "usable_limits lim" and "n \<noteq> 0" and "n \<le> 8"
    and "fst (fst (allocate_buffer D d n)) = 1"
  shows "first_resource (fst (create_resource t lim D n (session_new d)))"
  by (rule new_create [OF assms(1-5), of d]) (simp add: first_resource_def assms(6))

lemma dispatch_invalid:
  "supported_target t \<Longrightarrow> \<not> valid_frame f \<Longrightarrow> \<exists>e. dispatch t lim g D dec f s = (Inl e, s)"
  by (cases "frame_validate t f") (auto simp: dispatch_def frame_validate_Inr_iff)

lemma dispatch_wrong_length:
  assumes "supported_target t" and "valid_frame f"
    and "opcode (header f) \<in> {VF_SGPU_CREATE_RESOURCE, VF_SGPU_DESTROY_RESOURCE, VF_SGPU_PRESENT} \<and> length (payload f) \<noteq> 8 \<or>
      opcode (header f) = VF_SGPU_QUERY_CAPS \<and> payload f \<noteq> []"
  shows "dispatch t lim g D dec f s = (Inl Payload, s)"
proof -
  have "frame_validate t f = Inr ()" using assms(1,2) by (simp add: frame_validate_Inr_iff)
  then show ?thesis using assms(3) by (auto simp: dispatch_def Let_def)
qed

lemma request_valid:
  assumes "length p \<le> 16"
  shows "valid_frame (request_frame op p)" and "opcode (header (request_frame op p)) = op"
  using assms by (simp_all add: valid_frame_def inline_header_def new_header unat_of_nat unat_word_ariths)

text \<open>Frames that are refused leave the session alone.\<close>

lemma dispatch_all_refused:
  assumes "\<And>f. f \<in> set fs \<Longrightarrow> \<exists>e. dispatch t lim g D dec f s = (Inl e, s) \<and> E e"
  shows "\<exists>rs. dispatch_all t lim g D dec fs s = (rs, s) \<and> (\<forall>r\<in>set rs. \<exists>e. r = Inl e \<and> E e)"
  using assms
proof (induction fs)
  case (Cons f fs)
  then obtain e rs where "dispatch t lim g D dec f s = (Inl e, s)" "E e"
      "dispatch_all t lim g D dec fs s = (rs, s)" "\<forall>r\<in>set rs. \<exists>e. r = Inl e \<and> E e"
    by (metis list.set_intros)
  then show ?case by simp
qed simp

lemma dispatch_validates_first_holds:
  assumes "alloc_exact D" and t: "supported_target t" and "usable_limits lim"
    and "fst (fst (allocate_buffer D d 8)) = 1"
  shows "dispatch_validates_first t lim g D dec d"
proof -
  let ?good = "request_frame VF_SGPU_CREATE_RESOURCE (le_bytes 8 (8 :: u64))"
  let ?bad = "[?good\<lparr>header := (header ?good)\<lparr>payload_bytes := 0\<rparr>\<rparr>,
     ?good\<lparr>header := (header ?good)\<lparr>payload_bytes := 8, message_bytes := 64\<rparr>\<rparr>]"
  have "\<exists>e. dispatch t lim g D dec f (session_new d) = (Inl e, session_new d) \<and> True" if "f \<in> set ?bad" for f
    using that dispatch_invalid [OF t, of f] by (auto simp: valid_frame_def inline_header_def new_header)
  then obtain rs where "dispatch_all t lim g D dec ?bad (session_new d) = (rs, session_new d)"
      "\<forall>r\<in>set rs. \<exists>e. r = Inl e \<and> True"
    using dispatch_all_refused [of ?bad t lim g D dec "session_new d" "\<lambda>_. True"] by blast
  moreover have "first_resource (fst (create_resource t lim D 8 (session_new d)))"
    using first_resource_new [OF assms(1-3), of 8 d] assms(4) by simp
  ultimately show ?thesis
    by (auto simp: dispatch_validates_first_def Let_def list_all_iff split: prod.splits)
qed

lemma requests_need_exact_lengths_holds:
  assumes "alloc_exact D" and t: "supported_target t" and "usable_limits lim"
  shows "requests_need_exact_lengths t lim g D dec d"
proof -
  obtain res s where r: "create_resource t lim D 8 (session_new d) = (Inr res, s)"
      "hm_get (resources s) 1 = Some res" "sgp_handle res = 1"
    by (rule new_create [OF assms, of 8 d]) (simp_all add: that)
  let ?resized = "\<lambda>n. take n (le_bytes 8 (sgp_handle res) @ replicate n 0)"
  let ?frames = "concat (map (\<lambda>op. map (\<lambda>n. request_frame op (?resized n)) [7, 9])
      [VF_SGPU_CREATE_RESOURCE, VF_SGPU_DESTROY_RESOURCE, VF_SGPU_PRESENT]) @
      [request_frame VF_SGPU_QUERY_CAPS [0]]"
  have long: "dispatch t lim g D dec (request_frame op p) s = (Inl Payload, s)"
    if "op \<in> {VF_SGPU_CREATE_RESOURCE, VF_SGPU_DESTROY_RESOURCE, VF_SGPU_PRESENT}" "length p \<in> {7, 9}" for op p
    using that request_valid [of p op] by (intro dispatch_wrong_length [OF t]) auto
  have "dispatch t lim g D dec (request_frame VF_SGPU_QUERY_CAPS [0]) s = (Inl Payload, s)"
    using request_valid [of "[0]" VF_SGPU_QUERY_CAPS] by (intro dispatch_wrong_length [OF t]) auto
  then have "dispatch t lim g D dec f s = (Inl Payload, s)" if "f \<in> set ?frames" for f
    using that by (auto simp: long simp del: take_append)
  then have "\<exists>e. dispatch t lim g D dec f s = (Inl e, s) \<and> e = Payload" if "f \<in> set ?frames" for f
    using that by blast
  then obtain rs where "dispatch_all t lim g D dec ?frames s = (rs, s)" "\<forall>r\<in>set rs. \<exists>e. r = Inl e \<and> e = Payload"
    using dispatch_all_refused [of ?frames t lim g D dec s "\<lambda>e. e = Payload"] by blast
  then show ?thesis
    using r by (auto simp: requests_need_exact_lengths_def Let_def list_all_iff lookup_gpu_handle_def
        split: prod.splits simp del: dispatch_all.simps)
qed

lemma wire_back:
  assumes t: "supported_target t" and r: "\<forall>n. reserve_ok t n" and f: "valid_frame f"
  obtains w where "try_to_wire t f = Inr w" and "from_wire t w = Inr f"
proof
  show "try_to_wire t f = Inr (padded_wire f (fst (zero_pads f)) (snd (zero_pads f)))"
    using f r by (simp only: try_to_wire_Inr_iff [OF t])
  show "from_wire t (padded_wire f (fst (zero_pads f)) (snd (zero_pads f))) = Inr f"
    using from_wire_padded [OF t f pad_lengths_zero_pads [OF f]] r by simp
qed

lemma oversized_refused:
  assumes t: "supported_target t" and r: "\<forall>n. reserve_ok t n" and "n > max_resource_bytes lim"
  shows "bindE (try_to_wire t (request_frame VF_SGPU_CREATE_RESOURCE (le_bytes 8 n))) (from_wire t) =
      Inr (request_frame VF_SGPU_CREATE_RESOURCE (le_bytes 8 n))"
    and "dispatch t lim g D dec (request_frame VF_SGPU_CREATE_RESOURCE (le_bytes 8 n)) s = (Inl ResourceLimit, s)"
proof -
  let ?f = "request_frame VF_SGPU_CREATE_RESOURCE (le_bytes 8 n)"
  have valid: "valid_frame ?f" "opcode (header ?f) = VF_SGPU_CREATE_RESOURCE"
    by (rule request_valid; simp)+
  show "bindE (try_to_wire t ?f) (from_wire t) = Inr ?f"
    by (rule wire_back [OF t r valid(1)]) simp
  have "\<not> can_create t lim n s" "n \<noteq> 0" using assms(3) by (auto simp: can_create_def)
  then have "create_resource t lim D n s = (Inl ResourceLimit, s)" by (simp add: create_resource_eq)
  moreover have "frame_validate t ?f = Inr ()" using valid(1) by (simp add: frame_validate_Inr_iff t)
  ultimately show "dispatch t lim g D dec ?f s = (Inl ResourceLimit, s)"
    using valid(2) by (simp add: dispatch_def Let_def slice_def of_le_bytes_le_bytes)
qed

lemma oversized_fail_holds:
  assumes "alloc_exact D" and t: "supported_target t" and lim: "usable_limits lim"
    and r: "\<forall>n. reserve_ok t n" and "fst (fst (allocate_buffer D d 4)) = 1"
  shows "oversized_fail t lim g D dec d"
proof -
  have small: "unat (max_resource_bytes lim) < 2 ^ 32 - 1" using lim by (simp add: usable_limits_def)
  then have over: "max_resource_bytes lim + 1 > max_resource_bytes lim" "push_bit 32 1 > max_resource_bytes lim"
      "0xFFFFFFFFFFFFFFFF > max_resource_bytes lim"
    by (simp_all add: word_less_nat_alt unat_word_ariths)
  note refused = oversized_refused [OF t r over(1), simplified] oversized_refused [OF t r over(2), simplified]
    oversized_refused [OF t r over(3), simplified]
  have "create_resource t lim D 0 s = (Inl Payload, s)" for s by (simp add: create_resource_eq)
  moreover have "first_resource (fst (create_resource t lim D 4 (session_new d)))"
    using first_resource_new [OF assms(1-3), of 4 d] assms(5) by (simp add: word_le_nat_alt)
  ultimately show ?thesis
    by (auto simp: oversized_fail_def Let_def refused List.map_filter_def split: prod.splits)
qed

lemma caps_survive_holds:
  assumes "vendor_code g (vendor_AMD g) = 0" and "metal_code g (metal_V3_1 g) = 2"
  shows "caps_survive g"
  using caps_roundtrip [of g] assms by (simp add: caps_survive_def codes_agree_def Let_def)

lemma query_through_dispatch_holds:
  assumes t: "supported_target t" and "vendor_code g (vendor_AMD g) = 0" and "spec_vendor D d = vendor_AMD g"
    and "is_software_accelerated D d"
  shows "query_through_dispatch t lim g D dec d"
proof -
  let ?h = "(header_new VF_FAMILY_SGPU VF_SGPU_QUERY_CAPS)
        \<lparr>request_id := 42, payload_offset := 0, message_bytes := VF_MSG_BYTES, payload_bytes := 0\<rparr>"
  let ?caps = "query_caps D (session_new d)"
  have valid: "valid_frame \<lparr>header = ?h, payload = []\<rparr>"
    by (simp add: valid_frame_def inline_header_def new_header)
  then have v: "frame_validate t \<lparr>header = ?h, payload = []\<rparr> = Inr ()"
    by (simp only: frame_validate_Inr_iff [OF t])
  have "fst (dispatch t lim g D dec \<lparr>header = ?h, payload = []\<rparr> (session_new d)) =
      Inr (response_frame VF_SGPU_QUERY_CAPS 42 (caps_encode g ?caps))"
    unfolding dispatch_def v by (simp add: new_header)
  moreover have "caps_encode g ?caps ! 0 = 0" "caps_encode g ?caps ! 24 = 1"
    using assms(2-4)
    by (simp_all add: caps_encode_list nth_append nth_Cons' query_caps_def u8_of_bool_def)
  moreover have "unat (message_bytes (header (response_frame VF_SGPU_QUERY_CAPS 42 (caps_encode g ?caps)))) = 104"
    by (simp add: response_frame_def Let_def)
  ultimately show ?thesis
    by (simp add: query_through_dispatch_def Let_def caps_decode_def word_le_nat_alt)
qed

lemma present_rejected_holds:
  assumes "alloc_exact D" and t: "supported_target t" and "usable_limits lim" and "64 \<le> max_resource_bytes lim"
    and "0 < max_commands lim" and "\<And>d gh. \<exists>m d'. write_command_buffer D d [Gpu_PresentSwapchain gh] = (Inl m, d')"
  shows "present_rejected t lim D d"
proof -
  have "unat (max_resource_bytes lim) \<le> unat (max_total_resource_bytes lim)" "0 < max_resources lim"
    using assms(3) by (simp_all add: usable_limits_def word_le_nat_alt)
  then have can: "can_create t lim 64 (session_new d)"
    using assms(2,4) by (auto simp: can_create_def word_le_nat_alt supported_target_def)
  obtain r s where r: "create_resource t lim D 64 (session_new d) = (Inr r, s)"
      "hm_get (resources s) (sgp_handle r) = Some r"
    by (rule create_step [OF assms(1) session_inv_new _ can]) (simp_all add: that)
  obtain m d' where "write_command_buffer D (device s) [Gpu_PresentSwapchain (gpu_handle r)] = (Inl m, d')"
    using assms(6) by blast
  then show ?thesis
    using r assms(5) by (simp add: present_rejected_def present_def submit_def lookup_gpu_handle_def)
qed

lemma unknown_opcode_rejected_holds: "unknown_opcode_rejected t lim g D dec d"
  by (cases "frame_validate t \<lparr>header = header_new VF_FAMILY_SGPU 0xF0, payload = []\<rparr>")
    (simp_all add: unknown_opcode_rejected_def dispatch_def new_header)

lemma unknown_resource_rejected_holds: "0 < max_commands lim \<Longrightarrow> unknown_resource_rejected lim D d"
  by (simp add: unknown_resource_rejected_def submit_def lookup_gpu_handle_def)

text \<open>A session filled with \<open>k\<close> resources of size \<open>n\<close>, and the first of them freed.\<close>

lemma filled_session:
  assumes D: "alloc_exact D" "\<And>d gh. fst (free_buffer D d gh) = Inr ()" and t: "supported_target t"
    and lim: "usable_limits lim" and n: "n \<noteq> 0" "n \<le> max_resource_bytes lim"
    and k: "0 < k" "k \<le> max_resources lim" "k * unat n \<le> unat (max_total_resource_bytes lim)"
  obtains rs s s' where "create_n t lim D n k (session_new d) = (map Inr rs, s)" and "rs \<noteq> []"
    and "session_inv lim s" and "hm_len (resources s) = k" and "live_bytes s = k * unat n"
    and "unat (next_resource_id s) = k + 1" and "hm_get (resources s) (sgp_handle (hd rs)) = Some (hd rs)"
    and "destroy_resource D (sgp_handle (hd rs)) s = (Inr (), s')" and "session_inv lim s'"
    and "lookup_gpu_handle s' (sgp_handle (hd rs)) = Inl (ResourceNotFound (sgp_handle (hd rs)))"
    and "hm_len (resources s') = k - 1" and "live_bytes s' = (k - 1) * unat n"
    and "next_resource_id s' = next_resource_id s"
proof -
  have width: "unat n < 2 ^ ptr_width t" "k + 1 < 2 ^ 64"
    using lim n(2) t k(2) by (auto simp: usable_limits_def word_le_nat_alt supported_target_def)
  obtain rs s where rs: "create_n t lim D n k (session_new d) = (map Inr rs, s)" "session_inv lim s"
      "hm_len (resources s) = k" "live_bytes s = k * unat n" "unat (next_resource_id s) = k + 1"
      "length rs = k" "hm_get (resources s) (sgp_handle (hd rs)) = Some (hd rs)"
    using create_n_ok [OF D(1) n(1) width(1) n(2), of "session_new d" k] k width(2)
    by (auto simp: session_inv_new)
  obtain s' where s': "destroy_resource D (sgp_handle (hd rs)) s = (Inr (), s')" "session_inv lim s'"
      "lookup_gpu_handle s' (sgp_handle (hd rs)) = Inl (ResourceNotFound (sgp_handle (hd rs)))"
      "hm_len (resources s) = Suc (hm_len (resources s'))"
      "live_bytes s = live_bytes s' + unat (res_size (hd rs))" "next_resource_id s' = next_resource_id s"
    by (rule destroy_step [OF rs(2,7) D(2)]) (rule that)
  have "res_size (hd rs) = n"
  proof -
    obtain k' where k': "k = Suc k'" using k(1) by (cases k) auto
    have "fst (create_resource t lim D n (session_new d)) = Inr (hd rs)"
      using rs(1,6) unfolding k' by (cases rs) (auto split: prod.splits)
    then show ?thesis
      using n(1) res_size_created [OF D(1), of n "session_new d"]
      by (auto simp: create_resource_eq split: if_splits)
  qed
  then show ?thesis
    using rs s' k(1) by (intro that [of rs s s']) (auto simp: diff_mult_distrib)
qed

lemma refused_full:
  assumes "n \<noteq> 0" and "hm_len (resources s) = max_resources lim \<or>
    unat (max_total_resource_bytes lim) < unat n + live_bytes s"
  shows "create_resource t lim D n s = (Inl ResourceLimit, s)"
  using assms by (auto simp: create_resource_eq can_create_def)

lemma count_budget_recovers_holds:
  assumes D: "alloc_exact D" "\<And>d gh. fst (free_buffer D d gh) = Inr ()" and t: "supported_target t"
    and lim: "usable_limits lim" and gone: "\<And>d gh. isl (mem_read M (snd (free_buffer D d gh)) gh 0 1)"
  shows "count_budget_recovers t lim D M d"
proof -
  note l = lim [unfolded usable_limits_def]
  have n: "4 \<noteq> (0 :: u64)" "4 \<le> max_resource_bytes lim" using l by (simp_all add: word_le_nat_alt)
  have k: "0 < max_resources lim" "max_resources lim * unat (4 :: u64) \<le> unat (max_total_resource_bytes lim)"
    using l by simp_all
  obtain rs s s' where f: "create_n t lim D 4 (max_resources lim) (session_new d) = (map Inr rs, s)" "rs \<noteq> []"
      "hm_len (resources s) = max_resources lim" "unat (next_resource_id s) = max_resources lim + 1"
      "hm_get (resources s) (sgp_handle (hd rs)) = Some (hd rs)"
      "destroy_resource D (sgp_handle (hd rs)) s = (Inr (), s')" "session_inv lim s'"
      "lookup_gpu_handle s' (sgp_handle (hd rs)) = Inl (ResourceNotFound (sgp_handle (hd rs)))"
      "hm_len (resources s') = max_resources lim - 1"
      "live_bytes s' = (max_resources lim - 1) * unat (4 :: u64)" "next_resource_id s' = next_resource_id s"
    by (rule filled_session [OF D t lim n k(1) order_refl k(2)]) (rule that)
  have "device s' = snd (free_buffer D (device s) (gpu_handle (hd rs)))"
    using f(5,6) by (auto simp: destroy_resource_eq)
  then have unread: "isl (mem_read M (device s') (gpu_handle (hd rs)) 0 1)" by (simp only: gone)
  have full: "create_resource t lim D 4 s = (Inl ResourceLimit, s)"
    using f(3) by (intro refused_full) simp_all
  have "4 + (max_resources lim - 1) * 4 = 4 * max_resources lim" using k(1) by (cases "max_resources lim") simp_all
  then have can: "can_create t lim 4 s'"
    using n k l t f(4,9,10,11) by (auto simp: can_create_def supported_target_def)
  obtain r s2 where again: "create_resource t lim D 4 s' = (Inr r, s2)" "sgp_handle r = next_resource_id s'"
    by (rule create_step [OF D(1) f(7) n(1) can]) (simp_all add: that)
  have "next_resource_id s = word_of_nat (max_resources lim) + 1"
    using f(4) l by (simp add: word_unat_eq_iff unat_word_ariths unat_of_nat)
  then show ?thesis
    using f full again unread by (simp add: count_budget_recovers_def hd_map list_all_iff)
qed

lemma byte_budget_recovers_holds:
  assumes D: "alloc_exact D" "\<And>d gh. fst (free_buffer D d gh) = Inr ()" and t: "supported_target t"
    and lim: "usable_limits lim"
  shows "byte_budget_recovers t lim D d"
proof -
  note l = lim [unfolded usable_limits_def]
  let ?big = "max_resource_bytes lim"
  define n where "n = unat (max_total_resource_bytes lim) div unat ?big"
  have big: "?big \<noteq> 0" "?big \<le> ?big" using l by auto
  have total: "n * unat ?big = unat (max_total_resource_bytes lim)" and n: "n \<le> max_resources lim"
    using l by (simp_all add: n_def)
  have "0 < unat (max_total_resource_bytes lim)" using l by (simp add: word_le_nat_alt)
  then have pos: "0 < n" using total by (metis gr0I mult_0)
  obtain rs s s' where f: "create_n t lim D ?big n (session_new d) = (map Inr rs, s)" "rs \<noteq> []"
      "live_bytes s = n * unat ?big" "unat (next_resource_id s) = n + 1"
      "destroy_resource D (sgp_handle (hd rs)) s = (Inr (), s')" "session_inv lim s'"
      "hm_len (resources s') = n - 1" "live_bytes s' = (n - 1) * unat ?big"
      "next_resource_id s' = next_resource_id s"
    by (rule filled_session [OF D t lim big pos n, of d]) (use total that in simp_all)
  have full: "create_resource t lim D 1 s = (Inl ResourceLimit, s)"
    using f(3) total by (intro refused_full) simp_all
  have sum: "unat ?big + (n - 1) * unat ?big = n * unat ?big" using pos by (cases n) simp_all
  then have can: "can_create t lim ?big s'"
    using l t f(4,7-9) total n pos big(1) by (auto simp: can_create_def supported_target_def)
  obtain r s2 where again: "create_resource t lim D ?big s' = (Inr r, s2)"
      "live_bytes s2 = live_bytes s' + unat ?big"
    by (rule create_step [OF D(1) f(6) big(1) can]) (simp_all add: that)
  have "create_resource t lim D 1 s2 = (Inl ResourceLimit, s2)"
    using again(2) f(8) sum total by (intro refused_full) simp_all
  then show ?thesis
    using f full again by (simp add: byte_budget_recovers_def hd_map list_all_iff Let_def flip: n_def)
qed

end
