(* ===== verification/Guest_Tests.thy ===== *)
theory Guest_Tests
  imports Guest_Backend Vf_Policy
begin

text \<open>
  The unit tests of \<open>src/guest.rs\<close>, \<open>src/mode.rs\<close> and \<open>src/vf_policy.rs\<close>, read as propositions
  about the model: one boolean definition per test function, with the same inputs and assertions,
  and the proof that it holds. The plist parser is a parameter of the policy; what its tests need of
  it is the parse of the template file \<open>tests/data/golden-gate.template.plist\<close> and of the edits the
  tests make to it.
\<close>

section \<open>Guest launch plans\<close>

definition spec_validation :: bool where
  "spec_validation \<longleftrightarrow>
     isl (spec_validate \<lparr>cpu_count = 0, memory_bytes = push_bit 30 1\<rparr>) \<and>
     isl (spec_validate \<lparr>cpu_count = 2, memory_bytes = push_bit 20 64\<rparr>) \<and>
     \<not> isl (spec_validate \<lparr>cpu_count = 2, memory_bytes = push_bit 30 1\<rparr>) \<and>
     isl (spec_validate \<lparr>cpu_count = 300, memory_bytes = push_bit 30 1\<rparr>)"

definition launch_plan_roundtrip :: "target \<Rightarrow> bool" where
  "launch_plan_roundtrip t \<longleftrightarrow>
     (case plan_new \<lparr>cpu_count = 8, memory_bytes = push_bit 20 8192\<rparr> ''synthetic-boot.dmg'' of
        Inl _ \<Rightarrow> False
      | Inr plan \<Rightarrow>
          let plan = map_device 0x106B 0x1E00 0x10000 (smbios ''product_name'' ''Mac16,1'' plan)
          in plan_decode t (plan_encode plan) = Returned (Inr plan))"

definition iso_boot_disk_rejected :: bool where
  "iso_boot_disk_rejected \<longleftrightarrow> isl (plan_new \<lparr>cpu_count = 4, memory_bytes = push_bit 30 1\<rparr> '''')"

definition decode_rejects_truncation :: "target \<Rightarrow> bool" where
  "decode_rejects_truncation t \<longleftrightarrow>
     (case plan_new \<lparr>cpu_count = 4, memory_bytes = push_bit 30 1\<rparr> ''synthetic-boot.dmg'' of
        Inl _ \<Rightarrow> False
      | Inr plan \<Rightarrow>
          (let encoded = plan_encode plan in
           case plan_decode t (take (length encoded - 1) encoded) of
             Returned r \<Rightarrow> isl r
           | Panicked \<Rightarrow> False))"

definition xstate_domain_floor :: bool where
  "xstate_domain_floor \<longleftrightarrow>
     (let floor = from_xcr0 XCR0_SSE4_2_FLOOR; avx = from_xcr0 (XCR0_SSE4_2_FLOOR OR XCR0_AVX);
          below = from_xcr0 XCR0_X87
      in has_floored_state floor \<and> \<not> has_avx_state floor \<and> has_avx_state avx \<and>
         \<not> has_floored_state below \<and> ise_gpr_saved_count avx = 16)"

definition unsupported_fails_closed :: bool where
  "unsupported_fails_closed \<longleftrightarrow>
     \<not> available unsupported_backend \<and>
     (case plan_new \<lparr>cpu_count = 4, memory_bytes = push_bit 30 1\<rparr> ''synthetic-boot.dmg'' of
        Inl _ \<Rightarrow> False
      | Inr plan \<Rightarrow> (\<exists>m. launch unsupported_backend plan = Inl (UnsupportedHost m)))"

section \<open>Runtime mode\<close>

definition apple_cfg :: "target \<Rightarrow> bool" where
  "apple_cfg t \<longleftrightarrow> target_arch t = ''aarch64'' \<and> target_vendor t = ''apple''"

definition detect_consistent :: "target \<Rightarrow> bool" where
  "detect_consistent t \<longleftrightarrow>
     detect t = (if apple_cfg t then AppleSiliconSandbox else NativeEfiX86)"

definition probe_reports :: "target \<Rightarrow> (apple_state, guest_error) result \<Rightarrow> bool" where
  "probe_reports t probe \<longleftrightarrow>
     (let env = mode_probe t probe in
      arch env = target_arch t \<and>
      (if apple_cfg t then mode env = AppleSiliconSandbox
       else mode env = NativeEfiX86 \<and> \<not> virtualization_backend_available env))"

section \<open>Product policy\<close>

text \<open>The template, as the parser returns it.\<close>

definition template_raw :: raw_policy where
  "template_raw =
     \<lparr>raw_schema_version = Some 1, raw_platform_policy = Some ''AppleIntelOnly'',
      raw_cpu = Some \<lparr>minimum_isa = Some ''sse4.2'', codegen = Some ''auto'',
        hybrid_scheduling = Some ''capacity-aware'', vcpus = Some ''auto'',
        service_logical_cpus = Some 1, smt_policy = Some ''isolate-cells''\<rparr>,
      raw_security = Some \<lparr>vmx_required = Some True, ept_required = Some True,
        iommu_required = Some True, interrupt_remapping_required = Some True,
        dma_bypass = Some False\<rparr>,
      raw_memory = Some \<lparr>cfg_guest_mib = Some 8192, cfg_host_reserve_mib = Some 2048,
        cfg_jit_cache_mib = Some 256\<rparr>,
      raw_storage = None,
      raw_graphics = Some \<lparr>gfx_device = Some ''auto'', driver_policy = Some ''allowlist'',
        minimum_profile = Some ''vfgp-base1'', on_unsupported = Some ''halt''\<rparr>,
      raw_guest = Some \<lparr>profile_id = Some '''', require_metal = Some True\<rparr>\<rparr>"

definition dma_bypassed :: "raw_policy \<Rightarrow> raw_policy" where
  "dma_bypassed raw = raw\<lparr>raw_security := map_option (\<lambda>s. s\<lparr>dma_bypass := Some True\<rparr>) (raw_security raw)\<rparr>"

definition with_profile :: "string \<Rightarrow> raw_policy \<Rightarrow> raw_policy" where
  "with_profile p raw = raw\<lparr>raw_guest := map_option (\<lambda>g. g\<lparr>profile_id := Some p\<rparr>) (raw_guest raw)\<rparr>"

abbreviation policy_of :: "(bytes \<Rightarrow> bytes) \<Rightarrow> bytes \<Rightarrow> (raw_policy, string) result \<Rightarrow> (vsk_policy, policy_error) result" where
  "policy_of sha256 bs parsed \<equiv> from_plist_bytes (\<lambda>_. parsed) sha256 bs"

definition template_parses_and_denies :: "(bytes \<Rightarrow> bytes) \<Rightarrow> bytes \<Rightarrow> bool" where
  "template_parses_and_denies sha256 bs \<longleftrightarrow>
     (case policy_of sha256 bs (Inr template_raw) of
        Inl _ \<Rightarrow> False
      | Inr p \<Rightarrow>
          platform p = AppleIntelOnly \<and> require_vmx p \<and> require_ept p \<and> require_iommu p \<and>
          require_interrupt_remapping p \<and> guest_mib p = 8192 \<and> \<not> policy_boot_authorized p \<and>
          policy_deny p = (False, ''no signature verifier'') \<and>
          length (config_sha256 p) = 32 \<and> length (config_hash_hex p) = 64)"

definition required_features_gate :: "(bytes \<Rightarrow> bytes) \<Rightarrow> bytes \<Rightarrow> bool" where
  "required_features_gate sha256 bs \<longleftrightarrow>
     (case policy_of sha256 bs (Inr template_raw) of
        Inl _ \<Rightarrow> False
      | Inr p \<Rightarrow>
          required_features_present p True True True \<and> \<not> required_features_present p False True True \<and>
          \<not> required_features_present p True False True \<and> \<not> required_features_present p True True False)"

definition weakened_security_rejected :: "(bytes \<Rightarrow> bytes) \<Rightarrow> bytes \<Rightarrow> bool" where
  "weakened_security_rejected sha256 bs \<longleftrightarrow>
     (\<exists>m. policy_of sha256 bs (Inr (dma_bypassed template_raw)) = Inl (WeakenedSecurity m))"

text \<open>An unknown key is an error of the parser.\<close>

definition unknown_key_rejected :: "(bytes \<Rightarrow> bytes) \<Rightarrow> bytes \<Rightarrow> string \<Rightarrow> bool" where
  "unknown_key_rejected sha256 bs e \<longleftrightarrow> isl (policy_of sha256 bs (Inl e))"

definition unsupported_platform_rejected :: "(bytes \<Rightarrow> bytes) \<Rightarrow> bytes \<Rightarrow> bool" where
  "unsupported_platform_rejected sha256 bs \<longleftrightarrow>
     (\<exists>m. policy_of sha256 bs (Inr (template_raw\<lparr>raw_platform_policy := Some ''AnyPC''\<rparr>)) = Inl (PlatformPolicy m))"

definition unregistered_profile_rejected :: "(bytes \<Rightarrow> bytes) \<Rightarrow> bytes \<Rightarrow> bool" where
  "unregistered_profile_rejected sha256 bs \<longleftrightarrow>
     (\<exists>m. policy_of sha256 bs (Inr (with_profile ''macos28-void'' template_raw)) = Inl (GuestProfile m))"

definition grant_range_checked :: bool where
  "grant_range_checked \<longleftrightarrow>
     (let grant = vf_grant_new 0x10 0 4096; overflow = vf_grant_new 0x10 (0xFFFFFFFFFFFFFFFF - 1) 16
      in \<not> isl (range_check grant 8192) \<and> isl (range_check grant 2048) \<and>
         isl (range_check overflow 0xFFFFFFFFFFFFFFFF))"

definition bounded_key_set :: bool where
  "bounded_key_set \<longleftrightarrow>
     length (filter id [raw_platform_policy template_raw \<noteq> None, raw_cpu template_raw \<noteq> None,
       raw_security template_raw \<noteq> None, raw_memory template_raw \<noteq> None,
       raw_graphics template_raw \<noteq> None, raw_guest template_raw \<noteq> None]) \<ge> 5"

section \<open>The tests hold\<close>

lemma spec_validation_holds: spec_validation
  by (simp add: spec_validation_def spec_validate_def)

lemma iso_boot_disk_rejected_holds: iso_boot_disk_rejected
  by (simp add: iso_boot_disk_rejected_def plan_new_def spec_validate_def)

lemma xstate_domain_floor_holds: xstate_domain_floor
  by (simp add: xstate_domain_floor_def Let_def from_xcr0_def has_floored_state_def has_avx_state_def
      ise_gpr_saved_count_def XCR0_SSE4_2_FLOOR_def XCR0_X87_def XCR0_SSE_def XCR0_AVX_def)

lemma unsupported_fails_closed_holds: unsupported_fails_closed
  by (simp add: unsupported_fails_closed_def unsupported_backend_def plan_new_def spec_validate_def)

lemma detect_consistent_holds: "detect_consistent t"
  by (simp add: detect_consistent_def detect_def apple_cfg_def)

lemma probe_reports_holds: "probe_reports t probe"
  by (simp add: probe_reports_def mode_probe_def detect_def apple_cfg_def Let_def)

lemma built_plan: "plan_new \<lparr>cpu_count = c, memory_bytes = m\<rparr> disk = Inr
    \<lparr>spec = \<lparr>cpu_count = c, memory_bytes = m\<rparr>, boot_disk = disk, smbios_override = [], device_map = []\<rparr>"
  if "valid_spec \<lparr>cpu_count = c, memory_bytes = m\<rparr>" and "disk \<noteq> []"
  using that by (simp add: plan_new_def flip: spec_validate_Inr_iff [of _ "()"])

lemma launch_plan_roundtrip_holds:
  assumes "supported_target t"
  shows "launch_plan_roundtrip t"
proof -
  let ?plan = "\<lparr>spec = \<lparr>cpu_count = 8, memory_bytes = 8589934592\<rparr>, boot_disk = ''synthetic-boot.dmg'',
      smbios_override = [(''product_name'', ''Mac16,1'')], device_map = [(0x106B, 0x1E00, 0x10000)]\<rparr>"
  have "wire_plan ?plan" by (simp add: wire_plan_def valid_spec_def ascii_wire_str)
  moreover have "length (plan_encode ?plan) < 2 ^ ptr_width t"
    using assms by (auto simp: plan_encode_def len_u32_def supported_target_def)
  ultimately have "plan_decode t (plan_encode ?plan) = Returned (Inr ?plan)"
    by (simp add: plan_decode_Ok_iff)
  then show ?thesis
    by (simp add: launch_plan_roundtrip_def built_plan valid_spec_def smbios_def map_device_def)
qed

lemma decode_rejects_truncation_holds:
  assumes "ptr_width t = 64"
  shows "decode_rejects_truncation t"
proof -
  let ?plan = "\<lparr>spec = \<lparr>cpu_count = 4, memory_bytes = 1073741824\<rparr>, boot_disk = ''synthetic-boot.dmg'',
      smbios_override = [], device_map = []\<rparr>"
  define encoded where "encoded = plan_encode ?plan"
  let ?short = "take (length encoded - 1) encoded"
  have "wire_plan ?plan" by (simp add: wire_plan_def valid_spec_def ascii_wire_str)
  moreover have len: "length encoded = 42" by (simp add: encoded_def plan_encode_def len_u32_def)
  ultimately have "plan_decode t encoded = Returned (Inr ?plan)"
    using assms by (simp add: plan_decode_Ok_iff flip: encoded_def)
  then have "\<forall>p. plan_decode t ?short \<noteq> Returned (Inr p)"
    using plan_no_slack len by (metis diff_less zero_less_numeral zero_less_one)
  moreover have "plan_decode t ?short \<noteq> Panicked"
    by (rule plan_decode_no_panic) (simp add: wide_def assms len)
  ultimately have "\<exists>e. plan_decode t ?short = Returned (Inl e)"
    by (metis outcome.exhaust sum.exhaust)
  then show ?thesis
    by (auto simp: decode_rejects_truncation_def built_plan valid_spec_def Let_def simp flip: encoded_def)
qed

lemma template_policy:
  "policy_of sha256 bs (Inr template_raw) = Inr
     \<lparr>platform = AppleIntelOnly, policy_profile = None, require_vmx = True, require_ept = True,
      require_iommu = True, require_interrupt_remapping = True, guest_mib = 8192,
      host_reserve_mib = 2048, jit_cache_mib = 256, config_sha256 = sha256 bs,
      boot_authorized_field = False, denial = NoSignatureVerifier\<rparr>"
  by (simp add: from_plist_bytes_def template_raw_def normalize_platform_def check_isa_def
      normalize_profile_def unwrap_or_def eq_ignore_ascii_case_def)

lemma template_parses_and_denies_holds:
  "length (sha256 bs) = 32 \<Longrightarrow> template_parses_and_denies sha256 bs"
  by (simp add: template_parses_and_denies_def template_policy policy_boot_authorized_def policy_deny_def
      config_hash_hex_def hex_byte_def length_concat comp_def sum_list_triv)

lemma required_features_gate_holds: "required_features_gate sha256 bs"
  by (simp add: required_features_gate_def template_policy required_features_present_def)

lemma weakened_security_rejected_holds: "weakened_security_rejected sha256 bs"
  by (simp add: weakened_security_rejected_def from_plist_bytes_def template_raw_def dma_bypassed_def
      normalize_platform_def check_isa_def eq_ignore_ascii_case_def)

lemma unknown_key_rejected_holds: "unknown_key_rejected sha256 bs e"
  by (simp add: unknown_key_rejected_def from_plist_bytes_def)

lemma unsupported_platform_rejected_holds: "unsupported_platform_rejected sha256 bs"
  by (simp add: unsupported_platform_rejected_def from_plist_bytes_def normalize_platform_def)

lemma unregistered_profile_rejected_holds: "unregistered_profile_rejected sha256 bs"
  by (simp add: unregistered_profile_rejected_def from_plist_bytes_def template_raw_def with_profile_def
      normalize_platform_def check_isa_def normalize_profile_def unwrap_or_def eq_ignore_ascii_case_def)

lemma grant_range_checked_holds: grant_range_checked
  by (simp add: grant_range_checked_def Let_def range_check_def vf_grant_new_def checked_add_def)

lemma bounded_key_set_holds: bounded_key_set
  by (simp add: bounded_key_set_def template_raw_def)

end
