(* ===== verification/Envelope_Layout.thy ===== *)
theory Envelope_Layout
  imports Vf_Abi
begin

text \<open>
  The memory of \<open>VfMsgHeader\<close>, which \<open>src/vf_abi.rs\<close> declares \<open>#[repr(C)]\<close> and calls
  byte-for-byte compatible with the C header: the layout rule of \<open>repr(C)\<close> on a list of fields
  with their sizes and alignments, the memory a value then occupies, and the unit test of the
  field offsets. The alignment of \<open>u64\<close> and the byte order are those of the compilation target;
  what a padding byte holds is arbitrary.
\<close>

section \<open>The layout rule\<close>

text \<open>A field has an alignment and its bytes in memory order. Each field starts at the next
  multiple of its alignment, and the size is rounded up to the largest alignment.\<close>

type_synonym mem_field = "nat \<times> bytes"

definition align_up :: "nat \<Rightarrow> nat \<Rightarrow> nat" where
  "align_up a n = (n + a - 1) div a * a"

fun field_offsets :: "nat \<Rightarrow> mem_field list \<Rightarrow> nat list" where
  "field_offsets pos [] = []"
| "field_offsets pos ((a, bs) # fs) =
     align_up a pos # field_offsets (align_up a pos + length bs) fs"

fun fields_end :: "nat \<Rightarrow> mem_field list \<Rightarrow> nat" where
  "fields_end pos [] = pos"
| "fields_end pos ((a, bs) # fs) = fields_end (align_up a pos + length bs) fs"

definition struct_align :: "mem_field list \<Rightarrow> nat" where
  "struct_align fs = fold (\<lambda>(a, _). max a) fs 1"

definition struct_size :: "mem_field list \<Rightarrow> nat" where
  "struct_size fs = align_up (struct_align fs) (fields_end 0 fs)"

text \<open>The memory of a struct; \<open>pad i\<close> is what the padding byte at \<open>i\<close> holds.\<close>

definition padding :: "(nat \<Rightarrow> u8) \<Rightarrow> nat \<Rightarrow> nat \<Rightarrow> bytes" where
  "padding pad i j = map pad [i..<j]"

fun fields_image :: "(nat \<Rightarrow> u8) \<Rightarrow> nat \<Rightarrow> mem_field list \<Rightarrow> bytes" where
  "fields_image pad pos [] = []"
| "fields_image pad pos ((a, bs) # fs) =
     padding pad pos (align_up a pos) @ bs @ fields_image pad (align_up a pos + length bs) fs"

definition struct_image :: "(nat \<Rightarrow> u8) \<Rightarrow> mem_field list \<Rightarrow> bytes" where
  "struct_image pad fs =
     fields_image pad 0 fs @ padding pad (fields_end 0 fs) (struct_size fs)"

text \<open>Fields that already stand at a multiple of their alignment need no padding.\<close>

fun packed :: "nat \<Rightarrow> mem_field list \<Rightarrow> bool" where
  "packed pos [] \<longleftrightarrow> True"
| "packed pos ((a, bs) # fs) \<longleftrightarrow> align_up a pos = pos \<and> packed (pos + length bs) fs"

lemma fields_image_packed:
  "packed pos fs \<Longrightarrow> fields_image pad pos fs = concat (map snd fs)"
  by (induction pad pos fs rule: fields_image.induct) (simp_all add: padding_def)

lemma align_up_ge: "0 < a \<Longrightarrow> n \<le> align_up a n"
  unfolding align_up_def
  using div_mult_mod_eq [of "n + a - 1" a] mod_less_divisor [of a "n + a - 1"] by linarith

lemma end_fields_image:
  "\<forall>(a, bs) \<in> set fs. 0 < a \<Longrightarrow> pos + length (fields_image pad pos fs) = fields_end pos fs"
proof (induction pad pos fs rule: fields_image.induct)
  case (2 pad pos a bs fs)
  then have "pos \<le> align_up a pos" and "\<forall>(a, bs) \<in> set fs. 0 < a"
    by (simp_all add: align_up_ge)
  then show ?case using 2(1) by (simp add: padding_def)
qed simp

lemma struct_align_pos: "0 < struct_align fs"
proof -
  have "1 \<le> m \<Longrightarrow> 1 \<le> fold (\<lambda>(a, _). max a) fs m" for m :: nat
    by (induction fs arbitrary: m) (auto simp: le_max_iff_disj)
  from this [of 1] show ?thesis by (simp add: struct_align_def)
qed

lemma length_struct_image:
  "\<forall>(a, bs) \<in> set fs. 0 < a \<Longrightarrow> length (struct_image pad fs) = struct_size fs"
  using end_fields_image [of fs 0 pad] align_up_ge [OF struct_align_pos, of "fields_end 0 fs" fs]
  by (simp add: struct_image_def padding_def struct_size_def)

section \<open>The envelope\<close>

text \<open>An integer of \<open>n\<close> bytes in memory.\<close>

definition mem_int :: "bool \<Rightarrow> nat \<Rightarrow> 'a::len word \<Rightarrow> bytes" where
  "mem_int big n w = (if big then rev (le_bytes n w) else le_bytes n w)"

text \<open>The fields in declaration order; \<open>a64\<close> is the alignment of \<open>u64\<close>.\<close>

definition header_fields :: "nat \<Rightarrow> bool \<Rightarrow> vf_msg_header \<Rightarrow> mem_field list" where
  "header_fields a64 big h =
     [(4, mem_int big 4 (magic h)),
      (2, mem_int big 2 (abi_major h)),
      (2, mem_int big 2 (header_bytes h)),
      (4, mem_int big 4 (message_bytes h)),
      (2, mem_int big 2 (family h)),
      (2, mem_int big 2 (opcode h)),
      (a64, mem_int big 8 (request_id h)),
      (a64, mem_int big 8 (object h)),
      (a64, mem_int big 8 (payload_grant h)),
      (a64, mem_int big 8 (payload_offset h)),
      (4, mem_int big 4 (payload_bytes h)),
      (4, mem_int big 4 (flags h)),
      (a64, mem_int big 8 (reserved0 h))]"

definition layout_matches_header_offsets :: "nat \<Rightarrow> bool \<Rightarrow> vf_msg_header \<Rightarrow> bool" where
  "layout_matches_header_offsets a64 big h \<longleftrightarrow>
     field_offsets 0 (header_fields a64 big h) = [0, 4, 6, 8, 12, 14, 16, 24, 32, 40, 48, 52, 56] \<and>
     struct_size (header_fields a64 big h) = 64"

definition usual_align :: "nat \<Rightarrow> bool" where
  "usual_align a64 \<longleftrightarrow> a64 = 4 \<or> a64 = 8"

lemma length_mem_int [simp]: "length (mem_int big n w) = n"
  by (simp add: mem_int_def)

lemma align_up_simps:
  "align_up 2 n = (n + 1) div 2 * 2" "align_up 4 n = (n + 3) div 4 * 4" "align_up 8 n = (n + 7) div 8 * 8"
  by (simp_all add: align_up_def)

lemma layout_matches_header_offsets_holds:
  "usual_align a64 \<Longrightarrow> layout_matches_header_offsets a64 big h"
  by (auto simp: layout_matches_header_offsets_def usual_align_def header_fields_def align_up_simps
      struct_size_def struct_align_def)

lemma header_packed: "usual_align a64 \<Longrightarrow> packed 0 (header_fields a64 big h)"
  by (auto simp: usual_align_def header_fields_def align_up_simps)

lemma header_end: "usual_align a64 \<Longrightarrow> fields_end 0 (header_fields a64 big h) = 64"
  by (auto simp: usual_align_def header_fields_def align_up_simps)

lemma header_image:
  assumes "usual_align a64"
  shows "struct_image pad (header_fields a64 big h) = concat (map snd (header_fields a64 big h))"
  using assms layout_matches_header_offsets_holds [OF assms, of big h]
  by (simp add: struct_image_def fields_image_packed header_packed header_end padding_def
      layout_matches_header_offsets_def)

text \<open>C25: The envelope in memory is the envelope on the wire. For the usual alignments of \<open>u64\<close> and
  whatever padding bytes hold, the \<open>repr(C)\<close> layout has no padding: its fields stand at the
  offsets of the unit test and it is 64 bytes long. On a little-endian target the 64 bytes are
  exactly those \<open>encode\<close> writes, so decoding the memory gives the header back; on a big-endian
  target no header with the right magic has this property.\<close>

theorem envelope_memory_image:
  assumes "usual_align a64"
  shows "layout_matches_header_offsets a64 big h \<and>
    struct_image pad (header_fields a64 False h) = header_encode h \<and>
    header_decode (struct_image pad (header_fields a64 False h)) = Inr h \<and>
    (magic h = VF_MSG_MAGIC \<longrightarrow> struct_image pad (header_fields a64 True h) \<noteq> header_encode h)"
proof -
  have little: "struct_image pad (header_fields a64 False h) = header_encode h"
    unfolding header_image [OF assms] by (simp add: header_fields_def mem_int_def header_encode_concat)
  have "struct_image pad (header_fields a64 True h) \<noteq> header_encode h" if "magic h = VF_MSG_MAGIC"
  proof
    assume "struct_image pad (header_fields a64 True h) = header_encode h"
    then have "take 4 (concat (map snd (header_fields a64 True h))) = take 4 (header_encode h)"
      by (simp add: header_image [OF assms])
    then have "rev (le_bytes 4 (magic h)) = le_bytes 4 (magic h)"
      by (simp add: header_fields_def mem_int_def header_encode_concat)
    moreover have "rev (le_bytes 4 VF_MSG_MAGIC) \<noteq> le_bytes 4 VF_MSG_MAGIC" by code_simp
    ultimately show False by (simp only: that)
  qed
  with little layout_matches_header_offsets_holds [OF assms] show ?thesis by simp
qed

lemma envelope_memory_image_witness:
  "struct_image (\<lambda>_. 0xFF) (header_fields 8 False (header_new VF_FAMILY_SGPU VF_SGPU_PRESENT)) =
     header_encode (header_new VF_FAMILY_SGPU VF_SGPU_PRESENT) \<and>
   struct_image (\<lambda>_. 0xFF) (header_fields 4 True (header_new VF_FAMILY_SGPU VF_SGPU_PRESENT)) \<noteq>
     header_encode (header_new VF_FAMILY_SGPU VF_SGPU_PRESENT)"
  using envelope_memory_image [of 8 False "header_new VF_FAMILY_SGPU VF_SGPU_PRESENT" "\<lambda>_. 0xFF"]
    envelope_memory_image [of 4 True "header_new VF_FAMILY_SGPU VF_SGPU_PRESENT" "\<lambda>_. 0xFF"]
  by (simp add: usual_align_def header_new_def header_default_def)

end
