(* ===== verification/Session_Memory.thy ===== *)
theory Session_Memory
  imports Sgpu_Trace
begin

text \<open>
  The buffers behind an SGPU session of \<open>src/sgpu.rs\<close>. The device of the GPU crate is described
  by the buffers it holds; what the session relies on is stated as \<open>buffer_device\<close>, which the
  crate's own tests and those of \<open>sgpu.rs\<close> exercise: allocation yields a fresh zeroed buffer,
  freeing removes it, copies in range are carried out in order, and a list with a command the
  software device does not support fails as a whole. The lemmas show that live resources own
  the buffers of the device one to one, and that copies act on the guest's handles as if each
  were a buffer of its own.
\<close>

section \<open>Buffers and copies\<close>

type_synonym buffers = "u64 \<Rightarrow> bytes option"

definition same_shape :: "buffers \<Rightarrow> buffers \<Rightarrow> bool" where
  "same_shape m m' \<longleftrightarrow> (\<forall>h. map_option length (m' h) = map_option length (m h))"

definition copy_bytes :: "u64 \<Rightarrow> u64 \<Rightarrow> u64 \<Rightarrow> buffers \<Rightarrow> buffers option" where
  "copy_bytes src dst n m =
     (case (m src, m dst) of
        (Some a, Some b) \<Rightarrow>
          (if unat n \<le> length a \<and> unat n \<le> length b
           then Some (m(dst \<mapsto> take (unat n) a @ drop (unat n) b)) else None)
      | _ \<Rightarrow> None)"

fun run_copies :: "(u64 \<times> u64 \<times> u64) list \<Rightarrow> buffers \<Rightarrow> buffers option" where
  "run_copies [] m = Some m"
| "run_copies ((src, dst, n) # cs) m = Option.bind (copy_bytes src dst n m) (run_copies cs)"

fun guest_copy :: "u64 \<times> u64 \<times> u64 \<Rightarrow> sgpu_command" where
  "guest_copy (src, dst, n) = CopyBuffer src dst n"

fun device_copy :: "u64 \<times> u64 \<times> u64 \<Rightarrow> gpu_command" where
  "device_copy (src, dst, n) = Gpu_CopyBuffer src dst n"

definition is_copy :: "gpu_command \<Rightarrow> bool" where
  "is_copy c \<longleftrightarrow> (case c of Gpu_CopyBuffer _ _ _ \<Rightarrow> True | _ \<Rightarrow> False)"

section \<open>What the session relies on\<close>

text \<open>One submission to the device: a write and, if it is accepted, a flush.\<close>

definition device_submit ::
    "('d, 'v, 'm) gpu_device \<Rightarrow> gpu_command list \<Rightarrow> 'd \<Rightarrow> (unit, string) result \<times> 'd" where
  "device_submit D gs d =
     (case write_command_buffer D d gs of
        (Inl e, d') \<Rightarrow> (Inl e, d')
      | (Inr _, d') \<Rightarrow> flush_device D d')"

text \<open>\<open>bufs d\<close> are the buffers of the device \<open>d\<close>, \<open>idle d\<close> that no command is queued, and \<open>k\<close>
  how many buffers it can hold.\<close>

definition buffer_device ::
    "nat \<Rightarrow> ('d, 'v, 'm) gpu_device \<Rightarrow> ('d \<Rightarrow> buffers) \<Rightarrow> ('d \<Rightarrow> bool) \<Rightarrow> bool" where
  "buffer_device k D bufs idle \<longleftrightarrow>
     (\<forall>d n. idle d \<and> finite (dom (bufs d)) \<and> card (dom (bufs d)) < k \<longrightarrow>
        (case allocate_buffer D d n of ((gh, gn), d') \<Rightarrow>
           gn = n \<and> bufs d gh = None \<and> bufs d' = (bufs d)(gh \<mapsto> replicate (unat n) 0) \<and> idle d')) \<and>
     (\<forall>d gh. idle d \<and> bufs d gh \<noteq> None \<longrightarrow>
        (case free_buffer D d gh of (r, d') \<Rightarrow>
           r = Inr () \<and> bufs d' = (bufs d)(gh := None) \<and> idle d')) \<and>
     (\<forall>d gs. idle d \<longrightarrow>
        (case device_submit D gs d of (r, d') \<Rightarrow> same_shape (bufs d) (bufs d') \<and> idle d')) \<and>
     (\<forall>d cs m. idle d \<and> run_copies cs (bufs d) = Some m \<longrightarrow>
        (case device_submit D (map device_copy cs) d of (r, d') \<Rightarrow> r = Inr () \<and> bufs d' = m)) \<and>
     (\<forall>d gs. idle d \<and> list_ex (\<lambda>g. \<not> is_copy g) gs \<longrightarrow>
        (case device_submit D gs d of (r, d') \<Rightarrow> isl r \<and> bufs d' = bufs d))"

lemma buffer_device_allocate:
  assumes D: "buffer_device k D bufs idle" and "allocate_buffer D d n = ((gh, gn), d')" and "idle d"
    and "finite (dom (bufs d))" and "card (dom (bufs d)) < k"
  shows "gn = n \<and> bufs d gh = None \<and> bufs d' = (bufs d)(gh \<mapsto> replicate (unat n) 0) \<and> idle d'"
  using D [unfolded buffer_device_def, THEN conjunct1, rule_format, of d n] assms(2-) by simp

lemma buffer_device_free:
  assumes D: "buffer_device k D bufs idle" and "free_buffer D d gh = (r, d')" and "idle d"
    and "bufs d gh \<noteq> None"
  shows "r = Inr () \<and> bufs d' = (bufs d)(gh := None) \<and> idle d'"
  using D [unfolded buffer_device_def, THEN conjunct2, THEN conjunct1, rule_format, of d gh] assms(2-)
  by simp

lemma buffer_device_submit:
  assumes D: "buffer_device k D bufs idle" and "device_submit D gs d = (r, d')" and "idle d"
  shows "same_shape (bufs d) (bufs d')" and "idle d'"
    and "gs = map device_copy cs \<Longrightarrow> run_copies cs (bufs d) = Some m \<Longrightarrow> r = Inr () \<and> bufs d' = m"
    and "list_ex (\<lambda>g. \<not> is_copy g) gs \<Longrightarrow> isl r \<and> bufs d' = bufs d"
proof -
  note D' = D [unfolded buffer_device_def, THEN conjunct2, THEN conjunct2]
  show "same_shape (bufs d) (bufs d')" "idle d'"
    using D' [THEN conjunct1, rule_format, of d gs] assms(2,3) by simp_all
  show "gs = map device_copy cs \<Longrightarrow> run_copies cs (bufs d) = Some m \<Longrightarrow> r = Inr () \<and> bufs d' = m"
    using D' [THEN conjunct2, THEN conjunct1, rule_format, of d cs m] assms(2,3) by simp
  show "list_ex (\<lambda>g. \<not> is_copy g) gs \<Longrightarrow> isl r \<and> bufs d' = bufs d"
    using D' [THEN conjunct2, THEN conjunct2, rule_format, of d gs] assms(2,3) by simp
qed

lemma submit_device_submit:
  "submit lim D cmds s =
     (if length cmds > max_commands lim then (Err Payload, s)
      else case translate_commands s cmds of
        Inl e \<Rightarrow> (Err e, s)
      | Inr gs \<Rightarrow> (case device_submit D gs (device s) of (r, d) \<Rightarrow>
          (case r of Inl e \<Rightarrow> Err (Gpu e) | Inr _ \<Rightarrow> Ok (length cmds), s\<lparr>device := d\<rparr>)))"
  by (auto simp: submit_def device_submit_def split: sum.splits prod.splits)

section \<open>Live resources own the buffers\<close>

definition owns_buffers ::
    "sgpu_limits \<Rightarrow> ('d \<Rightarrow> buffers) \<Rightarrow> ('d \<Rightarrow> bool) \<Rightarrow> 'd sgpu_session \<Rightarrow> bool" where
  "owns_buffers lim bufs idle s \<longleftrightarrow>
     session_inv lim s \<and> idle (device s) \<and>
     (\<forall>h r. hm_get (resources s) h = Some r \<longrightarrow>
        map_option length (bufs (device s) (gpu_handle r)) = Some (unat (res_size r))) \<and>
     (\<forall>h h' r r'. hm_get (resources s) h = Some r \<and> hm_get (resources s) h' = Some r' \<and>
        gpu_handle r = gpu_handle r' \<longrightarrow> h = h') \<and>
     dom (bufs (device s)) = gpu_handle ` set (hm_values (resources s))"

text \<open>The bytes behind a guest handle.\<close>

definition contents :: "('d \<Rightarrow> buffers) \<Rightarrow> 'd sgpu_session \<Rightarrow> buffers" where
  "contents bufs s h = Option.bind (hm_get (resources s) h) (\<lambda>r. bufs (device s) (gpu_handle r))"

lemma owns_new: "idle d \<Longrightarrow> bufs d = Map.empty \<Longrightarrow> owns_buffers lim bufs idle (session_new d)"
  using session_inv_new [of lim d]
  by (simp add: owns_buffers_def) (simp add: session_new_def hm.get_empty hm.vals_empty)

lemma contents_new: "contents bufs (session_new d) = Map.empty"
  by (simp add: contents_def session_new_def hm.get_empty fun_eq_iff)

lemma contents_simps:
  "hm_get (resources s) h = None \<Longrightarrow> contents bufs s h = None"
  "hm_get (resources s) h = Some r \<Longrightarrow> contents bufs s h = bufs (device s) (gpu_handle r)"
  by (simp_all add: contents_def)

lemma value_image:
  assumes "hm_inv m"
  shows "x \<in> f ` set (hm_values m) \<longleftrightarrow> (\<exists>h r. hm_get m h = Some r \<and> f r = x)"
  unfolding image_iff Bex_def hm.vals_iff [OF assms] by blast

lemma owned_handle:
  assumes "owns_buffers lim bufs idle s"
  shows "gh \<in> dom (bufs (device s)) \<longleftrightarrow> (\<exists>h r. hm_get (resources s) h = Some r \<and> gpu_handle r = gh)"
proof -
  have "hm_inv (resources s)" and "dom (bufs (device s)) = gpu_handle ` set (hm_values (resources s))"
    using assms by (simp_all add: owns_buffers_def session_inv_def)
  then show ?thesis by (simp add: value_image)
qed

lemma owned_size:
  "owns_buffers lim bufs idle s \<Longrightarrow> hm_get (resources s) h = Some r \<Longrightarrow>
    map_option length (bufs (device s) (gpu_handle r)) = Some (unat (res_size r))"
  unfolding owns_buffers_def by blast

lemma owned_once:
  "owns_buffers lim bufs idle s \<Longrightarrow> hm_get (resources s) h = Some r \<Longrightarrow>
    hm_get (resources s) h' = Some r' \<Longrightarrow> gpu_handle r = gpu_handle r' \<Longrightarrow> h = h'"
  unfolding owns_buffers_def by blast

lemma owned_card:
  assumes "owns_buffers lim bufs idle s"
  shows "finite (dom (bufs (device s)))" and "card (dom (bufs (device s))) \<le> hm_len (resources s)"
proof -
  have dom: "dom (bufs (device s)) = gpu_handle ` set (hm_values (resources s))"
    and m: "hm_inv (resources s)"
    using assms by (simp_all add: owns_buffers_def session_inv_def)
  have "card (gpu_handle ` set (hm_values (resources s))) \<le> length (hm_values (resources s))"
    using card_image_le [of "set (hm_values (resources s))" gpu_handle]
      card_length [of "hm_values (resources s)"] by simp
  then show "finite (dom (bufs (device s)))" "card (dom (bufs (device s))) \<le> hm_len (resources s)"
    by (simp_all add: dom hm.len_vals [OF m])
qed


lemma owns_create:
  assumes D: "buffer_device (max_resources lim) D bufs idle" "alloc_exact D"
    and own: "owns_buffers lim bufs idle s" and step: "create_resource t lim D n s = (r, s')"
  shows "owns_buffers lim bufs idle s' \<and>
    contents bufs s' = (case r of Inl _ \<Rightarrow> contents bufs s
      | Inr q \<Rightarrow> (contents bufs s)(sgp_handle q \<mapsto> replicate (unat n) 0))"
proof (cases "n \<noteq> 0 \<and> can_create t lim n s")
  case False
  with step own show ?thesis by (auto simp: create_resource_eq split: if_splits)
next
  case True
  let ?id = "next_resource_id s" and ?q = "created D n s"
  obtain gh gn d where al: "allocate_buffer D (device s) n = ((gh, gn), d)" by (metis surj_pair)
  have inv: "session_inv lim s" and m: "hm_inv (resources s)" and idle: "idle (device s)"
    using own by (simp_all add: owns_buffers_def session_inv_def)
  have room: "card (dom (bufs (device s))) < max_resources lim"
    using owned_card(2) [OF own] True by (simp add: can_create_def)
  note buf = buffer_device_allocate [OF D(1) al idle owned_card(1) [OF own] room]
  have q: "gpu_handle ?q = gh" "res_size ?q = n" using buf by (simp_all add: created_def al)
  have r: "r = Inr ?q" and s': "s' = s\<lparr>device := d, next_resource_id := ?id + 1,
      resources := hm_insert ?id ?q (resources s)\<rparr>"
    using step True by (simp_all add: create_resource_eq al)
  have fresh: "hm_get (resources s) ?id = None" by (rule session_inv_fresh [OF inv])
  have other: "gpu_handle p \<noteq> gh" if "hm_get (resources s) h = Some p" for h p
    using owned_handle [OF own, of "gpu_handle p"] that buf by auto
  have get: "hm_get (resources s') h = (if h = ?id then Some ?q else hm_get (resources s) h)" for h
    by (simp add: s' hm.get_ins [OF m])
  have "set (hm_values (resources s')) = insert ?q (set (hm_values (resources s)))"
    using arg_cong [OF hm.vals_ins [OF m fresh, of ?q], of set_mset] by (simp add: s')
  moreover have "map_option length (bufs d (gpu_handle p)) = Some (unat (res_size p))"
    if "hm_get (resources s') h = Some p" for h p
  proof (cases "h = ?id")
    case True
    then have "p = ?q" using that by (simp add: get)
    then show ?thesis using buf by (simp add: q)
  next
    case False
    then have "hm_get (resources s) h = Some p" using that by (simp add: get)
    then show ?thesis using owned_size [OF own] other buf by simp
  qed
  moreover have "h = h'" if "hm_get (resources s') h = Some p" "hm_get (resources s') h' = Some p'"
      "gpu_handle p = gpu_handle p'" for h h' p p'
    using that owned_once [OF own, of h p h' p'] other [of h p] other [of h' p']
    by (auto simp: get q split: if_splits)
  ultimately have "owns_buffers lim bufs idle s'"
    using own buf session_inv_create [OF D(2) inv step] by (auto simp: owns_buffers_def s' q)
  moreover have "contents bufs s' h = ((contents bufs s)(?id \<mapsto> replicate (unat n) 0)) h" for h
    using buf other [of h]
    by (cases "hm_get (resources s) h") (simp_all add: contents_def get q, simp_all add: s')
  ultimately show ?thesis by (simp add: r fun_eq_iff)
qed

lemma owns_destroy:
  assumes D: "buffer_device (max_resources lim) D bufs idle"
    and own: "owns_buffers lim bufs idle s" and step: "destroy_resource D h s = (r, s')"
  shows "owns_buffers lim bufs idle s' \<and> contents bufs s' = (contents bufs s)(h := None) \<and>
    (r = Inr () \<longleftrightarrow> hm_get (resources s) h \<noteq> None)"
proof (cases "hm_get (resources s) h")
  case None
  then have "contents bufs s = (contents bufs s)(h := None)" by (auto simp: contents_def)
  with None step own show ?thesis by (auto simp: destroy_resource_eq)
next
  case (Some q)
  obtain u d where fr: "free_buffer D (device s) (gpu_handle q) = (u, d)" by (metis surj_pair)
  have m: "hm_inv (resources s)" and idle: "idle (device s)"
    using own by (simp_all add: owns_buffers_def session_inv_def)
  have "bufs (device s) (gpu_handle q) \<noteq> None" using owned_size [OF own Some] by auto
  note buf = buffer_device_free [OF D fr idle this]
  have s': "s' = s\<lparr>resources := hm_remove h (resources s), device := d\<rparr>" and r: "r = Inr ()"
    using step Some fr buf by (auto simp: destroy_resource_eq)
  have get: "hm_get (resources s') k = (if k = h then None else hm_get (resources s) k)" for k
    by (simp add: s' hm.get_rem [OF m])
  have other: "gpu_handle p \<noteq> gpu_handle q" if "hm_get (resources s) k = Some p" "k \<noteq> h" for k p
    using owned_once [OF own that(1) Some] that(2) by auto
  have "x \<in> dom (bufs d) \<longleftrightarrow> x \<in> gpu_handle ` set (hm_values (resources s'))" for x
  proof -
    have "x \<in> dom (bufs d) \<longleftrightarrow> x \<noteq> gpu_handle q \<and> (\<exists>k p. hm_get (resources s) k = Some p \<and> gpu_handle p = x)"
      using buf owned_handle [OF own, of x] by auto
    also have "\<dots> \<longleftrightarrow> (\<exists>k p. hm_get (resources s') k = Some p \<and> gpu_handle p = x)"
      using other Some by (auto simp: get) (metis option.inject)
    also have "\<dots> \<longleftrightarrow> x \<in> gpu_handle ` set (hm_values (resources s'))"
      by (simp add: s' value_image [OF hm.inv_rem [OF m]])
    finally show ?thesis .
  qed
  moreover have "map_option length (bufs d (gpu_handle p)) = Some (unat (res_size p))"
    if "hm_get (resources s') k = Some p" for k p
    using that owned_size [OF own, of k p] other [of k p] buf by (auto simp: get split: if_splits)
  moreover have "k = k'" if "hm_get (resources s') k = Some p" "hm_get (resources s') k' = Some p'"
      "gpu_handle p = gpu_handle p'" for k k' p p'
    using that owned_once [OF own, of k p k' p'] by (auto simp: get split: if_splits)
  ultimately have "owns_buffers lim bufs idle s'"
    using own buf session_inv_destroy [OF _ step] by (auto simp: owns_buffers_def s')
  moreover have "contents bufs s' k = ((contents bufs s)(h := None)) k" for k
    using buf other [of k]
    by (cases "hm_get (resources s) k") (simp_all add: contents_def get, simp_all add: s')
  ultimately show ?thesis using Some r by (simp add: fun_eq_iff)
qed

section \<open>Submissions\<close>

lemma owns_device:
  assumes own: "owns_buffers lim bufs idle s" and shape: "same_shape (bufs (device s)) (bufs d)" and "idle d"
  shows "owns_buffers lim bufs idle (s\<lparr>device := d\<rparr>)"
proof -
  have len: "map_option length (bufs d h) = map_option length (bufs (device s) h)" for h
    using shape by (simp add: same_shape_def)
  have "h \<in> dom (bufs d) \<longleftrightarrow> h \<in> dom (bufs (device s))" for h
    using len [of h] by (metis domIff map_option_is_None)
  then have "dom (bufs d) = gpu_handle ` set (hm_values (resources s))"
    using own by (auto simp: owns_buffers_def)
  with own assms(3) show ?thesis unfolding owns_buffers_def by (simp add: len)
qed

lemma copy_guest:
  assumes own: "owns_buffers lim bufs idle s"
    and view: "\<And>h. v h = Option.bind (hm_get (resources s) h) (\<lambda>r. b (gpu_handle r))"
    and copy: "copy_bytes src dst n v = Some m"
  obtains r q b' where "hm_get (resources s) src = Some r" and "hm_get (resources s) dst = Some q"
    and "copy_bytes (gpu_handle r) (gpu_handle q) n b = Some b'"
    and "\<And>h. m h = Option.bind (hm_get (resources s) h) (\<lambda>r. b' (gpu_handle r))"
proof -
  obtain x y where v: "v src = Some x" "v dst = Some y" "unat n \<le> length x" "unat n \<le> length y"
    and m: "m = v(dst \<mapsto> take (unat n) x @ drop (unat n) y)"
    using copy by (auto simp: copy_bytes_def split: option.splits if_splits)
  obtain r where r: "hm_get (resources s) src = Some r" "b (gpu_handle r) = Some x"
    using v(1) view [of src] by (cases "hm_get (resources s) src") auto
  obtain q where q: "hm_get (resources s) dst = Some q" "b (gpu_handle q) = Some y"
    using v(2) view [of dst] by (cases "hm_get (resources s) dst") auto
  let ?b = "b(gpu_handle q \<mapsto> take (unat n) x @ drop (unat n) y)"
  have "m h = Option.bind (hm_get (resources s) h) (\<lambda>r. ?b (gpu_handle r))" for h
  proof (cases "hm_get (resources s) h")
    case None
    then have "h \<noteq> dst" using q by auto
    with None view [of h] show ?thesis by (simp add: m)
  next
    case (Some p)
    then show ?thesis
      using owned_once [OF own Some q(1)] q(1) view [of h] by (auto simp: m)
  qed
  then show ?thesis
    using r q v by (intro that [of r q ?b]) (simp_all add: copy_bytes_def)
qed

lemma run_copies_guest:
  assumes own: "owns_buffers lim bufs idle s"
  shows "run_copies cs v = Some m \<Longrightarrow>
    (\<And>h. v h = Option.bind (hm_get (resources s) h) (\<lambda>r. b (gpu_handle r))) \<Longrightarrow>
    \<exists>gs b'. translate_commands s (map guest_copy cs) = Inr (map device_copy gs) \<and>
      run_copies gs b = Some b' \<and>
      (\<forall>h. m h = Option.bind (hm_get (resources s) h) (\<lambda>r. b' (gpu_handle r)))"
proof (induction cs arbitrary: v b)
  case Nil
  from Nil(1) have "m = v" by simp
  with Nil(2) show ?case by (intro exI [of _ "[]"] exI [of _ b]) simp
next
  case (Cons c cs)
  obtain src dst n where c: "c = (src, dst, n)" by (cases c)
  obtain v1 where v1: "copy_bytes src dst n v = Some v1" "run_copies cs v1 = Some m"
    using Cons.prems(1) by (auto simp: c bind_eq_Some_conv)
  obtain r q b1 where b1: "hm_get (resources s) src = Some r" "hm_get (resources s) dst = Some q"
      "copy_bytes (gpu_handle r) (gpu_handle q) n b = Some b1"
      "\<And>h. v1 h = Option.bind (hm_get (resources s) h) (\<lambda>r. b1 (gpu_handle r))"
    by (rule copy_guest [OF own Cons.prems(2) v1(1)]) (rule that)
  obtain gs b' where "translate_commands s (map guest_copy cs) = Inr (map device_copy gs)"
      "run_copies gs b1 = Some b'"
      "\<forall>h. m h = Option.bind (hm_get (resources s) h) (\<lambda>r. b' (gpu_handle r))"
    using Cons.IH [OF v1(2) b1(4)] by blast
  then show ?case
    using b1 by (intro exI [of _ "(gpu_handle r, gpu_handle q, n) # gs"] exI [of _ b'])
      (simp add: c lookup_gpu_handle_def)
qed

lemma translate_keeps_kind:
  "translate_commands s cmds = Inr gs \<Longrightarrow>
    list_ex (\<lambda>g. \<not> is_copy g) gs \<longleftrightarrow> list_ex (\<lambda>c. \<forall>a b n. c \<noteq> CopyBuffer a b n) cmds"
proof (induction cmds arbitrary: gs)
  case (Cons c cmds)
  then obtain g gs' where g: "translate_command s c = Inr g" "gs = g # gs'"
      "translate_commands s cmds = Inr gs'"
    by (auto simp: result_simps)
  have "is_copy g \<longleftrightarrow> (\<exists>a b n. c = CopyBuffer a b n)"
    using g(1) by (cases c) (auto simp: result_simps is_copy_def)
  with Cons.IH [OF g(3)] g(2) show ?case by auto
qed simp

lemma contents_device:
  "contents bufs (s\<lparr>device := d\<rparr>) h = Option.bind (hm_get (resources s) h) (\<lambda>r. bufs d (gpu_handle r))"
  by (simp add: contents_def)

lemma owns_submit:
  assumes D: "buffer_device (max_resources lim) D bufs idle"
    and own: "owns_buffers lim bufs idle s" and step: "submit lim D cmds s = (r, s')"
  shows "owns_buffers lim bufs idle s'"
    and "cmds = map guest_copy cs \<Longrightarrow> run_copies cs (contents bufs s) = Some m \<Longrightarrow>
      length cs \<le> max_commands lim \<Longrightarrow> r = Inr (length cs) \<and> contents bufs s' = m"
    and "list_ex (\<lambda>c. \<forall>a b n. c \<noteq> CopyBuffer a b n) cmds \<Longrightarrow> isl r \<and> contents bufs s' = contents bufs s"
proof -
  have idle: "idle (device s)" using own by (simp add: owns_buffers_def)
  have "owns_buffers lim bufs idle (s\<lparr>device := d\<rparr>)" if "device_submit D gs (device s) = (u, d)" for gs u d
    by (rule owns_device [OF own buffer_device_submit(1,2) [OF D that idle]])
  then show "owns_buffers lim bufs idle s'"
    using step own by (auto simp: submit_device_submit split: if_splits sum.splits prod.splits)
  show "r = Inr (length cs) \<and> contents bufs s' = m"
    if cmds: "cmds = map guest_copy cs" and m: "run_copies cs (contents bufs s) = Some m"
      and "length cs \<le> max_commands lim"
  proof -
    obtain gs b' where gs: "translate_commands s (map guest_copy cs) = Inr (map device_copy gs)"
        "run_copies gs (bufs (device s)) = Some b'"
      and view: "\<And>h. m h = Option.bind (hm_get (resources s) h) (\<lambda>r. b' (gpu_handle r))"
      using run_copies_guest [OF own m contents_def] by blast
    obtain u d where d: "device_submit D (map device_copy gs) (device s) = (u, d)" by (metis surj_pair)
    have "u = Inr () \<and> bufs d = b'" by (rule buffer_device_submit(3) [OF D d idle refl gs(2)])
    then show ?thesis
      using step that gs d view
      by (auto simp: submit_device_submit contents_device fun_eq_iff)
  qed
  show "isl r \<and> contents bufs s' = contents bufs s"
    if bad: "list_ex (\<lambda>c. \<forall>a b n. c \<noteq> CopyBuffer a b n) cmds"
  proof (cases "length cmds \<le> max_commands lim \<and> (\<exists>gs. translate_commands s cmds = Inr gs)")
    case True
    then obtain gs where gs: "translate_commands s cmds = Inr gs" by blast
    obtain u d where d: "device_submit D gs (device s) = (u, d)" by (metis surj_pair)
    have "isl u \<and> bufs d = bufs (device s)"
      using bad gs by (intro buffer_device_submit(4) [OF D d idle]) (simp add: translate_keeps_kind)
    then show ?thesis
      using step True gs d by (cases u) (auto simp: submit_device_submit contents_device contents_def fun_eq_iff)
  next
    case False
    then show ?thesis
      using step by (auto simp: submit_device_submit split: if_splits sum.splits)
  qed
qed

section \<open>Runs\<close>

text \<open>Every public operation is a step; between two operations the caller may write to the
  buffers through the public \<open>device\<close> field, which changes their bytes only.\<close>

inductive memory_trace ::
    "target \<Rightarrow> sgpu_limits \<Rightarrow> ('v, 'm) gpu_enums \<Rightarrow> ('d, 'v, 'm) gpu_device \<Rightarrow>
     (bytes \<Rightarrow> sgpu_command list option) \<Rightarrow> ('d \<Rightarrow> buffers) \<Rightarrow> ('d \<Rightarrow> bool) \<Rightarrow> 'd sgpu_session \<Rightarrow> bool"
  for t lim g D dec bufs idle where
  start: "idle d \<Longrightarrow> bufs d = Map.empty \<Longrightarrow> memory_trace t lim g D dec bufs idle (session_new d)"
| bytes: "memory_trace t lim g D dec bufs idle s \<Longrightarrow> same_shape (bufs (device s)) (bufs d) \<Longrightarrow> idle d \<Longrightarrow>
    memory_trace t lim g D dec bufs idle (s\<lparr>device := d\<rparr>)"
| create: "memory_trace t lim g D dec bufs idle s \<Longrightarrow> create_resource t lim D n s = (r, s') \<Longrightarrow>
    memory_trace t lim g D dec bufs idle s'"
| destroy: "memory_trace t lim g D dec bufs idle s \<Longrightarrow> destroy_resource D h s = (u, s') \<Longrightarrow>
    memory_trace t lim g D dec bufs idle s'"
| submit: "memory_trace t lim g D dec bufs idle s \<Longrightarrow> submit lim D cmds s = (k, s') \<Longrightarrow>
    memory_trace t lim g D dec bufs idle s'"
| present: "memory_trace t lim g D dec bufs idle s \<Longrightarrow> present lim D h s = (u, s') \<Longrightarrow>
    memory_trace t lim g D dec bufs idle s'"
| dispatch: "memory_trace t lim g D dec bufs idle s \<Longrightarrow> dispatch t lim g D dec f s = (q, s') \<Longrightarrow>
    memory_trace t lim g D dec bufs idle s'"

lemma owns_present:
  assumes "buffer_device (max_resources lim) D bufs idle" and "owns_buffers lim bufs idle s"
    and "present lim D h s = (r, s')"
  shows "owns_buffers lim bufs idle s'"
  using assms(3) owns_submit(1) [OF assms(1,2)]
  by (auto simp: present_def split: sum.splits prod.splits)

lemma trace_owns:
  assumes "memory_trace t lim g D dec bufs idle s"
    and D: "buffer_device (max_resources lim) D bufs idle" "alloc_exact D"
  shows "owns_buffers lim bufs idle s"
  using assms(1)
proof (induction rule: memory_trace.induct)
  case (start d)
  then show ?case by (rule owns_new)
next
  case (bytes s d)
  then show ?case by (blast intro: owns_device)
next
  case (create s n r s')
  then show ?case by (blast dest: owns_create [OF D])
next
  case (destroy s h u s')
  then show ?case by (blast dest: owns_destroy [OF D(1)])
next
  case (submit s cmds k s')
  then show ?case by (blast intro: owns_submit(1) [OF D(1)])
next
  case (present s h u s')
  then show ?case by (blast intro: owns_present [OF D(1)])
next
  case (dispatch s f q s')
  note own = dispatch.IH
  from dispatch.hyps(2) show ?case
    by (cases rule: dispatch_cases)
      (use own in \<open>auto dest: owns_create [OF D own] owns_destroy [OF D(1) own]
        intro: owns_submit(1) [OF D(1) own] owns_present [OF D(1) own]\<close>)
qed

section \<open>A device for examples\<close>

text \<open>Buffers in a list, each with the first unused of 65 handles.\<close>

definition fresh_handle :: "(u64 \<times> bytes) list \<Rightarrow> u64" where
  "fresh_handle d =
     (case find (\<lambda>h. map_of d h = None) (map word_of_nat [1..<66]) of Some h \<Rightarrow> h | None \<Rightarrow> 0)"

fun list_copies :: "gpu_command list \<Rightarrow> (u64 \<times> bytes) list \<Rightarrow> (u64 \<times> bytes) list option" where
  "list_copies [] d = Some d"
| "list_copies (Gpu_CopyBuffer src dst n # gs) d =
     (case (map_of d src, map_of d dst) of
        (Some a, Some b) \<Rightarrow>
          (if unat n \<le> length a \<and> unat n \<le> length b
           then list_copies gs (AList.update dst (take (unat n) a @ drop (unat n) b) d) else None)
      | _ \<Rightarrow> None)"
| "list_copies (_ # gs) d = None"

definition list_device :: "((u64 \<times> bytes) list, nat, nat) gpu_device" where
  "list_device =
     \<lparr>spec_vendor = (\<lambda>_. 0), spec_metal_version = (\<lambda>_. 2), spec_vram_size = (\<lambda>_. 4194304),
      spec_max_threads = (\<lambda>_. 1), is_software_accelerated = (\<lambda>_. True),
      allocate_buffer = (\<lambda>d n. ((fresh_handle d, n), AList.update (fresh_handle d) (replicate (unat n) 0) d)),
      free_buffer = (\<lambda>d gh. (Inr (), AList.delete gh d)),
      write_command_buffer = (\<lambda>d gs. case list_copies gs d of
        None \<Rightarrow> (Inl ''unsupported command'', d) | Some d' \<Rightarrow> (Inr (), d')),
      flush_device = (\<lambda>d. (Inr (), d))\<rparr>"

lemma fresh_handle_unused:
  assumes "card (dom (map_of d)) < 64"
  shows "map_of d (fresh_handle d) = None"
proof (cases "find (\<lambda>h. map_of d h = None) (map word_of_nat [1..<66] :: u64 list)")
  case None
  let ?hs = "word_of_nat ` {1..<66} :: u64 set"
  have "?hs \<subseteq> dom (map_of d)" using None by (auto simp: find_None_iff)
  then have "card ?hs < 64" using card_mono [OF finite_dom_map_of, of ?hs d] assms by simp
  moreover have "card ?hs = 65"
    by (subst card_image) (auto intro!: inj_onI simp: word_unat_eq_iff unat_of_nat)
  ultimately show ?thesis by simp
next
  case (Some h)
  then have "map_of d h = None" by (auto simp: find_Some_iff)
  moreover have "fresh_handle d = h" unfolding fresh_handle_def Some by simp
  ultimately show ?thesis by simp
qed

lemma list_copies_shape: "list_copies gs d = Some d' \<Longrightarrow> same_shape (map_of d) (map_of d')"
proof (induction gs d rule: list_copies.induct)
  case (2 src dst n gs d)
  then show ?case
    by (auto simp: same_shape_def update_conv' split: option.splits if_splits)
qed (simp_all add: same_shape_def)

lemma list_copies_run:
  "run_copies cs (map_of d) = Some m \<Longrightarrow>
    \<exists>d'. list_copies (map device_copy cs) d = Some d' \<and> map_of d' = m"
proof (induction cs arbitrary: d)
  case (Cons c cs)
  obtain src dst n where c: "c = (src, dst, n)" by (cases c)
  obtain a b where ab: "map_of d src = Some a" "map_of d dst = Some b" "unat n \<le> length a" "unat n \<le> length b"
      "run_copies cs ((map_of d)(dst \<mapsto> take (unat n) a @ drop (unat n) b)) = Some m"
    using Cons.prems by (auto simp: c copy_bytes_def bind_eq_Some_conv split: option.splits if_splits)
  let ?d = "AList.update dst (take (unat n) a @ drop (unat n) b) d"
  have "run_copies cs (map_of ?d) = Some m" using ab(5) by (simp only: update_conv')
  from Cons.IH [OF this] show ?case using ab by (simp add: c)
qed simp

lemma list_copies_unsupported: "list_ex (\<lambda>g. \<not> is_copy g) gs \<Longrightarrow> list_copies gs d = None"
  by (induction gs d rule: list_copies.induct) (auto simp: is_copy_def split: option.splits)

lemma device_submit_list:
  "device_submit list_device gs d =
     (case list_copies gs d of None \<Rightarrow> (Inl ''unsupported command'', d) | Some d' \<Rightarrow> (Inr (), d'))"
  by (simp add: device_submit_def list_device_def split: option.splits)

lemma alloc_exact_list: "alloc_exact list_device"
  by (simp add: alloc_exact_def list_device_def)

lemma buffer_device_list: "buffer_device 64 list_device map_of (\<lambda>_. True)"
proof -
  have "case allocate_buffer list_device d n of ((gh, gn), d') \<Rightarrow>
      gn = n \<and> map_of d gh = None \<and> map_of d' = (map_of d)(gh \<mapsto> replicate (unat n) 0)"
    if "card (dom (map_of d)) < 64" for d n
    using fresh_handle_unused [OF that] by (simp add: list_device_def update_conv')
  moreover have "case free_buffer list_device d gh of (r, d') \<Rightarrow>
      r = Inr () \<and> map_of d' = (map_of d)(gh := None)" for d gh
    by (simp add: list_device_def delete_conv')
  moreover have "case device_submit list_device gs d of (r, d') \<Rightarrow> same_shape (map_of d) (map_of d')" for gs d
    using list_copies_shape [of gs d]
    by (cases "list_copies gs d") (simp_all add: device_submit_list same_shape_def)
  moreover have "case device_submit list_device (map device_copy cs) d of (r, d') \<Rightarrow> r = Inr () \<and> map_of d' = m"
    if "run_copies cs (map_of d) = Some m" for cs d m
    using list_copies_run [OF that] by (auto simp: device_submit_list)
  moreover have "case device_submit list_device gs d of (r, d') \<Rightarrow> isl r \<and> map_of d' = map_of d"
    if "list_ex (\<lambda>g. \<not> is_copy g) gs" for gs d
    by (simp add: device_submit_list list_copies_unsupported [OF that])
  ultimately show ?thesis unfolding buffer_device_def by simp
qed

definition list_session :: "(u64 \<times> bytes) list sgpu_session" where
  "list_session = snd (create_resource mac_target sample_limits list_device 3 (session_new []))"

lemma list_session_create:
  "create_resource mac_target sample_limits list_device 3 (session_new []) =
     (Inr (created list_device 3 (session_new [])), list_session)"
  by (simp add: list_session_def create_resource_eq can_create_sample)

lemma list_session_trace:
  "memory_trace mac_target sample_limits sample_enums list_device dec map_of (\<lambda>_. True) list_session"
  by (rule memory_trace.create [OF memory_trace.start list_session_create]) simp_all

lemma buffer_device_sample: "buffer_device (max_resources sample_limits) list_device map_of (\<lambda>_. True)"
  using buffer_device_list by (simp add: sample_limits_def)

lemma list_session_contents: "contents map_of list_session = [1 \<mapsto> [0, 0, 0]]"
proof -
  have "owns_buffers sample_limits map_of (\<lambda>_. True) (session_new [] :: (u64 \<times> bytes) list sgpu_session)"
    by (rule owns_new) simp_all
  from owns_create [OF buffer_device_sample alloc_exact_list this list_session_create]
  have "contents map_of list_session =
      (contents map_of (session_new []))(next_resource_id (session_new ([] :: (u64 \<times> bytes) list)) \<mapsto> replicate 3 0)"
    by simp
  moreover have "replicate 3 (0 :: u8) = [0, 0, 0]" by (simp add: numeral_eq_Suc)
  ultimately show ?thesis by (simp only: contents_new) (simp add: session_new_def)
qed

section \<open>Properties\<close>

text \<open>C4: Resources are isolated. Over a device that allocates fresh buffers, in every state a
  session can reach through direct calls, dispatched frames and writes to the buffers, every live
  resource has a device buffer of exactly its size, no two live resources share one, and the
  device holds no other buffer, so a destroyed resource leaks nothing.\<close>

theorem resources_isolated:
  assumes "memory_trace t lim g D dec bufs idle s"
    and "buffer_device (max_resources lim) D bufs idle" and "alloc_exact D"
  shows "(\<forall>h r. hm_get (resources s) h = Some r \<longrightarrow>
      (\<exists>bs. bufs (device s) (gpu_handle r) = Some bs \<and> length bs = unat (res_size r))) \<and>
    (\<forall>h h' r r'. hm_get (resources s) h = Some r \<and> hm_get (resources s) h' = Some r' \<and> h \<noteq> h' \<longrightarrow>
      gpu_handle r \<noteq> gpu_handle r') \<and>
    (\<forall>gh. bufs (device s) gh \<noteq> None \<longrightarrow>
      (\<exists>h r. hm_get (resources s) h = Some r \<and> gpu_handle r = gh))"
proof -
  have own: "owns_buffers lim bufs idle s" by (rule trace_owns [OF assms])
  have "\<exists>bs. bufs (device s) (gpu_handle r) = Some bs \<and> length bs = unat (res_size r)"
    if "hm_get (resources s) h = Some r" for h r
    using owned_size [OF own that] by (simp add: map_option_eq_Some)
  moreover have "\<exists>h r. hm_get (resources s) h = Some r \<and> gpu_handle r = gh"
    if "bufs (device s) gh \<noteq> None" for gh
    using owned_handle [OF own, of gh] that by (simp add: domIff)
  ultimately show ?thesis using owned_once [OF own] by blast
qed

lemma resources_isolated_witness:
  "\<exists>r bs. hm_get (resources list_session) 1 = Some r \<and>
     map_of (device list_session) (gpu_handle r) = Some bs \<and> length bs = unat (res_size r)"
proof -
  note isolated = resources_isolated [OF list_session_trace buffer_device_sample alloc_exact_list,
      THEN conjunct1, rule_format]
  have "contents map_of list_session 1 \<noteq> None" by (simp add: list_session_contents)
  then obtain r where "hm_get (resources list_session) 1 = Some r"
    by (auto simp: contents_def bind_eq_Some_conv)
  with isolated show ?thesis by blast
qed

text \<open>C5: The session implements a flat memory of guest handles. In every reachable state over
  such a device, an accepted creation adds a zeroed buffer under the new handle, a destroy removes
  exactly the destroyed one, a submission of copies in range succeeds with the count of its
  commands and has the effect of the same copies on the guest's handles, self copies included,
  and a submission with a command the device does not support fails and changes no byte.\<close>

theorem session_memory_exact:
  assumes "memory_trace t lim g D dec bufs idle s"
    and "buffer_device (max_resources lim) D bufs idle" and "alloc_exact D"
  shows "(create_resource t lim D n s = (Inr q, s1) \<longrightarrow>
      contents bufs s1 = (contents bufs s)(sgp_handle q \<mapsto> replicate (unat n) 0)) \<and>
    (destroy_resource D h s = (u, s2) \<longrightarrow> contents bufs s2 = (contents bufs s)(h := None)) \<and>
    (submit lim D (map guest_copy cs) s = (k, s3) \<and> length cs \<le> max_commands lim \<and>
      run_copies cs (contents bufs s) = Some m \<longrightarrow> k = Inr (length cs) \<and> contents bufs s3 = m) \<and>
    (submit lim D cmds s = (k', s4) \<and> list_ex (\<lambda>c. \<forall>a b n. c \<noteq> CopyBuffer a b n) cmds \<longrightarrow>
      isl k' \<and> contents bufs s4 = contents bufs s)"
proof -
  have own: "owns_buffers lim bufs idle s" by (rule trace_owns [OF assms])
  show ?thesis
    using owns_create [OF assms(2,3) own, of t n "Inr q" s1] owns_destroy [OF assms(2) own, of h u s2]
      owns_submit(2) [OF assms(2) own, of "map guest_copy cs" k s3 cs m]
      owns_submit(3) [OF assms(2) own, of cmds k' s4]
    by simp
qed

lemma session_memory_exact_witness:
  "fst (submit sample_limits list_device [CopyBuffer 1 1 2] list_session) = Inr 1 \<and>
   contents map_of (snd (submit sample_limits list_device [CopyBuffer 1 1 2] list_session)) = [1 \<mapsto> [0, 0, 0]]"
proof -
  note exact = session_memory_exact [OF list_session_trace buffer_device_sample alloc_exact_list,
      THEN conjunct2, THEN conjunct2, THEN conjunct1, rule_format]
  obtain k s' where k: "submit sample_limits list_device [CopyBuffer 1 1 2] list_session = (k, s')"
    by (metis surj_pair)
  have "run_copies [(1, 1, 2)] (contents map_of list_session) = Some [1 \<mapsto> [0, 0, 0]]"
    by (simp add: list_session_contents copy_bytes_def)
  with exact [of "[(1, 1, 2)]" k s'] k show ?thesis by (simp add: sample_limits_def)
qed

end
