(* ===== verification/Memory_Tests.thy ===== *)
theory Memory_Tests
  imports Session_Tests Session_Memory
begin

text \<open>
  The unit tests of \<open>src/sgpu.rs\<close> that move data through device memory, read as propositions
  about the model like those of Session_Tests: a copy between two resources, the same through
  wire frames, and a submission that must fail without a partial copy. They hold over every
  device that satisfies \<open>buffer_device\<close> and whose memory can be read and written in range.
\<close>

section \<open>The tests\<close>

definition copy_executes ::
    "target \<Rightarrow> sgpu_limits \<Rightarrow> ('d, 'v, 'm) gpu_device \<Rightarrow> 'd device_memory \<Rightarrow> 'd \<Rightarrow> bool" where
  "copy_executes t lim D M d \<longleftrightarrow>
     (case create_resource t lim D 256 (session_new d) of
        (Inl _, _) \<Rightarrow> False
      | (Inr src, s) \<Rightarrow>
     (case create_resource t lim D 256 s of
        (Inl _, _) \<Rightarrow> False
      | (Inr dst, s) \<Rightarrow>
         let (written, dev) = mem_write M (device s) (gpu_handle src) 0 (replicate 256 0xEE);
             s = s\<lparr>device := dev\<rparr>;
             (copied, s) = submit lim D [CopyBuffer (sgp_handle src) (sgp_handle dst) 256] s
         in is_ok written \<and> is_ok copied \<and>
           (case mem_read M (device s) (gpu_handle dst) 0 256 of
              Inl _ \<Rightarrow> False
            | Inr bytes \<Rightarrow> list_all (\<lambda>b. b = 0xEE) bytes)))"

text \<open>The frames of the wire test; the first goes over the wire.\<close>

definition wire_request :: "u16 \<Rightarrow> u64 \<Rightarrow> bytes \<Rightarrow> sgpu_frame" where
  "wire_request op rid p =
     \<lparr>header = (header_new VF_FAMILY_SGPU op)
        \<lparr>request_id := rid, payload_offset := 0, payload_bytes := word_of_nat (length p),
         message_bytes := VF_MSG_BYTES + word_of_nat (length p)\<rparr>,
      payload = p\<rparr>"

definition response_u64 :: "(sgpu_frame, sgpu_error) result \<Rightarrow> u64 option" where
  "response_u64 r = (case r of Inl _ \<Rightarrow> None | Inr f \<Rightarrow> Some (of_le_bytes (slice (payload f) 0 8)))"

definition wire_copy_executes ::
    "target \<Rightarrow> sgpu_limits \<Rightarrow> ('v, 'm) gpu_enums \<Rightarrow> ('d, 'v, 'm) gpu_device \<Rightarrow> 'd device_memory \<Rightarrow>
     (sgpu_command list \<Rightarrow> bytes) \<Rightarrow> (bytes \<Rightarrow> sgpu_command list option) \<Rightarrow> 'd \<Rightarrow> bool" where
  "wire_copy_executes t lim g D M enc dec d \<longleftrightarrow>
     (case bindE (try_to_wire t (wire_request VF_SGPU_CREATE_RESOURCE 1 (le_bytes 8 (256 :: u64)))) (from_wire t) of
        Inl _ \<Rightarrow> False
      | Inr sent \<Rightarrow>
     (let (r1, s) = dispatch t lim g D dec sent (session_new d);
          (r2, s) = dispatch t lim g D dec
            (wire_request VF_SGPU_CREATE_RESOURCE 2 (le_bytes 8 (256 :: u64))) s
      in case (response_u64 r1, response_u64 r2) of
           (Some src, Some dst) \<Rightarrow>
             (case lookup_gpu_handle s src of
                Inl _ \<Rightarrow> False
              | Inr gsrc \<Rightarrow>
                  let (written, dev) = mem_write M (device s) gsrc 0 (replicate 256 0xAB);
                      s = s\<lparr>device := dev\<rparr>;
                      (resp, s) = dispatch t lim g D dec
                        (wire_request VF_SGPU_SUBMIT_COMMAND_LIST 3 (enc [CopyBuffer src dst 256])) s
                  in is_ok written \<and>
                    (case resp of
                       Inl _ \<Rightarrow> False
                     | Inr f \<Rightarrow> of_le_bytes (slice (payload f) 0 4) = (1 :: u32)) \<and>
                    (case lookup_gpu_handle s dst of
                       Inl _ \<Rightarrow> False
                     | Inr gdst \<Rightarrow>
                         (case mem_read M (device s) gdst 0 256 of
                            Inl _ \<Rightarrow> False
                          | Inr bytes \<Rightarrow> list_all (\<lambda>b. b = 0xAB) bytes)))
         | _ \<Rightarrow> False))"

text \<open>One round of the loop over the unsupported commands, then the loop.\<close>

definition refused_without_copy ::
    "target \<Rightarrow> sgpu_limits \<Rightarrow> ('v, 'm) gpu_enums \<Rightarrow> ('d, 'v, 'm) gpu_device \<Rightarrow> 'd device_memory \<Rightarrow>
     (sgpu_command list \<Rightarrow> bytes) \<Rightarrow> (bytes \<Rightarrow> sgpu_command list option) \<Rightarrow>
     sgpu_resource \<Rightarrow> sgpu_resource \<Rightarrow> sgpu_command \<Rightarrow> 'd sgpu_session \<Rightarrow> bool \<times> 'd sgpu_session" where
  "refused_without_copy t lim g D M enc dec src dst unsupported s =
     (let p = enc [CopyBuffer (sgp_handle src) (sgp_handle dst) 4, unsupported];
          h = (header_new VF_FAMILY_SGPU VF_SGPU_SUBMIT_COMMAND_LIST)\<lparr>payload_bytes := word_of_nat (length p)\<rparr>;
          h = h\<lparr>message_bytes := VF_MSG_BYTES + payload_bytes h\<rparr>
      in case to_wire t \<lparr>header = h, payload = p\<rparr> of
           Panicked \<Rightarrow> (False, s)
         | Returned wire \<Rightarrow>
             (case from_wire t wire of
                Inl _ \<Rightarrow> (False, s)
              | Inr decoded \<Rightarrow>
                  let (r, s) = dispatch t lim g D dec decoded s
                  in ((case r of Inl (Gpu _) \<Rightarrow> True | _ \<Rightarrow> False) \<and>
                      mem_read M (device s) (gpu_handle dst) 0 4 = Inr [0, 0, 0, 0], s)))"

fun all_refused ::
    "('c \<Rightarrow> 's \<Rightarrow> bool \<times> 's) \<Rightarrow> 'c list \<Rightarrow> 's \<Rightarrow> bool" where
  "all_refused round [] s \<longleftrightarrow> True"
| "all_refused round (c # cs) s \<longleftrightarrow> (let (ok, s) = round c s in ok \<and> all_refused round cs s)"

text \<open>\<open>1.0f32\<close> is \<open>0x3F800000\<close>.\<close>

definition unsupported_leaves_no_copy ::
    "target \<Rightarrow> sgpu_limits \<Rightarrow> ('v, 'm) gpu_enums \<Rightarrow> ('d, 'v, 'm) gpu_device \<Rightarrow> 'd device_memory \<Rightarrow>
     (sgpu_command list \<Rightarrow> bytes) \<Rightarrow> (bytes \<Rightarrow> sgpu_command list option) \<Rightarrow> ('d \<Rightarrow> bool) \<Rightarrow> 'd \<Rightarrow> bool" where
  "unsupported_leaves_no_copy t lim g D M enc dec supports_metal d \<longleftrightarrow>
     \<not> has_compute_shaders (query_caps D (session_new d)) \<and> \<not> supports_metal (device (session_new d)) \<and>
     (case create_resource t lim D 4 (session_new d) of
        (Inl _, _) \<Rightarrow> False
      | (Inr src, s) \<Rightarrow>
     (case create_resource t lim D 4 s of
        (Inl _, _) \<Rightarrow> False
      | (Inr dst, s) \<Rightarrow>
         let (written, dev) = mem_write M (device s) (gpu_handle src) 0 [1, 2, 3, 4];
             s = s\<lparr>device := dev\<rparr>
         in is_ok written \<and>
           all_refused (refused_without_copy t lim g D M enc dec src dst)
             [ComputeDispatch 7 (1, 1, 1) (1, 1, 1), RenderClear (0x3F800000, 0x3F800000, 0x3F800000, 0x3F800000),
              Present (sgp_handle dst)] s))"

text \<open>\<open>From<SgpuWireError>\<close> forgets the error of the codec; both helpers of the test convert with it.\<close>

definition from_wire_error :: "'w \<Rightarrow> sgpu_error" where
  "from_wire_error _ = Payload"

definition parse_list :: "(bytes \<Rightarrow> (sgpu_command list, 'w) result) \<Rightarrow> bytes \<Rightarrow> (sgpu_command list, sgpu_error) result" where
  "parse_list decode bs = map_err from_wire_error (decode bs)"

definition codec_errors_propagate :: "(bytes \<Rightarrow> (sgpu_command list, 'w) result) \<Rightarrow> bool" where
  "codec_errors_propagate decode \<longleftrightarrow>
     parse_list decode (replicate 4 0) = Inr [] \<and>
     parse_list decode (le_bytes 4 (0xFFFFFFFF :: u32)) = Inl Payload \<and>
     parse_list decode (replicate 3 0) = Inl Payload"

lemma codec_errors_propagate_holds:
  assumes "decode (replicate 4 0) = Inr []" and "isl (decode (le_bytes 4 (0xFFFFFFFF :: u32)))"
    and "isl (decode (replicate 3 0))"
  shows "codec_errors_propagate decode"
  using assms by (auto simp: codec_errors_propagate_def parse_list_def from_wire_error_def isl_def
      simp del: le_bytes.simps)

section \<open>Reading and writing in range\<close>

definition memory_agrees :: "('d \<Rightarrow> buffers) \<Rightarrow> ('d \<Rightarrow> bool) \<Rightarrow> 'd device_memory \<Rightarrow> bool" where
  "memory_agrees bufs idle M \<longleftrightarrow>
     (\<forall>d gh bs off n. bufs d gh = Some bs \<and> off + n \<le> length bs \<longrightarrow>
        mem_read M d gh off n = Inr (take n (drop off bs))) \<and>
     (\<forall>d gh bs off x. idle d \<and> bufs d gh = Some bs \<and> off + length x \<le> length bs \<longrightarrow>
        (case mem_write M d gh off x of (r, d') \<Rightarrow>
           r = Inr () \<and> bufs d' = (bufs d)(gh \<mapsto> copy_at off x bs) \<and> idle d'))"

lemma host_read:
  assumes "memory_agrees bufs idle M" and "hm_get (resources s) h = Some r"
    and "contents bufs s h = Some bs" and "off + n \<le> length bs"
  shows "mem_read M (device s) (gpu_handle r) off n = Inr (take n (drop off bs))"
  using assms(1) [unfolded memory_agrees_def, THEN conjunct1, rule_format, of "device s" "gpu_handle r" bs off n]
    assms(2-) by (simp add: contents_simps)

lemma host_write:
  assumes M: "memory_agrees bufs idle M" and own: "owns_buffers lim bufs idle s"
    and r: "hm_get (resources s) h = Some r" "contents bufs s h = Some bs" and n: "off + length x \<le> length bs"
  obtains d where "mem_write M (device s) (gpu_handle r) off x = (Inr (), d)"
    and "owns_buffers lim bufs idle (s\<lparr>device := d\<rparr>)"
    and "contents bufs (s\<lparr>device := d\<rparr>) = (contents bufs s)(h \<mapsto> copy_at off x bs)"
proof -
  obtain u d where w: "mem_write M (device s) (gpu_handle r) off x = (u, d)" by (metis surj_pair)
  have idle: "idle (device s)" using own by (simp add: owns_buffers_def)
  have b: "bufs (device s) (gpu_handle r) = Some bs" using r by (simp add: contents_simps)
  have d: "u = Inr () \<and> bufs d = (bufs (device s))(gpu_handle r \<mapsto> copy_at off x bs) \<and> idle d"
    using M [unfolded memory_agrees_def, THEN conjunct2, rule_format, of "device s" "gpu_handle r" bs off x]
      idle b n w by simp
  have "same_shape (bufs (device s)) (bufs d)"
    using d b n by (simp add: same_shape_def length_copy_at)
  moreover have "contents bufs (s\<lparr>device := d\<rparr>) k = ((contents bufs s)(h \<mapsto> copy_at off x bs)) k" for k
    using d r owned_once [OF own _ r(1), of k]
    by (cases "hm_get (resources s) k") (auto simp: contents_device contents_def)
  moreover have "owns_buffers lim bufs idle (s\<lparr>device := d\<rparr>)"
    using d calculation(1) by (intro owns_device [OF own]) simp_all
  ultimately show ?thesis using w d by (intro that [of d]) (simp_all add: fun_eq_iff)
qed

section \<open>Two zeroed resources\<close>

definition roomy :: "sgpu_limits \<Rightarrow> bool" where
  "roomy lim \<longleftrightarrow>
     256 \<le> unat (max_resource_bytes lim) \<and> 2 \<le> max_resources lim \<and>
     512 \<le> unat (max_total_resource_bytes lim) \<and> 2 \<le> max_commands lim"

lemma two_resources:
  assumes D: "buffer_device (max_resources lim) D bufs idle" "alloc_exact D" and d: "idle d" "bufs d = Map.empty"
    and t: "supported_target t" and lim: "roomy lim" and n: "n \<noteq> 0" "unat n \<le> 256"
  obtains src dst s1 s2 where "create_resource t lim D n (session_new d) = (Inr src, s1)"
    and "create_resource t lim D n s1 = (Inr dst, s2)" and "sgp_handle src = 1" and "sgp_handle dst = 2"
    and "owns_buffers lim bufs idle s2" and "hm_get (resources s2) 1 = Some src"
    and "hm_get (resources s2) 2 = Some dst"
    and "contents bufs s2 = [1 \<mapsto> replicate (unat n) 0, 2 \<mapsto> replicate (unat n) 0]"
proof -
  have small: "unat n < 2 ^ ptr_width t" "n \<le> max_resource_bytes lim"
    using t lim n by (auto simp: supported_target_def roomy_def word_le_nat_alt)
  have can: "can_create t lim n (session_new d)"
    using small lim n by (simp add: can_create_def roomy_def)
  obtain src s1 where s1: "create_resource t lim D n (session_new d) = (Inr src, s1)" "session_inv lim s1"
      "hm_len (resources s1) = 1" "live_bytes s1 = unat n" "unat (next_resource_id s1) = 2"
      "sgp_handle src = 1" "hm_get (resources s1) 1 = Some src"
    by (rule create_step [OF D(2) session_inv_new n(1) can]) (simp add: that)
  have can1: "can_create t lim n s1"
    using small lim n s1 by (simp add: can_create_def roomy_def)
  have id1: "next_resource_id s1 = 2" using s1(5) by (simp add: word_unat_eq_iff)
  obtain dst s2 where s2: "create_resource t lim D n s1 = (Inr dst, s2)" "sgp_handle dst = 2"
      "hm_get (resources s2) 2 = Some dst" "hm_get (resources s2) 1 = Some src"
    by (rule create_step [OF D(2) s1(2) n(1) can1]) (use id1 s1(7) in \<open>simp add: that\<close>)
  note c1 = owns_create [OF D owns_new [of idle d bufs lim] s1(1)]
  note c2 = owns_create [OF D _ s2(1)]
  show ?thesis
    using c1 c2 d s1 s2 by (intro that [of src s1 dst s2]) (simp_all add: contents_new)
qed

lemma copied_block:
  "length a = n \<Longrightarrow> copy_at 0 (replicate n b) a = replicate n b"
  by (simp add: copy_at_def)

lemma submit_one_copy:
  assumes D: "buffer_device (max_resources lim) D bufs idle" and own: "owns_buffers lim bufs idle s"
    and lim: "roomy lim" and c: "contents bufs s 1 = Some a" "contents bufs s 2 = Some b"
    and n: "length a = unat n" "length b = unat n"
  obtains s' where "submit lim D [CopyBuffer 1 2 n] s = (Inr 1, s')"
    and "owns_buffers lim bufs idle s'" and "contents bufs s' = (contents bufs s)(2 \<mapsto> a)"
    and "resources s' = resources s"
proof -
  obtain r s' where sub: "submit lim D [CopyBuffer 1 2 n] s = (r, s')" by (metis surj_pair)
  have run: "run_copies [(1, 2, n)] (contents bufs s) = Some ((contents bufs s)(2 \<mapsto> a))"
    using c n by (simp add: copy_bytes_def)
  have "resources s' = resources s" using submit_frame [OF sub] by auto
  with owns_submit(1) [OF D own sub] owns_submit(2) [OF D own sub _ run] lim sub show ?thesis
    by (intro that [of s']) (simp_all add: roomy_def)
qed

lemma copy_executes_holds:
  assumes D: "buffer_device (max_resources lim) D bufs idle" "alloc_exact D" and M: "memory_agrees bufs idle M"
    and d: "idle d" "bufs d = Map.empty" and t: "supported_target t" and lim: "roomy lim"
  shows "copy_executes t lim D M d"
proof -
  have n: "256 \<noteq> (0 :: u64)" "unat (256 :: u64) \<le> 256" by simp_all
  obtain src dst s1 s2 where s: "create_resource t lim D 256 (session_new d) = (Inr src, s1)"
      "create_resource t lim D 256 s1 = (Inr dst, s2)" "sgp_handle src = 1" "sgp_handle dst = 2"
      "owns_buffers lim bufs idle s2" "hm_get (resources s2) 1 = Some src" "hm_get (resources s2) 2 = Some dst"
      "contents bufs s2 = [1 \<mapsto> replicate (unat (256 :: u64)) 0, 2 \<mapsto> replicate (unat (256 :: u64)) 0]"
    by (rule two_resources [OF D d t lim n])
  have c1: "contents bufs s2 1 = Some (replicate 256 0)" by (simp add: s(8))
  obtain dev where w: "mem_write M (device s2) (gpu_handle src) 0 (replicate 256 0xEE) = (Inr (), dev)"
      "owns_buffers lim bufs idle (s2\<lparr>device := dev\<rparr>)"
      "contents bufs (s2\<lparr>device := dev\<rparr>) = (contents bufs s2)(1 \<mapsto> copy_at 0 (replicate 256 0xEE) (replicate 256 0))"
    by (rule host_write [OF M s(5,6) c1, of 0 "replicate 256 0xEE"]) (simp, rule that)
  have c: "contents bufs (s2\<lparr>device := dev\<rparr>) 1 = Some (replicate 256 0xEE)"
      "contents bufs (s2\<lparr>device := dev\<rparr>) 2 = Some (replicate 256 0)"
    unfolding w(3) by (simp_all add: copied_block s(8))
  obtain s' where s': "submit lim D [CopyBuffer 1 2 256] (s2\<lparr>device := dev\<rparr>) = (Inr 1, s')"
      "contents bufs s' = (contents bufs (s2\<lparr>device := dev\<rparr>))(2 \<mapsto> replicate 256 0xEE)"
      "resources s' = resources (s2\<lparr>device := dev\<rparr>)"
    by (rule submit_one_copy [OF D(1) w(2) lim c, of 256]) (simp, simp, rule that)
  have "mem_read M (device s') (gpu_handle dst) 0 256 = Inr (take 256 (drop 0 (replicate 256 0xEE)))"
    by (rule host_read [OF M, where h = 2]) (simp_all add: s'(2,3) s(7))
  then show ?thesis
    using s w s' by (simp add: copy_executes_def list_all_iff)
qed

section \<open>Frames that carry a command list\<close>

lemma wire_request_simps [simp]:
  "payload (wire_request op rid p) = p" "opcode (header (wire_request op rid p)) = op"
  "request_id (header (wire_request op rid p)) = rid"
  by (simp_all add: wire_request_def header_new_def)

lemma wire_request_valid:
  assumes "length p \<le> 16777216"
  shows "valid_frame (wire_request op rid p)"
proof -
  have len: "unat (word_of_nat (length p) :: u32) = length p"
    using assms by (simp add: unat_of_nat)
  then have "unat (64 + word_of_nat (length p) :: u32) = 64 + length p"
    using assms by (simp add: unat_word_ariths)
  with assms len show ?thesis
    by (simp add: wire_request_def valid_frame_def inline_header_def header_new_def header_default_def)
qed

lemma dispatch_create:
  assumes "supported_target t" and "create_resource t lim D n s = (Inr q, s')"
  shows "dispatch t lim g D dec (wire_request VF_SGPU_CREATE_RESOURCE rid (le_bytes 8 n)) s =
    (Inr (response_frame VF_SGPU_CREATE_RESOURCE rid (le_bytes 8 (sgp_handle q))), s')"
proof -
  have "valid_frame (wire_request VF_SGPU_CREATE_RESOURCE rid (le_bytes 8 n))"
    by (rule wire_request_valid) simp
  then have "frame_validate t (wire_request VF_SGPU_CREATE_RESOURCE rid (le_bytes 8 n)) = Inr ()"
    using assms(1) by (simp only: frame_validate_Inr_iff)
  with assms show ?thesis
    by (simp add: dispatch_def Let_def slice_def of_le_bytes_le_bytes)
qed

lemma dispatch_submit:
  assumes "supported_target t" and "valid_frame f" and "opcode (header f) = VF_SGPU_SUBMIT_COMMAND_LIST"
    and "dec (payload f) = Some cmds" and "submit lim D cmds s = (r, s')"
  shows "dispatch t lim g D dec f s =
    (case r of Inl e \<Rightarrow> Inl e
     | Inr k \<Rightarrow> Inr (response_frame VF_SGPU_SUBMIT_COMMAND_LIST (request_id (header f))
         (le_bytes 4 (word_of_nat k :: u32))), s')"
proof -
  have "frame_validate t f = Inr ()" using assms(1,2) by (simp only: frame_validate_Inr_iff)
  with assms(3-) show ?thesis by (cases r) (simp_all add: dispatch_def Let_def)
qed

lemma response_u64_created [simp]:
  "response_u64 (Inr (response_frame op rid (le_bytes 8 (w :: u64)))) = Some w"
  by (simp add: response_u64_def slice_def of_le_bytes_le_bytes)

lemma wire_copy_executes_holds:
  assumes D: "buffer_device (max_resources lim) D bufs idle" "alloc_exact D" and M: "memory_agrees bufs idle M"
    and d: "idle d" "bufs d = Map.empty" and t: "supported_target t" "\<forall>n. reserve_ok t n" and lim: "roomy lim"
    and codec: "\<And>cmds. length cmds \<le> 2 \<Longrightarrow> dec (enc cmds) = Some cmds \<and> length (enc cmds) \<le> 16777216"
  shows "wire_copy_executes t lim g D M enc dec d"
proof -
  let ?create = "\<lambda>rid. wire_request VF_SGPU_CREATE_RESOURCE rid (le_bytes 8 (256 :: u64))"
  have n: "256 \<noteq> (0 :: u64)" "unat (256 :: u64) \<le> 256" by simp_all
  obtain src dst s1 s2 where s: "create_resource t lim D 256 (session_new d) = (Inr src, s1)"
      "create_resource t lim D 256 s1 = (Inr dst, s2)" "sgp_handle src = 1" "sgp_handle dst = 2"
      "owns_buffers lim bufs idle s2" "hm_get (resources s2) 1 = Some src" "hm_get (resources s2) 2 = Some dst"
      "contents bufs s2 = [1 \<mapsto> replicate (unat (256 :: u64)) 0, 2 \<mapsto> replicate (unat (256 :: u64)) 0]"
    by (rule two_resources [OF D d t(1) lim n])
  have "valid_frame (?create 1)" by (rule wire_request_valid) simp
  then have wire: "bindE (try_to_wire t (?create 1)) (from_wire t) = Inr (?create 1)"
    by (rule wire_back [OF t]) simp
  have c1: "contents bufs s2 1 = Some (replicate 256 0)" by (simp add: s(8))
  obtain dev where w: "mem_write M (device s2) (gpu_handle src) 0 (replicate 256 0xAB) = (Inr (), dev)"
      "owns_buffers lim bufs idle (s2\<lparr>device := dev\<rparr>)"
      "contents bufs (s2\<lparr>device := dev\<rparr>) = (contents bufs s2)(1 \<mapsto> copy_at 0 (replicate 256 0xAB) (replicate 256 0))"
    by (rule host_write [OF M s(5,6) c1, of 0 "replicate 256 0xAB"]) (simp, rule that)
  have c: "contents bufs (s2\<lparr>device := dev\<rparr>) 1 = Some (replicate 256 0xAB)"
      "contents bufs (s2\<lparr>device := dev\<rparr>) 2 = Some (replicate 256 0)"
    unfolding w(3) by (simp_all add: copied_block s(8))
  obtain s' where s': "submit lim D [CopyBuffer 1 2 256] (s2\<lparr>device := dev\<rparr>) = (Inr 1, s')"
      "contents bufs s' = (contents bufs (s2\<lparr>device := dev\<rparr>))(2 \<mapsto> replicate 256 0xAB)"
      "resources s' = resources (s2\<lparr>device := dev\<rparr>)"
    by (rule submit_one_copy [OF D(1) w(2) lim c, of 256]) (simp, simp, rule that)
  let ?submit = "wire_request VF_SGPU_SUBMIT_COMMAND_LIST 3 (enc [CopyBuffer 1 2 256])"
  have "valid_frame ?submit" by (rule wire_request_valid) (simp add: codec)
  from dispatch_submit [OF t(1) this _ _ s'(1), of dec g]
  have sub: "dispatch t lim g D dec ?submit (s2\<lparr>device := dev\<rparr>) =
      (Inr (response_frame VF_SGPU_SUBMIT_COMMAND_LIST 3 (le_bytes 4 (1 :: u32))), s')"
    by (simp add: codec)
  have "mem_read M (device s') (gpu_handle dst) 0 256 = Inr (take 256 (drop 0 (replicate 256 0xAB)))"
    by (rule host_read [OF M, where h = 2]) (simp_all add: s'(2,3) s(7))
  then have "mem_read M (device s') (gpu_handle dst) 0 256 = Inr (replicate 256 0xAB)" by simp
  moreover have "of_le_bytes (slice (le_bytes 4 (1 :: u32)) 0 4) = (1 :: u32)"
    by (simp add: slice_def of_le_bytes_le_bytes)
  ultimately show ?thesis
    unfolding wire_copy_executes_def wire
    using dispatch_create [OF t(1) s(1)] dispatch_create [OF t(1) s(2)] s w(1) s'(3) sub
    by (simp add: lookup_gpu_handle_def list_all_iff)
qed

text \<open>One round of the loop.\<close>

lemma refused_round:
  assumes D: "buffer_device (max_resources lim) D bufs idle" and M: "memory_agrees bufs idle M"
    and t: "supported_target t" "\<forall>n. reserve_ok t n" and lim: "roomy lim"
    and codec: "\<And>cmds. length cmds \<le> 2 \<Longrightarrow> dec (enc cmds) = Some cmds \<and> length (enc cmds) \<le> 16777216"
    and own: "owns_buffers lim bufs idle s" and h: "sgp_handle src = 1" "sgp_handle dst = 2"
    and get: "hm_get (resources s) 1 = Some src" "hm_get (resources s) 2 = Some dst"
    and zero: "contents bufs s 2 = Some [0, 0, 0, 0]"
    and c: "c = Present 2 \<or> (\<exists>k g b. c = ComputeDispatch k g b) \<or> (\<exists>v. c = RenderClear v)"
  obtains s' where "refused_without_copy t lim g D M enc dec src dst c s = (True, s')"
    and "owns_buffers lim bufs idle s'" and "resources s' = resources s" and "contents bufs s' = contents bufs s"
proof -
  let ?cmds = "[CopyBuffer 1 2 4, c]"
  let ?f = "wire_request VF_SGPU_SUBMIT_COMMAND_LIST 0 (enc ?cmds)"
  have frame: "\<lparr>header = (header_new VF_FAMILY_SGPU VF_SGPU_SUBMIT_COMMAND_LIST)
      \<lparr>payload_bytes := word_of_nat (length (enc ?cmds)),
       message_bytes := VF_MSG_BYTES + word_of_nat (length (enc ?cmds))\<rparr>, payload = enc ?cmds\<rparr> = ?f"
    by (simp add: wire_request_def header_new_def header_default_def)
  have valid: "valid_frame ?f" by (rule wire_request_valid) (simp add: codec)
  obtain w where w: "try_to_wire t ?f = Inr w" "from_wire t w = Inr ?f" by (rule wire_back [OF t valid])
  obtain r s' where sub: "submit lim D ?cmds s = (r, s')" by (metis surj_pair)
  obtain d where s': "s' = s\<lparr>device := d\<rparr>" using submit_frame [OF sub] by auto
  have "list_ex (\<lambda>c. \<forall>a b n. c \<noteq> CopyBuffer a b n) ?cmds" using c by auto
  note bad = owns_submit(3) [OF D own sub this]
  have "\<exists>gs. translate_commands s ?cmds = Inr gs"
    using c get by (auto simp: lookup_gpu_handle_def)
  then obtain e where r: "r = Inl (Gpu e)"
    using sub bad lim by (auto simp: submit_device_submit roomy_def split: prod.splits sum.splits)
  have disp: "dispatch t lim g D dec ?f s = (Inl (Gpu e), s')"
    using dispatch_submit [OF t(1) valid _ _ sub, of dec g] r codec [of ?cmds] by simp
  have "mem_read M (device s') (gpu_handle dst) 0 4 = Inr (take 4 (drop 0 [0, 0, 0, 0]))"
    by (rule host_read [OF M, where h = 2]) (use bad zero get s' in simp_all)
  then have "refused_without_copy t lim g D M enc dec src dst c s = (True, s')"
    unfolding refused_without_copy_def Let_def h
    by (simp add: frame [simplified] to_wire_def w [simplified] disp [simplified])
  then show ?thesis
    using owns_submit(1) [OF D own sub] bad s' by (intro that [of s']) simp_all
qed

lemma all_refused_keeps:
  assumes "\<And>c s. c \<in> set cs \<Longrightarrow> P s \<Longrightarrow> \<exists>s'. round c s = (True, s') \<and> P s'"
  shows "P s \<Longrightarrow> all_refused round cs s"
  using assms
proof (induction cs arbitrary: s)
  case (Cons c cs)
  from Cons.prems(2) [of c s] obtain s' where "round c s = (True, s')" "P s'" using Cons.prems(1) by auto
  with Cons.IH [of s'] Cons.prems(2) show ?case by simp
qed simp

lemma unsupported_leaves_no_copy_holds:
  assumes D: "buffer_device (max_resources lim) D bufs idle" "alloc_exact D" and M: "memory_agrees bufs idle M"
    and d: "idle d" "bufs d = Map.empty" and t: "supported_target t" "\<forall>n. reserve_ok t n" and lim: "roomy lim"
    and codec: "\<And>cmds. length cmds \<le> 2 \<Longrightarrow> dec (enc cmds) = Some cmds \<and> length (enc cmds) \<le> 16777216"
    and metal: "\<not> supports_metal d"
  shows "unsupported_leaves_no_copy t lim g D M enc dec supports_metal d"
proof -
  have n: "4 \<noteq> (0 :: u64)" "unat (4 :: u64) \<le> 256" by simp_all
  obtain src dst s1 s2 where s: "create_resource t lim D 4 (session_new d) = (Inr src, s1)"
      "create_resource t lim D 4 s1 = (Inr dst, s2)" "sgp_handle src = 1" "sgp_handle dst = 2"
      "owns_buffers lim bufs idle s2" "hm_get (resources s2) 1 = Some src" "hm_get (resources s2) 2 = Some dst"
      "contents bufs s2 = [1 \<mapsto> replicate (unat (4 :: u64)) 0, 2 \<mapsto> replicate (unat (4 :: u64)) 0]"
    by (rule two_resources [OF D d t(1) lim n])
  have c1: "contents bufs s2 1 = Some (replicate 4 0)" by (simp add: s(8))
  obtain dev where w: "mem_write M (device s2) (gpu_handle src) 0 [1, 2, 3, 4] = (Inr (), dev)"
      "owns_buffers lim bufs idle (s2\<lparr>device := dev\<rparr>)"
      "contents bufs (s2\<lparr>device := dev\<rparr>) = (contents bufs s2)(1 \<mapsto> copy_at 0 [1, 2, 3, 4] (replicate 4 0))"
    by (rule host_write [OF M s(5,6) c1, of 0 "[1, 2, 3, 4]"]) (simp, rule that)
  let ?P = "\<lambda>s. owns_buffers lim bufs idle s \<and> hm_get (resources s) 1 = Some src \<and>
      hm_get (resources s) 2 = Some dst \<and> contents bufs s 2 = Some [0, 0, 0, 0]"
  let ?one = "(0x3F800000, 0x3F800000, 0x3F800000, 0x3F800000)"
  have "all_refused (refused_without_copy t lim g D M enc dec src dst)
      [ComputeDispatch 7 (1, 1, 1) (1, 1, 1), RenderClear ?one, Present 2] (s2\<lparr>device := dev\<rparr>)"
  proof (rule all_refused_keeps [where P = ?P])
    have "replicate 4 0 = [0, 0, 0, 0 :: u8]" by (simp add: numeral_eq_Suc)
    then show "?P (s2\<lparr>device := dev\<rparr>)" using w s by simp
    show "\<exists>s'. refused_without_copy t lim g D M enc dec src dst c s = (True, s') \<and> ?P s'"
      if "c \<in> set [ComputeDispatch 7 (1, 1, 1) (1, 1, 1), RenderClear ?one, Present 2]" "?P s" for c s
    proof -
      have c: "c = Present 2 \<or> (\<exists>k g b. c = ComputeDispatch k g b) \<or> (\<exists>v. c = RenderClear v)"
        using that(1) by auto
      note P = that(2)
      obtain s' where "refused_without_copy t lim g D M enc dec src dst c s = (True, s')"
          "owns_buffers lim bufs idle s'" "resources s' = resources s" "contents bufs s' = contents bufs s"
        by (rule refused_round [OF D(1) M t lim codec _ s(3,4) _ _ _ c, where s = s and g = g]) (use P in \<open>auto simp: that\<close>)
      with P show ?thesis by simp
    qed
  qed
  then show ?thesis
    using s(1-4) w(1) metal by (simp add: unsupported_leaves_no_copy_def query_caps_def)
qed

section \<open>On the example device\<close>

definition list_memory :: "(u64 \<times> bytes) list device_memory" where
  "list_memory =
     \<lparr>mem_read = (\<lambda>d gh off n. case map_of d gh of
        None \<Rightarrow> Inl ''no buffer''
      | Some bs \<Rightarrow> (if off + n \<le> length bs then Inr (take n (drop off bs)) else Inl ''range'')),
      mem_write = (\<lambda>d gh off x. case map_of d gh of
        None \<Rightarrow> (Inl ''no buffer'', d)
      | Some bs \<Rightarrow>
         (if off + length x \<le> length bs then (Inr (), AList.update gh (copy_at off x bs) d)
          else (Inl ''range'', d)))\<rparr>"

lemma memory_agrees_list: "memory_agrees map_of (\<lambda>_. True) list_memory"
  by (simp add: memory_agrees_def list_memory_def update_conv')

lemma copy_executes_list: "copy_executes mac_target sample_limits list_device list_memory []"
  by (rule copy_executes_holds [OF buffer_device_sample alloc_exact_list memory_agrees_list _ _ supported_mac])
    (simp_all add: roomy_def sample_limits_def)

end
