(* ===== verification/Grant_Tests.thy ===== *)
theory Grant_Tests
  imports Grant_Example
begin

text \<open>
  The integration tests of \<open>src/tests/sgpu_grant.rs\<close> on the grant transport, read as propositions
  about the model: one boolean definition per test function, with the same inputs and assertions,
  and the proof that it holds. The fixtures \<open>grant\<close> and \<open>header(4)\<close> are \<open>sample_grant\<close> and
  \<open>sample_header\<close>. The two tests that execute commands and the differential test against a C
  program are about code outside the repository.
\<close>

section \<open>The header profile and the policy\<close>

definition strict_header_profile :: bool where
  "strict_header_profile \<longleftrightarrow>
     (let h = sample_header; unaligned = 99 # header_encode h in
      decode_grant_header (drop 1 unaligned) = Inr h \<and>
      list_all (\<lambda>n. decode_grant_header (take n unaligned) = Inl Eabi) [0..<64] \<and>
      decode_grant_header unaligned = Inl Eabi \<and>
      list_all (\<lambda>(h, e). validate_grant_header h = Inl e)
        [(h\<lparr>message_bytes := 68\<rparr>, Eabi),
         (h\<lparr>flags := 1\<rparr>, Einval),
         (h\<lparr>reserved0 := 1\<rparr>, Eabi),
         (h\<lparr>opcode := 8\<rparr>, Enotsup),
         (h\<lparr>payload_offset := 1\<rparr>, Einval),
         (h\<lparr>payload_offset := 0xFFFFFFFFFFFFFFFF - 7, payload_bytes := 8\<rparr>, Erange),
         (h\<lparr>payload_bytes := VF_PAYLOAD_MAX + 1\<rparr>, Erange),
         (h\<lparr>payload_bytes := 0\<rparr>, Einval)])"

definition policy_status :: "vf_msg_header \<Rightarrow> vf_grant_entry list \<Rightarrow> u32 \<Rightarrow> u32 \<Rightarrow> u64 \<Rightarrow> int" where
  "policy_status h entries caller required now =
     (case validate_payload_grant h
         (map (\<lambda>e. \<lparr>entry = e, snapshot_offset = 0, data = []\<rparr>) entries) caller required now of
        Inr _ \<Rightarrow> 0 | Inl e \<Rightarrow> grant_status e)"

text \<open>The match on the field number.\<close>

definition changed_grant :: "nat \<Rightarrow> vf_grant_entry" where
  "changed_grant field =
     (let g = sample_grant; c = cap g in
      if field = 0 then g\<lparr>cap := c\<lparr>generation := generation c + 1\<rparr>\<rparr>
      else if field = 1 then g\<lparr>cap := c\<lparr>cap_state := 2\<rparr>\<rparr>
      else if field = 2 then g\<lparr>cap := c\<lparr>object_id := 0\<rparr>\<rparr>
      else if field = 3 then g\<lparr>cap := c\<lparr>rights := rights c OR 256\<rparr>\<rparr>
      else if field = 4 then g\<lparr>grant_state := 2\<rparr>
      else if field = 5 then g\<lparr>owner_cell := 0\<rparr>
      else g\<lparr>grant_bytes := 11\<rparr>)"

definition policy_decides :: bool where
  "policy_decides \<longleftrightarrow>
     (let h = sample_header; g = sample_grant in
      policy_status h [g] CELL VF_RIGHT_READ 10 = 0 \<and>
      list_all (\<lambda>now. policy_status h [g] CELL VF_RIGHT_READ now = -4) [0, 9, 20, 0xFFFFFFFFFFFFFFFF] \<and>
      policy_status h [g] CELL VF_RIGHT_WRITE 15 = -5 \<and>
      policy_status h [g] (CELL + 1) VF_RIGHT_READ 15 = -4 \<and>
      policy_status h [g, g] CELL VF_RIGHT_READ 15 = -9 \<and>
      policy_status h (replicate (VF_POLICY_TABLE_MAX + 1) g) CELL VF_RIGHT_READ 15 = -1 \<and>
      policy_status h [g] 0 VF_RIGHT_READ 15 = -1 \<and>
      list_all (\<lambda>r. policy_status h [g] CELL r 15 = -1) [0, 4, 8, 255] \<and>
      list_all (\<lambda>(field, want). policy_status h [changed_grant field] CELL VF_RIGHT_READ 15 = want)
        [(0, -4), (1, -4), (2, -5), (3, -5), (4, -4), (5, -4), (6, -6)] \<and>
      owner_cell g \<noteq> CELL)"

lemma strict_header_profile_holds: strict_header_profile
proof -
  have "decode_grant_header bs = Inl Eabi" if "length bs \<noteq> 64" for bs
    using that header_decode_Inl_iff [of bs Vf_Erange] by (simp add: decode_grant_header_def)
  moreover have "decode_grant_header (header_encode sample_header) = Inr sample_header"
    using sample_header_granted by (simp add: decode_grant_header_Inr_iff)
  ultimately show ?thesis
    by (simp add: strict_header_profile_def list_all_iff)
      (simp add: validate_grant_header_def sample_header_def header_new_def header_default_def
        known_opcode_def checked_add_def)
qed

lemma single_status:
  assumes "holder_cell (cap e) = CELL" and "slot (cap e) = 7" and "r \<in> {1, 2, 3}"
  shows "policy_status sample_header [e] CELL r now =
    (case grant_verdict sample_header \<lparr>entry = e, snapshot_offset = 0, data = []\<rparr> r now of
       Inr _ \<Rightarrow> 0 | Inl e \<Rightarrow> grant_status e)"
proof -
  have "matches sample_header CELL \<lparr>entry = e, snapshot_offset = 0, data = []\<rparr>"
    using assms by (simp add: matches_def sample_header_def)
  moreover have "payload_bytes sample_header \<noteq> 0" by (simp add: sample_header_def)
  ultimately show ?thesis
    using assms validate_grant_header_Inr_iff [of sample_header "()"] sample_header_granted
    by (simp add: policy_status_def validate_payload_grant_eq policy_args_def CELL_def)
qed

lemma bad_args_status:
  "\<not> policy_args (map (\<lambda>e. \<lparr>entry = e, snapshot_offset = 0, data = []\<rparr>) es) caller r \<Longrightarrow>
    policy_status sample_header es caller r now = -1"
  by (simp add: policy_status_def validate_payload_grant_eq)

lemma policy_decides_holds: policy_decides
proof -
  have cell: "holder_cell (cap sample_grant) = CELL" "slot (cap sample_grant) = 7"
    by (simp_all add: sample_grant_def CELL_def)
  have changed: "holder_cell (cap (changed_grant k)) = CELL" "slot (cap (changed_grant k)) = 7" for k
    by (simp_all add: changed_grant_def Let_def sample_grant_def CELL_def)
  have g: "grants sample_header sample_grant 1 now \<longleftrightarrow> 10 \<le> now \<and> now < 20" for now
    by (auto simp: grants_def sample_grant_def sample_header_def cap_handle_def)
  have live: "policy_status sample_header [sample_grant] CELL 1 now = (if 10 \<le> now \<and> now < 20 then 0 else -4)" for now
    by (simp add: single_status [OF cell] grant_verdict_cases g)
      (auto simp: sample_grant_def not_le not_less)
  have "policy_status sample_header [sample_grant] CELL 2 15 = -5"
    by (simp add: single_status [OF cell] grant_verdict_cases)
      (simp add: grants_def sample_grant_def sample_header_def cap_handle_def)
  moreover have "policy_status sample_header [sample_grant] (CELL + 1) 1 15 = -4"
  proof -
    have "\<not> matches sample_header (CELL + 1) \<lparr>entry = sample_grant, snapshot_offset = 0, data = []\<rparr>"
      by (simp add: matches_def sample_grant_def CELL_def)
    moreover have "payload_bytes sample_header \<noteq> 0" by (simp add: sample_header_def)
    ultimately show ?thesis
      using validate_payload_grant_no_match [of "[\<lparr>entry = sample_grant, snapshot_offset = 0, data = []\<rparr>]"
          "CELL + 1" 1 sample_header 15] sample_header_granted
      by (simp add: policy_status_def policy_args_def CELL_def)
  qed
  moreover have "policy_status sample_header [sample_grant, sample_grant] CELL 1 15 = -9"
  proof -
    have "matches sample_header CELL \<lparr>entry = sample_grant, snapshot_offset = 0, data = []\<rparr>"
      by (simp add: matches_def sample_grant_def CELL_def sample_header_def)
    moreover have "payload_bytes sample_header \<noteq> 0" by (simp add: sample_header_def)
    ultimately show ?thesis
      using sample_header_granted validate_grant_header_Inr_iff [of sample_header "()"]
      by (simp add: policy_status_def validate_payload_grant_eq policy_args_def CELL_def)
  qed
  moreover have "policy_status sample_header (replicate (VF_POLICY_TABLE_MAX + 1) sample_grant) CELL 1 15 = -1"
    by (rule bad_args_status) (simp add: policy_args_def del: replicate_Suc)
  moreover have "policy_status sample_header [sample_grant] 0 1 15 = -1"
    by (rule bad_args_status) (simp add: policy_args_def)
  moreover have "policy_status sample_header [sample_grant] CELL r 15 = -1" if "r \<in> {0, 4, 8, 255}" for r
    using that by (intro bad_args_status) (auto simp: policy_args_def)
  moreover have
      "policy_status sample_header [changed_grant 0] CELL 1 15 = -4"
      "policy_status sample_header [changed_grant 1] CELL 1 15 = -4"
      "policy_status sample_header [changed_grant 2] CELL 1 15 = -5"
      "policy_status sample_header [changed_grant 3] CELL 1 15 = -5"
      "policy_status sample_header [changed_grant 4] CELL 1 15 = -4"
      "policy_status sample_header [changed_grant 5] CELL 1 15 = -4"
      "policy_status sample_header [changed_grant 6] CELL 1 15 = -6"
    unfolding single_status [OF changed, of 1, simplified] grant_verdict_cases
    by (simp_all add: changed_grant_def Let_def grants_def sample_grant_def sample_header_def cap_handle_def)
  ultimately show ?thesis
    using live by (simp add: policy_decides_def Let_def) (simp add: sample_grant_def CELL_def)
qed

section \<open>Conversion and submission\<close>

definition test_session :: "'c \<Rightarrow> ('c grant_session, grant_error) result" where
  "test_session c = grant_session_new c CELL ENDPOINT"

definition conversion_frame :: sgpu_frame where
  "conversion_frame = \<lparr>header = sample_header\<lparr>message_bytes := 76\<rparr>, payload = le_bytes 4 (0 :: u32)\<rparr>"

definition conversion_rechecks :: "target \<Rightarrow> 'c \<Rightarrow> bool" where
  "conversion_rechecks t c \<longleftrightarrow>
     (let frame = conversion_frame in
      case (inline_to_grant t frame GRANT 8 :: (_, unit grant_submit_error) result, test_session c) of
        (Inr (wire, bytes), Inr session) \<Rightarrow>
          (let g = sample_grant; views = [\<lparr>entry = g, snapshot_offset = 8, data = bytes\<rparr>];
               r = sample_grant\<lparr>grant_state := 2, cap := (cap g)\<lparr>cap_state := 2\<rparr>\<rparr>;
               revoked = [\<lparr>entry = r, snapshot_offset = 8, data = bytes\<rparr>]
           in (case (to_inline t session wire views CELL 15 :: (_, unit grant_submit_error) result) of
                 Inl _ \<Rightarrow> False
               | Inr normal \<Rightarrow>
                   payload normal = payload frame \<and> message_bytes (header normal) = 68 \<and>
                   payload_offset (header normal) = 0 \<and> payload_grant (header normal) = 0 \<and>
                   request_id (header normal) = request_id (header frame) \<and>
                   bindE (try_to_wire t normal) (from_wire t) = Inr normal \<and>
                   isl (to_inline t session (header_encode (header normal)) views CELL 15
                     :: (_, unit grant_submit_error) result)) \<and>
             (to_inline t session wire revoked CELL 15 :: (_, unit grant_submit_error) result) =
               Inl (GrantFailed Estale))
      | _ \<Rightarrow> False)"

text \<open>Submissions one after the other, each with its expected result.\<close>

fun submissions ::
    "target \<Rightarrow> ('c \<Rightarrow> bytes \<Rightarrow> u64 \<Rightarrow> u64 \<Rightarrow> (nat, 'e) result \<times> 'c) \<Rightarrow>
     (vf_msg_header \<times> vf_grant_snapshot list \<times> u32 \<times> ((nat, 'e grant_submit_error) result \<Rightarrow> bool)) list \<Rightarrow>
     'c grant_session \<Rightarrow> bool" where
  "submissions t sw [] g \<longleftrightarrow> True"
| "submissions t sw ((h, views, caller, ok) # rest) g \<longleftrightarrow>
     (let (r, g) = grant_submit t sw (header_encode h) views caller 15 g in ok r \<and> submissions t sw rest g)"

definition checked_before_execution ::
    "target \<Rightarrow> ('c \<Rightarrow> bytes \<Rightarrow> u64 \<Rightarrow> u64 \<Rightarrow> (nat, 'e) result \<times> 'c) \<Rightarrow> 'c \<Rightarrow> bool" where
  "checked_before_execution t sw c \<longleftrightarrow>
     (let bytes = [0, 0, 0, 0]; g = sample_grant; h = sample_header;
          view = (\<lambda>(off, d). [\<lparr>entry = g, snapshot_offset = off, data = d\<rparr>]);
          views = view (8, bytes)
      in case test_session c of
           Inl _ \<Rightarrow> False
         | Inr session \<Rightarrow>
             submissions t sw
               (map (\<lambda>od. (h, view od, CELL, \<lambda>r. r = Inl (GrantFailed Erange)))
                  [(9, bytes), (8, take 3 bytes), (0xFFFFFFFFFFFFFFFF, bytes), (1022, bytes)] @
                [(h, views, CELL + 1, \<lambda>r. r = Inl (GrantFailed Eperm)),
                 (h\<lparr>object := ENDPOINT + 1\<rparr>, views, CELL, \<lambda>r. r = Inl (GrantFailed Eperm))] @
                map (\<lambda>op. (h\<lparr>opcode := op\<rparr>, views, CELL, \<lambda>r. r = Inl (GrantFailed Enotsup)))
                  [1, 2, 3, 4, 6, 7] @
                [(h, views, CELL, \<lambda>r. r = Inr 0)])
               session)"

lemma test_session_ok: "test_session c = Inr \<lparr>caller_cell = CELL, endpoint_handle = ENDPOINT, compute = c\<rparr>"
proof -
  have "(ucast ENDPOINT :: u32) \<noteq> 0" "drop_bit 32 ENDPOINT \<noteq> (0 :: u64)" "CELL \<noteq> 0"
    by (simp_all add: ENDPOINT_def CELL_def)
  then show ?thesis by (simp add: test_session_def grant_session_new_def)
qed

lemma sample_grants_now: "grants sample_header sample_grant 1 15"
  using sample_grants by simp

lemma sample_on_route:
  assumes "caller_cell g = CELL" and "endpoint_handle g = ENDPOINT"
    and "holder_cell (cap e) = CELL" and "slot (cap e) = 7"
  shows "authorize t g (header_encode sample_header) [\<lparr>entry = e, snapshot_offset = off, data = d\<rparr>] CELL now =
    bindE (grant_verdict sample_header \<lparr>entry = e, snapshot_offset = off, data = d\<rparr> 1 now) (\<lambda>sn.
    bindE (case sn of Some s \<Rightarrow> payload_window t sample_header s | None \<Rightarrow> Ok []) (\<lambda>p.
    Ok (sample_header, p)))"
proof -
  have h: "payload_bytes sample_header \<noteq> 0" "family sample_header = VF_FAMILY_SGPU"
      "opcode sample_header = VF_SGPU_SUBMIT_COMMAND_LIST" "object sample_header = endpoint_handle g" "CELL \<noteq> 0"
    using assms(2) by (simp_all add: sample_header_def header_new_def ENDPOINT_def CELL_def)
  have "matches sample_header CELL \<lparr>entry = e, snapshot_offset = off, data = d\<rparr>"
    using assms by (simp add: matches_def sample_header_def)
  from authorize_single [OF sample_header_granted h(1-4) assms(1) h(5) this, of t now]
  show ?thesis by simp
qed

lemma window_Erange: "(\<And>p. payload_window t h s \<noteq> Inr p) \<Longrightarrow> payload_window t h s = Inl Erange"
proof -
  have "payload_window t h s = Inl e \<Longrightarrow> e = Erange" for e
    by (auto simp: payload_window_def result_simps split: if_splits)
  then show "(\<And>p. payload_window t h s \<noteq> Inr p) \<Longrightarrow> payload_window t h s = Inl Erange"
    by (cases "payload_window t h s") auto
qed

lemma checked_before_execution_holds:
  assumes t: "supported_target t" and run: "\<And>c. \<exists>c'. sw c [0, 0, 0, 0] 0 4 = (Inr 0, c')"
  shows "checked_before_execution t sw c"
proof -
  let ?g = "\<lparr>caller_cell = CELL, endpoint_handle = ENDPOINT, compute = c\<rparr>"
  let ?v = "\<lambda>off d. \<lparr>entry = sample_grant, snapshot_offset = off, data = d\<rparr>"
  have cell: "holder_cell (cap sample_grant) = CELL" "slot (cap sample_grant) = 7"
    by (simp_all add: sample_grant_def CELL_def)
  have auth: "authorize t ?g (header_encode sample_header) [?v off d] CELL 15 =
      bindE (payload_window t sample_header (?v off d)) (\<lambda>p. Ok (sample_header, p))" for off d
    using sample_on_route [of ?g sample_grant t off d 15] cell sample_grants_now
    by (simp add: grant_verdict_cases)
  have h: "unat (payload_offset sample_header) = 8" "unat (payload_bytes sample_header) = 4"
    by (simp_all add: sample_header_def)
  have "unat (grant_bytes sample_grant) = 1024" by (simp add: sample_grant_def)
  note window = payload_window_Inr_iff [of t sample_header, unfolded h]
  have range: "payload_window t sample_header (?v 9 [0, 0, 0, 0]) = Inl Erange"
      "payload_window t sample_header (?v 8 [0, 0, 0]) = Inl Erange"
      "payload_window t sample_header (?v 0xFFFFFFFFFFFFFFFF [0, 0, 0, 0]) = Inl Erange"
      "payload_window t sample_header (?v 1022 [0, 0, 0, 0]) = Inl Erange"
    by (rule window_Erange; simp add: window)+
  have "(4 :: nat) < 2 ^ ptr_width t" using t by (auto simp: supported_target_def)
  then have ok: "payload_window t sample_header (?v 8 [0, 0, 0, 0]) = Inr [0, 0, 0, 0]"
    by (simp add: window \<open>unat (grant_bytes sample_grant) = 1024\<close> slice_def)
  have fields: "family sample_header = VF_FAMILY_SGPU" "opcode sample_header = VF_SGPU_SUBMIT_COMMAND_LIST"
      "object sample_header = ENDPOINT"
    by (simp_all add: sample_header_def header_new_def ENDPOINT_def)
  have decode: "granted_header h' \<Longrightarrow> decode_grant_header (header_encode h') = Inr h'" for h'
    by (simp add: decode_grant_header_Inr_iff)
  have routed: "granted_header (sample_header\<lparr>object := ENDPOINT + 1\<rparr>)"
    by (simp add: granted_header_def sample_header_def header_new_def header_default_def known_opcode_def)
  have other: "authorize t ?g (header_encode sample_header) [?v 8 [0, 0, 0, 0]] (CELL + 1) 15 = Inl Eperm"
      "authorize t ?g (header_encode (sample_header\<lparr>object := ENDPOINT + 1\<rparr>)) [?v 8 [0, 0, 0, 0]] CELL 15 = Inl Eperm"
    using decode [OF sample_header_granted] decode [OF routed] fields by (simp_all add: authorize_def)
  have op: "authorize t ?g (header_encode (sample_header\<lparr>opcode := x\<rparr>)) [?v 8 [0, 0, 0, 0]] CELL 15 = Inl Enotsup"
    if "x \<in> {1, 2, 3, 4, 6, 7}" for x
  proof -
    have "granted_header (sample_header\<lparr>opcode := x\<rparr>)"
      using that by (auto simp: granted_header_def sample_header_def header_new_def header_default_def
        known_opcode_def)
    from decode [OF this] that show ?thesis by (auto simp: authorize_def)
  qed
  obtain c' where "sw c [0, 0, 0, 0] 0 4 = (Inr 0, c')" using run by blast
  then show ?thesis
    by (simp add: checked_before_execution_def test_session_ok grant_submit_def auth range ok other op Let_def)
qed

lemma conversion_rechecks_holds:
  assumes t: "supported_target t" and r: "\<forall>n. reserve_ok t n"
  shows "conversion_rechecks t c"
proof -
  let ?g = "\<lparr>caller_cell = CELL, endpoint_handle = ENDPOINT, compute = c\<rparr>"
  let ?p = "le_bytes 4 (0 :: u32)"
  let ?revoked = "sample_grant\<lparr>grant_state := 2, cap := (cap sample_grant)\<lparr>cap_state := 2\<rparr>\<rparr>"
  have valid: "valid_frame conversion_frame"
    by (simp add: conversion_frame_def valid_frame_def inline_header_def sample_header_def header_new_def
        header_default_def)
  have "(header conversion_frame)\<lparr>message_bytes := VF_MSG_BYTES, payload_grant := GRANT, payload_offset := 8\<rparr> =
      sample_header"
    by (simp add: conversion_frame_def sample_header_def header_new_def header_default_def GRANT_def)
  then have wire: "(inline_to_grant t conversion_frame GRANT 8 :: (_, unit grant_submit_error) result) =
      Inr (header_encode sample_header, ?p)"
    using valid sample_header_granted by (simp add: inline_to_grant_Inr_iff [OF t] conversion_frame_def)
  have cell: "holder_cell (cap sample_grant) = CELL" "slot (cap sample_grant) = 7"
      "unat (grant_bytes sample_grant) = 1024"
    by (simp_all add: sample_grant_def CELL_def)
  have h: "unat (payload_offset sample_header) = 8" "unat (payload_bytes sample_header) = 4"
      "payload_bytes sample_header = 4" "message_bytes sample_header = 64"
    by (simp_all add: sample_header_def header_new_def header_default_def)
  have "(4 :: nat) < 2 ^ ptr_width t" using t by (auto simp: supported_target_def)
  then have "payload_window t sample_header \<lparr>entry = sample_grant, snapshot_offset = 8, data = ?p\<rparr> = Inr ?p"
    by (simp add: payload_window_Inr_iff h cell slice_def del: le_bytes.simps)
  then have auth: "authorize t ?g (header_encode sample_header)
      [\<lparr>entry = sample_grant, snapshot_offset = 8, data = ?p\<rparr>] CELL 15 = Inr (sample_header, ?p)"
    using sample_on_route [of ?g sample_grant t 8 ?p 15] cell sample_grants_now
    by (simp add: grant_verdict_cases del: le_bytes.simps)
  let ?n = "normalized sample_header ?p"
  have inline: "(to_inline t ?g (header_encode sample_header)
      [\<lparr>entry = sample_grant, snapshot_offset = 8, data = ?p\<rparr>] CELL 15 :: (_, unit grant_submit_error) result) =
      Inr ?n"
    using r by (intro to_inline_eq [OF t auth]) simp
  have n: "valid_frame ?n" by (rule normalized_valid(1) [OF auth])
  then have returned: "bindE (try_to_wire t ?n) (from_wire t) = Inr ?n"
    using from_wire_padded [OF t n pad_lengths_zero_pads [OF n]] r
    by (simp add: try_to_wire_Inr_iff [OF t, THEN iffD2])
  have "\<not> granted_header (header ?n)" by (simp add: granted_header_def normalized_def h)
  then have "\<exists>e. decode_grant_header (header_encode (header ?n)) = Inl e"
    by (cases "decode_grant_header (header_encode (header ?n))")
      (auto simp: decode_grant_header_Inr_iff header_encode_inject)
  then have again: "isl (to_inline t ?g (header_encode (header ?n)) views CELL 15
      :: (_, unit grant_submit_error) result)" for views
    by (auto simp: to_inline_def authorize_def)
  have "grant_verdict sample_header \<lparr>entry = ?revoked, snapshot_offset = 8, data = ?p\<rparr> 1 15 = Inl Estale"
    by (simp add: grant_verdict_cases grants_def)
  then have stale: "(to_inline t ?g (header_encode sample_header)
      [\<lparr>entry = ?revoked, snapshot_offset = 8, data = ?p\<rparr>] CELL 15 :: (_, unit grant_submit_error) result) =
      Inl (GrantFailed Estale)"
    using sample_on_route [of ?g ?revoked t 8 ?p 15] cell by (simp add: to_inline_def)
  show ?thesis
    unfolding conversion_rechecks_def Let_def wire test_session_ok
    using returned again
    by (simp add: inline stale del: le_bytes.simps)
      (simp add: normalized_def conversion_frame_def h)
qed

end
