(* ===== verification/Archive_Tests.thy ===== *)
theory Archive_Tests
  imports Runner_Report_Tests Runner_Archive
begin

text \<open>
  The unit tests of the archived runner on worker reports. Their text is that of the current ones
  up to the schema names in the fixtures, so a fixture is defined again where it names a schema,
  as \<open>arch_<fixture>\<close>, and each test is \<open>arch_<test>\<close>. They are not evaluated again: an archived
  fixture is the current one with its schema names exchanged, overwriting fields commutes with the
  exchange, and the archived verdict follows from the current one.
\<close>

section \<open>The archived fixtures\<close>

definition arch_tcg_report :: "nat \<Rightarrow> nat \<Rightarrow> json" where
  "arch_tcg_report xnu_offset userspace_offset = JObject
     [(''schema'', JString ''NextCore.vmapple-tcg/1''), (''engine'', JString ''qemu-vmapple-tcg''),
      (''target_major'', num 27), (''tcg_runtime_started'', JBool True), (''returncode'', num 0),
      (''termination'', JString ''guest_exit''), (''xnu_executed'', JBool True),
      (''macos_userspace_reached'', JBool True), (''guest_target_match'', JBool True),
      (''guest_kernel_major'', num 27), (''input_integrity'', JBool True),
      (''macos_boot_verified'', JBool True),
      (''observed_markers'', JObject
        [(''xnu'', JArray [JObject [(''marker'', JString ''Darwin Kernel Version''),
            (''byte_offset'', num xnu_offset), (''kernel_major'', num 27)]]),
         (''userspace'', JArray [JObject [(''marker'', JString ''launchd:''),
            (''byte_offset'', num userspace_offset)]])])]"

definition arch_boolean_report :: json where
  "arch_boolean_report = JObject
     [(''schema'', JString ''NextCore.vmapple-tcg/1''), (''engine'', JString ''qemu-vmapple-tcg''),
      (''target_major'', num 27), (''tcg_runtime_started'', JBool True),
      (''native_runtime_started'', JBool True), (''macos_boot_verified'', JBool True),
      (''xnu_executed'', JBool True), (''macos_userspace_reached'', JBool True),
      (''guest_target_match'', JBool True), (''guest_kernel_major'', num 27),
      (''input_integrity'', JBool True), (''returncode'', num 0),
      (''termination'', JString ''guest_exit'')]"

definition arch_sample_handoff_value :: json where
  "arch_sample_handoff_value = JObject
     [(''schema'', JString ''NextCore.iboot-xnu-handoff/1''), (''valid'', JBool True),
      (''target_major'', num 27), (''mode'', JString ''recovery''),
      (''claims'', JObject [(''xnu_executed'', JBool True),
        (''macos_userspace_reached'', JBool True), (''macos_boot_verified'', JBool True)])]"

definition arch_launch_of :: "bool \<Rightarrow> json \<Rightarrow> (string \<times> json) list \<Rightarrow> json" where
  "arch_launch_of booted major evidence = JObject
     ([(''schema'', JString ''NextCore.vmapple-gui/1''), (''target_major'', num 27),
       (''output'', JString ''/output/new-run''), (''machine_type'', JString ''iBoot(AArch64)''),
       (''personality'', JString ''iBoot''), (''guest_os'', JString ''macOS''),
       (''boot_mode'', JString ''recovery''), (''runtime_started'', JBool True), (''pid'', num 13),
       (''returncode'', num 0), (''termination'', JString ''time_budget''),
       (''dfu_upload'', JObject [(''transfer_complete'', JBool True)]),
       (''transition'', JObject [(''state'', JString ''ibec-ready'')]),
       (''stage2'', JObject [(''stage2_serial_started'', JBool True),
         (''stage2_serial_start_byte_offset'', num 5), (''observed'', JBool True),
         (''byte_offset'', num 20)]),
       (''restore_chain'', JObject [(''sequence_sent'', JBool True),
         (''input_integrity'', JBool True), (''bootx_acknowledged'', JBool True),
         (''steps'', sample_steps)]),
       (''guest_panic'', JObject [(''observed'', JBool False)]), (''input_integrity'', JBool True),
       (''xnu_executed'', JBool booted), (''guest_kernel_major'', major),
       (''guest_target_match'', JBool booted), (''macos_boot_verified'', JBool booted),
       (''error'', JNull)] @ evidence)"

definition arch_receipt_of :: "json \<Rightarrow> bool \<Rightarrow> json \<Rightarrow> json" where
  "arch_receipt_of raw booted major = JObject
     [(''schema'', JString ''nextcore.recovery-supervisor/1''), (''target_major'', num 27),
      (''requested_output'', JString ''/output/new-run''), (''output'', JString ''/output/new-run''),
      (''supervisor_pid'', num 11), (''worker'', sample_worker),
      (''cleanup'', JObject [(''leader_reaped'', JBool True), (''remaining_pids'', JArray []),
        (''complete'', JBool True)]),
      (''input_integrity'', JObject [(''unchanged'', JBool True), (''records'', JArray [])]),
      (''deadline'', JObject [(''total_timeout_seconds'', num 75), (''cleanup_grace_seconds'', num 5),
        (''exceeded'', JBool False)]),
      (''cancel'', JObject [(''requested'', JBool False), (''reason'', JNull), (''signal'', JNull)]),
      (''launch_report'', JObject [(''path'', JString ''/output/new-run/launch.json''),
        (''complete'', JBool True), (''raw_schema'', JString ''NextCore.vmapple-gui/1''),
        (''identity_valid'', JBool True), (''runtime_pid_observed'', JBool True), (''raw'', raw)]),
      (''boot'', JObject [(''xnu_executed'', JBool booted), (''guest_kernel_major'', major),
        (''target_match'', JBool booted), (''userspace'', JBool booted),
        (''macos_boot_verified'', JBool booted)])]"

definition arch_recovery_receipt :: json where
  "arch_recovery_receipt = arch_receipt_of (arch_launch_of False JNull []) False JNull"

definition arch_sample_raw_launch :: json where
  "arch_sample_raw_launch = arch_launch_of True (num 27)
     [(''macos_userspace_reached'', JBool True), (''observed_markers'', sample_markers),
      (''iboot_xnu_handoff'', arch_sample_handoff_value)]"

definition arch_sample_receipt :: json where
  "arch_sample_receipt = arch_receipt_of arch_sample_raw_launch True (num 27)"

definition arch_identity_rows :: "(string list \<times> json) list" where
  "arch_identity_rows =
     [([''schema''], JString ''NextCore.vmapple-tcg/1''), ([''target_major''], num 26),
      ([''requested_output''], JString ''/different-request''),
      ([''launch_report'', ''raw_schema''], JString ''NextCore.vmapple-tcg/1''),
      ([''launch_report'', ''identity_valid''], JBool False),
      ([''launch_report'', ''raw'', ''schema''], JString ''wrong''),
      ([''launch_report'', ''raw'', ''target_major''], num 26),
      ([''launch_report'', ''raw'', ''machine_type''], JString ''x86_64''),
      ([''launch_report'', ''raw'', ''personality''], JString ''other''),
      ([''launch_report'', ''raw'', ''guest_os''], JString ''iOS''),
      ([''launch_report'', ''raw'', ''boot_mode''], JString ''direct-macos''),
      ([''launch_report'', ''raw'', ''runtime_started''], num 1),
      ([''launch_report'', ''raw'', ''pid''], JNull)]"

section \<open>The archived tests\<close>

definition arch_booleans_do_not_prove_boot :: bool where
  "arch_booleans_do_not_prove_boot \<longleftrightarrow>
     (let out = arch_evaluate_report sample_request (Some 0) (Inr arch_boolean_report)
      in guest_runtime_started out \<and> guest_process_terminated out \<and> \<not> macos_boot_verified out \<and>
        \<not> xnu_executed out \<and> (\<exists>reason. guest_state_of out = Faulted reason))"

definition arch_preflight_failure_remains :: bool where
  "arch_preflight_failure_remains \<longleftrightarrow>
     (let out = arch_evaluate_report sample_request (Some 2) (Inr (JObject
        [(''error'', JString ''qemu unavailable''), (''macos_boot_verified'', JBool False)]))
      in \<not> guest_runtime_started out \<and> failure out = Some ''qemu unavailable'') \<and>
     (let out = arch_evaluate_report sample_request (Some 0) (Inl ''truncated output'')
      in \<not> macos_boot_verified out \<and> failure out = Some ''truncated output'')"

definition arch_wrong_target_denied :: bool where
  "arch_wrong_target_denied \<longleftrightarrow>
     (let denied = (\<lambda>e. \<not> macos_boot_verified (arch_evaluate_report sample_request (Some 0) (Inr e))) in
      case assign [''guest_kernel_major''] (num 26) (arch_tcg_report 0 100) of
        None \<Rightarrow> False
      | Some base \<Rightarrow> denied base \<and>
          (case assign_all [([''guest_kernel_major''], num 27), ([''input_integrity''], JBool False)] base of
             None \<Rightarrow> False | Some mutated \<Rightarrow> denied mutated))"

definition arch_evidence_verdict_requires :: bool where
  "arch_evidence_verdict_requires \<longleftrightarrow>
     (let base = arch_tcg_report 100 200 in
      macos_boot_verified (arch_evaluate_report sample_request (Some 0) (Inr base)) \<and>
      \<not> macos_boot_verified (arch_evaluate_report sample_request (Some 2) (Inr base)) \<and>
      (case assign [''observed_markers'', ''userspace'', ''0'', ''byte_offset''] (num 0) base of
         None \<Rightarrow> False
       | Some reversed \<Rightarrow> \<not> macos_boot_verified (arch_evaluate_report sample_request (Some 0) (Inr reversed))) \<and>
      (case assign_all [([''tcg_runtime_started''], JBool False), ([''native_runtime_started''], JBool True)] base of
         None \<Rightarrow> False
       | Some wrong_runtime \<Rightarrow>
           (let out = arch_evaluate_report sample_request (Some 0) (Inr wrong_runtime)
            in \<not> guest_runtime_started out \<and> \<not> macos_boot_verified out)))"

abbreviation arch_recovery_outcome :: "json \<Rightarrow> run_outcome" where
  "arch_recovery_outcome e \<equiv> arch_evaluate_report sample_recovery_request (Some 0) (Inr e)"

definition arch_bootx_is_not_boot :: bool where
  "arch_bootx_is_not_boot \<longleftrightarrow>
     (let outcome = arch_recovery_outcome arch_recovery_receipt in
      runner_completed outcome \<and> guest_runtime_started outcome \<and> guest_process_terminated outcome \<and>
      input_integrity outcome \<and> \<not> xnu_executed outcome \<and> \<not> macos_userspace_reached outcome \<and>
      \<not> macos_boot_verified outcome \<and>
      (case recovery_progress_of outcome of
         None \<Rightarrow> False
       | Some progress \<Rightarrow>
           dfu_upload_completed progress \<and> ibec_endpoint_advertised progress \<and>
           stage2_banner_observed progress \<and> stage2_prompt_observed progress \<and>
           restore_sequence_sent progress \<and> bootx_acknowledged progress \<and>
           restore_role_step_count progress = 4) \<and>
      report outcome = Some arch_recovery_receipt \<and> engine outcome = ''qemu-vmapple-recovery'')"

definition arch_mismatched_identity_rejected :: bool where
  "arch_mismatched_identity_rejected \<longleftrightarrow>
     all_mutants arch_recovery_receipt
       (\<lambda>e. let outcome = arch_recovery_outcome e in
         \<not> guest_runtime_started outcome \<and> \<not> guest_process_terminated outcome \<and>
         \<not> macos_boot_verified outcome \<and> recovery_progress_of outcome = Some progress_default)
       (arch_identity_rows @ output_rows)"

definition arch_unique_qemu_required :: bool where
  "arch_unique_qemu_required \<longleftrightarrow>
     all_mutants arch_sample_receipt
       (\<lambda>e. let outcome = arch_recovery_outcome e in
         \<not> guest_runtime_started outcome \<and> \<not> guest_process_terminated outcome \<and>
         \<not> xnu_executed outcome \<and> \<not> macos_boot_verified outcome)
       (process_rows @ inventory_rows) \<and>
     all_mutants arch_sample_receipt (\<lambda>reused. \<not> guest_runtime_started (arch_recovery_outcome reused))
       [([''worker'', ''observed_processes''],
         JArray (array_items (json_path arch_sample_receipt [''worker'', ''observed_processes'']) @
           [reused_process]))]"

definition arch_transport_loss_unconfirmed :: bool where
  "arch_transport_loss_unconfirmed \<longleftrightarrow>
     list_all (\<lambda>parsed. let outcome = arch_evaluate_report sample_recovery_request (Some 0) parsed in
         \<not> guest_process_terminated outcome \<and> \<not> macos_boot_verified outcome)
       [Inl ''WSL transport closed'', Inr JNull, Inr (JArray []),
        Inr (JObject [(''error'', JString ''supervisor unavailable'')])] \<and>
     all_mutants arch_recovery_receipt
       (\<lambda>e. let outcome = arch_recovery_outcome e in
         guest_runtime_started outcome \<and> \<not> guest_process_terminated outcome \<and>
         \<not> macos_boot_verified outcome) cleanup_rows"

definition arch_strict_evidence_required :: bool where
  "arch_strict_evidence_required \<longleftrightarrow>
     macos_boot_verified (arch_recovery_outcome arch_sample_receipt) \<and>
     all_mutants arch_sample_receipt (\<lambda>e. \<not> macos_boot_verified (arch_recovery_outcome e))
       (evidence_rows @ marker_rows) \<and>
     list_all (\<lambda>exit. \<not> macos_boot_verified
         (arch_evaluate_report sample_recovery_request exit (Inr arch_sample_receipt))) [None, Some 1, Some 2]"

definition arch_output_correlated :: bool where
  "arch_output_correlated \<longleftrightarrow>
     (let request = sample_recovery_request\<lparr>output_path := ''runs/../result''\<rparr>;
          started = (\<lambda>e. guest_runtime_started (arch_evaluate_report request (Some 0) (Inr e)))
      in case assign_all relative_rows arch_recovery_receipt of
        None \<Rightarrow> False
      | Some base \<Rightarrow>
          (let outcome = arch_evaluate_report request (Some 0) (Inr base)
           in guest_runtime_started outcome \<and> guest_process_terminated outcome \<and>
             \<not> macos_boot_verified outcome) \<and>
          (case assign [''requested_output''] JNull base of None \<Rightarrow> False | Some e \<Rightarrow> \<not> started e) \<and>
          list_all (\<lambda>output. case assign_all
              [([''output''], output), ([''launch_report'', ''raw'', ''output''], output)] base of
              None \<Rightarrow> False | Some e \<Rightarrow> \<not> started e)
            [JNull, JString ''relative-only''])"

definition arch_roles_counted :: bool where
  "arch_roles_counted \<longleftrightarrow>
     (let chain = [''launch_report'', ''raw'', ''restore_chain''] in
      case assign (chain @ [''steps'', ''3'', ''upload'', ''transfer_complete'']) (JBool False) arch_recovery_receipt of
        None \<Rightarrow> False
      | Some changed \<Rightarrow>
         (let steps = array_items (json_path changed (chain @ [''steps''])) in
          case assign (chain @ [''steps'']) (JArray (steps @ [steps ! 0])) changed of
            None \<Rightarrow> False
          | Some base \<Rightarrow>
             (case recovery_progress_of (arch_recovery_outcome base) of
                None \<Rightarrow> False
              | Some progress \<Rightarrow>
                  restore_role_step_count progress = 3 \<and> \<not> restore_sequence_sent progress) \<and>
             (case assign (chain @ [''post_bootx_panic'']) (JBool True) base of
                None \<Rightarrow> False
              | Some panicked \<Rightarrow>
                  (case recovery_progress_of (arch_recovery_outcome panicked) of
                     None \<Rightarrow> False
                   | Some progress \<Rightarrow> firmware_panic_observed progress) \<and>
                  \<not> macos_boot_verified (arch_recovery_outcome panicked))))"

section \<open>Overwriting fields commutes with the exchange\<close>

text \<open>Whether the value a pointer leads to stands at a schema entry.\<close>

definition end_flag :: "bool \<Rightarrow> string list \<Rightarrow> bool" where
  "end_flag b ks = (if ks = [] then b else schema_key (last ks))"

lemma end_flag_simps [simp]: "end_flag b [] = b" "end_flag b (k # ks) = end_flag (schema_key k) ks"
  by (simp_all add: end_flag_def)

lemma token_not_schema: "token_index k n = Some i \<Longrightarrow> \<not> schema_key k"
proof
  assume "token_index k n = Some i" "schema_key k"
  moreover have "schema_key k \<Longrightarrow> names_entry k" by (auto simp: schema_key_def names_entry_def)
  ultimately show False by (simp add: token_index_entry)
qed

abbreviation rename_entries :: "(string \<times> json) list \<Rightarrow> (string \<times> json) list" where
  "rename_entries kvs \<equiv> map (\<lambda>(k, v). (k, rename (schema_key k) v)) kvs"

lemma rename_entries_get: "map_of (rename_entries kvs) k = map_option (rename (schema_key k)) (map_of kvs k)"
  by (induction kvs) auto

lemma rename_entries_update:
  "rename_entries (AList.update k w kvs) = AList.update k (rename (schema_key k) w) (rename_entries kvs)"
  by (induction kvs) auto

lemma assign_rename:
  "assign ks (rename (end_flag b ks) x) (rename b v) = map_option (rename b) (assign ks x v)"
proof (induction ks x v arbitrary: b rule: assign.induct)
  case (2 k ks x kvs)
  have "(case map_of (rename_entries kvs) k of Some v \<Rightarrow> v | None \<Rightarrow> JNull) =
      rename (schema_key k) (case map_of kvs k of Some v \<Rightarrow> v | None \<Rightarrow> JNull)"
    by (simp add: rename_entries_get split: option.splits)
  then show ?case
    by (simp add: 2 rename_entries_update option.map_comp comp_def)
next
  case (3 k ks x)
  have "rename (schema_key k) JNull = JNull" by simp
  with 3 [of "schema_key k"] show ?case by (simp add: option.map_comp comp_def)
next
  case (4 k ks x vs)
  show ?case
  proof (cases "token_index k (length vs)")
    case (Some i)
    then have "i < length vs" by (auto simp: token_index_def find_Some_iff)
    with 4 [OF Some, of False] token_not_schema [OF Some] Some show ?thesis
      by (simp add: option.map_comp comp_def map_update)
  qed simp
qed simp_all

lemma pointer_set_rename:
  "pointer_set ks (rename (end_flag b ks) x) (rename b v) = map_option (rename b) (pointer_set ks x v)"
proof (induction ks x v arbitrary: b rule: pointer_set.induct)
  case (2 k ks x kvs)
  then show ?case
    by (cases "map_of kvs k") (simp_all add: rename_entries_get rename_entries_update option.map_comp comp_def)
next
  case (3 k ks x vs)
  show ?case
  proof (cases "token_index k (length vs)")
    case (Some i)
    then have "i < length vs" by (auto simp: token_index_def find_Some_iff)
    with 3 [OF Some, of False] token_not_schema [OF Some] Some show ?thesis
      by (simp add: option.map_comp comp_def map_update)
  qed simp
qed simp_all

abbreviation rename_rows :: "(string list \<times> json) list \<Rightarrow> (string list \<times> json) list" where
  "rename_rows rows \<equiv> map (\<lambda>(p, v). (p, rename (end_flag False p) v)) rows"

lemma assign_all_rename:
  "assign_all (rename_rows rows) (rename_report e) = map_option rename_report (assign_all rows e)"
proof -
  have "fold (\<lambda>(p, v) r. Option.bind r (assign p v)) (rename_rows rows) (map_option rename_report r) =
      map_option rename_report (fold (\<lambda>(p, v) r. Option.bind r (assign p v)) rows r)" for r
  proof (induction rows arbitrary: r)
    case (Cons row rows)
    obtain p v where row: "row = (p, v)" by (cases row)
    have "Option.bind (map_option rename_report r) (assign p (rename (end_flag False p) v)) =
        map_option rename_report (Option.bind r (assign p v))"
      by (cases r) (simp_all add: assign_rename)
    then show ?case using Cons [of "Option.bind r (assign p v)"] by (simp add: row)
  qed simp
  from this [of "Some e"] show ?thesis by (simp add: assign_all_def)
qed

lemma all_mutants_rename:
  assumes "all_mutants base ok rows" and "\<And>e. ok e \<Longrightarrow> ok' (rename_report e)"
  shows "all_mutants (rename_report base) ok' (rename_rows rows)"
  using assms(1) by (induction rows) (auto simp: all_mutants_def pointer_set_rename assms(2) split: option.splits)

section \<open>The archived fixtures are the current ones\<close>

lemma rename_num [simp]: "rename b (num n) = num n"
  by (simp add: num_def)

lemma swap_name_current:
  "swap_name ''26x86.macosvm-native/1'' = ''NextCore.macosvm-native/1''"
  "swap_name ''26x86.vmapple-tcg/1'' = ''NextCore.vmapple-tcg/1''"
  "swap_name ''26x86.vmapple-gui/1'' = ''NextCore.vmapple-gui/1''"
  "swap_name ''26x86.iboot-xnu-handoff/1'' = ''NextCore.iboot-xnu-handoff/1''"
  "swap_name ''nextcore.recovery-supervisor/1'' = ''nextcore.recovery-supervisor/1''"
  "swap_name ''wrong'' = ''wrong''"
  by (simp_all add: swap_name_def schema_names_def)

lemmas renames = swap_name_current schema_key_def

lemma arch_tcg_report_is: "arch_tcg_report m n = rename_report (tcg_report m n)"
  by (simp add: arch_tcg_report_def tcg_report_def renames)

lemma arch_boolean_report_is: "arch_boolean_report = rename_report boolean_report"
  by (simp add: arch_boolean_report_def boolean_report_def renames)

lemma rename_sample_parts:
  "rename b sample_worker = sample_worker" "rename b sample_steps = sample_steps"
  "rename b sample_markers = sample_markers" "rename b sample_handoff_value = arch_sample_handoff_value"
  by (simp_all add: sample_worker_def sample_steps_def sample_markers_def sample_handoff_value_def
      arch_sample_handoff_value_def renames)

lemma arch_launch_of_is:
  "arch_launch_of booted (rename_report major) (rename_entries evidence) = rename_report (launch_of booted major evidence)"
  by (simp add: arch_launch_of_def launch_of_def renames rename_sample_parts)

lemma rename_receipt_of:
  "rename_report (receipt_of raw booted major) = arch_receipt_of (rename_report raw) booted (rename_report major)"
  by (simp add: arch_receipt_of_def receipt_of_def renames rename_sample_parts)

lemma arch_recovery_receipt_is: "arch_recovery_receipt = rename_report recovery_receipt"
  using arch_launch_of_is [of False JNull "[]"]
  by (simp add: arch_recovery_receipt_def recovery_receipt_def rename_receipt_of)

lemma arch_sample_receipt_is: "arch_sample_receipt = rename_report sample_receipt"
proof -
  have "arch_sample_raw_launch = rename_report sample_raw_launch"
    using arch_launch_of_is [of True "num 27" "[(''macos_userspace_reached'', JBool True),
      (''observed_markers'', sample_markers), (''iboot_xnu_handoff'', sample_handoff_value)]"]
    by (simp add: arch_sample_raw_launch_def sample_raw_launch_def rename_sample_parts)
  then show ?thesis by (simp add: arch_sample_receipt_def sample_receipt_def rename_receipt_of)
qed

lemma arch_identity_rows_are: "arch_identity_rows = rename_rows identity_rows"
  by (simp add: arch_identity_rows_def identity_rows_def renames)

lemma rename_other_rows:
  "rename_rows output_rows = output_rows" "rename_rows process_rows = process_rows"
  "rename_rows inventory_rows = inventory_rows" "rename_rows cleanup_rows = cleanup_rows"
  "rename_rows evidence_rows = evidence_rows" "rename_rows marker_rows = marker_rows"
  "rename_rows relative_rows = relative_rows"
  by (simp_all add: output_rows_def process_rows_def inventory_rows_def cleanup_rows_def
      evidence_rows_def marker_rows_def relative_rows_def renames)

section \<open>The archived tests hold\<close>

lemma verdict_of_renamed:
  "arch_evaluate_report q exit (Inr (rename_report e)) =
     (evaluate_report q exit (Inr e))\<lparr>report := Some (rename_report e)\<rparr>"
  using archived_verdict [of q exit "Inr e"] by (simp add: report_of_def)

lemma verdict_of_failure:
  "arch_evaluate_report q exit (Inl m) = (evaluate_report q exit (Inl m))\<lparr>report := None\<rparr>"
  using archived_verdict [of q exit "Inl m"] by (simp add: report_of_def)

lemma guest_state_report [simp]: "guest_state_of (o'\<lparr>report := r\<rparr>) = guest_state_of o'"
  by (simp add: guest_state_of_def)

lemma arch_booleans_do_not_prove_boot_holds: arch_booleans_do_not_prove_boot
  using booleans_do_not_prove_boot_holds
  unfolding arch_booleans_do_not_prove_boot_def booleans_do_not_prove_boot_def arch_boolean_report_is
  by (simp add: verdict_of_renamed Let_def)

lemma arch_preflight_failure_remains_holds: arch_preflight_failure_remains
  using preflight_failure_remains_holds
    verdict_of_renamed [of sample_request "Some 2" "JObject [(''error'', JString ''qemu unavailable''),
      (''macos_boot_verified'', JBool False)]"]
  unfolding arch_preflight_failure_remains_def preflight_failure_remains_def
  by (simp add: verdict_of_failure Let_def renames)

lemma arch_wrong_target_denied_holds: arch_wrong_target_denied
proof -
  have "assign [''guest_kernel_major''] (num 26) (arch_tcg_report 0 100) =
      map_option rename_report (assign [''guest_kernel_major''] (num 26) (tcg_report 0 100))"
    using assign_rename [of "[''guest_kernel_major'']" False "num 26" "tcg_report 0 100"]
    by (simp add: arch_tcg_report_is)
  moreover have "assign_all [([''guest_kernel_major''], num 27), ([''input_integrity''], JBool False)] (rename_report e) =
      map_option rename_report (assign_all [([''guest_kernel_major''], num 27), ([''input_integrity''], JBool False)] e)" for e
    using assign_all_rename [of "[([''guest_kernel_major''], num 27), ([''input_integrity''], JBool False)]" e] by simp
  ultimately show ?thesis
    using wrong_target_denied_holds unfolding arch_wrong_target_denied_def wrong_target_denied_def
    by (auto simp: verdict_of_renamed Let_def simp del: assign_all_simps split: option.splits)
qed

lemma arch_evidence_verdict_requires_holds: arch_evidence_verdict_requires
proof -
  have "assign [''observed_markers'', ''userspace'', ''0'', ''byte_offset''] (num 0) (rename_report e) =
      map_option rename_report (assign [''observed_markers'', ''userspace'', ''0'', ''byte_offset''] (num 0) e)" for e
    using assign_rename [of "[''observed_markers'', ''userspace'', ''0'', ''byte_offset'']" False "num 0" e] by simp
  moreover have "assign_all [([''tcg_runtime_started''], JBool False), ([''native_runtime_started''], JBool True)] (rename_report e) =
      map_option rename_report (assign_all [([''tcg_runtime_started''], JBool False), ([''native_runtime_started''], JBool True)] e)" for e
    using assign_all_rename [of "[([''tcg_runtime_started''], JBool False), ([''native_runtime_started''], JBool True)]" e]
    by simp
  ultimately show ?thesis
    using evidence_verdict_requires_holds
    unfolding arch_evidence_verdict_requires_def evidence_verdict_requires_def arch_tcg_report_is Let_def
    by (auto simp: verdict_of_renamed simp del: assign_all_simps split: option.splits)
qed

lemma arch_bootx_is_not_boot_holds: arch_bootx_is_not_boot
  using bootx_is_not_boot_holds
  unfolding arch_bootx_is_not_boot_def bootx_is_not_boot_def arch_recovery_receipt_is
  by (simp add: verdict_of_renamed Let_def)

lemma arch_mismatched_identity_rejected_holds: arch_mismatched_identity_rejected
  unfolding arch_mismatched_identity_rejected_def arch_recovery_receipt_is
proof -
  have rows: "arch_identity_rows @ output_rows = rename_rows (identity_rows @ output_rows)"
    by (simp add: arch_identity_rows_are rename_other_rows)
  show "all_mutants (rename_report recovery_receipt)
      (\<lambda>e. let outcome = arch_recovery_outcome e in
        \<not> guest_runtime_started outcome \<and> \<not> guest_process_terminated outcome \<and>
        \<not> macos_boot_verified outcome \<and> recovery_progress_of outcome = Some progress_default)
      (arch_identity_rows @ output_rows)"
    unfolding rows
    by (rule all_mutants_rename [OF mismatched_identity_rejected_holds [unfolded mismatched_identity_rejected_def]])
      (simp add: verdict_of_renamed Let_def)
qed

lemma rename_path: "json_path (rename b e) ks = rename (end_flag b ks) (json_path e ks)"
  by (induction ks arbitrary: b e) (simp_all add: rename_index)

lemma rename_items: "array_items (rename b v) = map rename_report (array_items v)"
  by (cases v) (simp_all add: array_items_def)

lemma arch_unique_qemu_required_holds: arch_unique_qemu_required
proof -
  let ?observed = "[''worker'', ''observed_processes'']"
  have u: "all_mutants sample_receipt (\<lambda>e. let outcome = recovery_outcome e in
         \<not> guest_runtime_started outcome \<and> \<not> guest_process_terminated outcome \<and>
         \<not> xnu_executed outcome \<and> \<not> macos_boot_verified outcome) (process_rows @ inventory_rows)"
      "all_mutants sample_receipt (\<lambda>reused. \<not> guest_runtime_started (recovery_outcome reused))
       [(?observed, JArray (array_items (json_path sample_receipt ?observed) @ [reused_process]))]"
    using unique_qemu_required_holds unfolding unique_qemu_required_def by blast+
  have rows: "process_rows @ inventory_rows = rename_rows (process_rows @ inventory_rows)"
    by (simp add: rename_other_rows)
  have reused: "[(?observed, JArray (array_items (json_path (rename_report sample_receipt) ?observed) @ [reused_process]))] =
      rename_rows [(?observed, JArray (array_items (json_path sample_receipt ?observed) @ [reused_process]))]"
    by (simp add: rename_path rename_items reused_process_def renames del: json_path_simps)
  show ?thesis
    unfolding arch_unique_qemu_required_def arch_sample_receipt_is reused
    using all_mutants_rename [OF u(1), folded rows] all_mutants_rename [OF u(2)]
    by (simp add: verdict_of_renamed Let_def)
qed

lemma arch_transport_loss_unconfirmed_holds: arch_transport_loss_unconfirmed
proof -
  let ?ok = "\<lambda>out. \<not> guest_process_terminated out \<and> \<not> macos_boot_verified out"
  let ?lost = "[Inl ''WSL transport closed'', Inr JNull, Inr (JArray []),
      Inr (JObject [(''error'', JString ''supervisor unavailable'')])]"
  have t: "list_all (\<lambda>parsed. ?ok (evaluate_report sample_recovery_request (Some 0) parsed)) ?lost"
      "all_mutants recovery_receipt (\<lambda>e. let outcome = recovery_outcome e in
         guest_runtime_started outcome \<and> \<not> guest_process_terminated outcome \<and>
         \<not> macos_boot_verified outcome) cleanup_rows"
    using transport_loss_unconfirmed_holds unfolding transport_loss_unconfirmed_def by (simp_all add: Let_def)
  have "map rename_parsed ?lost = ?lost" by (simp add: renames)
  moreover have "?ok (arch_evaluate_report sample_recovery_request (Some 0) (rename_parsed parsed))"
    if "?ok (evaluate_report sample_recovery_request (Some 0) parsed)" for parsed
    using that by (simp add: archived_verdict)
  then have "list_all (\<lambda>parsed. ?ok (arch_evaluate_report sample_recovery_request (Some 0) parsed)) (map rename_parsed ?lost)"
    using t(1) by (simp only: list_all_iff set_map) blast
  ultimately show ?thesis
    unfolding arch_transport_loss_unconfirmed_def arch_recovery_receipt_is
    using all_mutants_rename [OF t(2), unfolded rename_other_rows] by (simp add: verdict_of_renamed Let_def)
qed

lemma arch_strict_evidence_required_holds: arch_strict_evidence_required
proof -
  have s: "macos_boot_verified (recovery_outcome sample_receipt)"
      "all_mutants sample_receipt (\<lambda>e. \<not> macos_boot_verified (recovery_outcome e)) (evidence_rows @ marker_rows)"
      "list_all (\<lambda>exit. \<not> macos_boot_verified
         (evaluate_report sample_recovery_request exit (Inr sample_receipt))) [None, Some 1, Some 2]"
    using strict_evidence_required_holds unfolding strict_evidence_required_def by blast+
  have rows: "evidence_rows @ marker_rows = rename_rows (evidence_rows @ marker_rows)"
    by (simp add: rename_other_rows)
  show ?thesis
    unfolding arch_strict_evidence_required_def arch_sample_receipt_is
    using s(1,3) all_mutants_rename [OF s(2), folded rows] by (simp add: verdict_of_renamed)
qed

lemma assign_named_rename:
  "rename (end_flag False ks) x = x \<Longrightarrow>
    assign ks x (rename_report e) = map_option rename_report (assign ks x e)"
  using assign_rename [of ks False x e] by simp

lemma arch_output_correlated_holds: arch_output_correlated
proof -
  have base: "assign_all relative_rows (rename_report e) = map_option rename_report (assign_all relative_rows e)" for e
    using assign_all_rename [of relative_rows e] by (simp only: rename_other_rows)
  have requested: "assign [''requested_output''] JNull (rename_report e) =
      map_option rename_report (assign [''requested_output''] JNull e)" for e
    by (rule assign_named_rename) simp
  have outputs: "assign_all [([''output''], x), ([''launch_report'', ''raw'', ''output''], x)] (rename_report e) =
      map_option rename_report (assign_all [([''output''], x), ([''launch_report'', ''raw'', ''output''], x)] e)"
    if "rename_report x = x" for x e
    using assign_all_rename [of "[([''output''], x), ([''launch_report'', ''raw'', ''output''], x)]" e] that
    by (simp add: schema_key_def del: assign_all_simps)
  show ?thesis
    using output_correlated_holds
    unfolding arch_output_correlated_def output_correlated_def arch_recovery_receipt_is Let_def base
    by (auto simp: verdict_of_renamed requested outputs simp del: assign_all_simps split: option.splits)
qed

lemma arch_roles_counted_holds: arch_roles_counted
proof -
  let ?chain = restore_chain_path
  have transfer: "assign (?chain @ [''steps'', ''3'', ''upload'', ''transfer_complete'']) (JBool False) (rename_report e) =
      map_option rename_report (assign (?chain @ [''steps'', ''3'', ''upload'', ''transfer_complete'']) (JBool False) e)" for e
    by (rule assign_named_rename) simp
  have panic: "assign (?chain @ [''post_bootx_panic'']) (JBool True) (rename_report e) =
      map_option rename_report (assign (?chain @ [''post_bootx_panic'']) (JBool True) e)" for e
    by (rule assign_named_rename) simp
  have steps: "assign (?chain @ [''steps'']) (JArray (map rename_report xs)) (rename_report e) =
      map_option rename_report (assign (?chain @ [''steps'']) (JArray xs) e)" for xs e
    using assign_rename [of "?chain @ [''steps'']" False "JArray xs" e] by (simp add: schema_key_def end_flag_def)
  obtain changed where c: "assign (?chain @ [''steps'', ''3'', ''upload'', ''transfer_complete''])
      (JBool False) recovery_receipt = Some changed"
    and three: "array_items (json_path changed (?chain @ [''steps''])) = changed_steps"
    by (rule last_role_lost)
  have items: "array_items (json_path (rename_report changed) (?chain @ [''steps''])) = map rename_report changed_steps"
    by (simp only: rename_path rename_items three)
  have first: "map rename_report changed_steps ! 0 = rename_report (changed_steps ! 0)"
    by (rule nth_map) simp
  have again: "map rename_report changed_steps @ [map rename_report changed_steps ! 0] =
      map rename_report (changed_steps @ [changed_steps ! 0])"
    unfolding first by simp
  show ?thesis
    using roles_counted_holds
    unfolding arch_roles_counted_def roles_counted_def arch_recovery_receipt_is Let_def transfer c option.map option.case
      items three again steps
    by (auto simp: verdict_of_renamed panic simp del: append.simps map_append split: option.splits)
qed

end
