(* ===== verification/Spec2Isabelle.thy ===== *)
theory Spec2Isabelle
  imports Sgpu_Ledger Vulkan_Program Vf_Policy Guest_Backend Runner_Verdict Runner_Report_Tests
    Runner_Request_Tests Archive_Run Run_Host Session_Tests Guest_Tests
    Envelope_Layout Memory_Tests Grant_Tests Archive_Tests
begin

text \<open>
  A model of the crate \<open>nextcore-apls\<close> (\<open>src/src\<close>): the service-cell bridge between a guest and
  the Nextcore GPU backend, the product policy, the guest virtualization boundary and the runner
  that supervises external VM workers and judges their reports; and the two programs under
  \<open>src/examples\<close> that use it.

  \<^bold>\<open>How the program fits together.\<close> A guest talks to the graphics cell in messages: a 64-byte
  envelope (\<open>vf_abi.rs\<close>) followed, in the inline profile, by a payload in the same transfer
  (\<open>sgpu.rs\<close>), or, in the granted profile, naming a range of a root-owned grant
  (\<open>sgpu_grant.rs\<close>). Inline frames are dispatched by \<open>SgpuSession\<close>, which owns a table of
  resources over the GPU device; granted messages are authorized by \<open>SgpuGrantSession\<close> and handed
  to the compute session, or normalized to an inline frame. \<open>vf_policy.rs\<close> turns a configuration
  file into a policy that always denies boot. \<open>guest.rs\<close> describes and serializes a guest launch and
  selects a virtualization backend, \<open>mode.rs\<close> reports which one. \<open>runner.rs\<close> builds a checked
  command line for a worker, runs it once, and derives an outcome from the JSON report it prints;
  \<open>run_host\<close> turns that outcome into an exit code.

  \<^bold>\<open>Theories and sources.\<close>
  \<^item> \<open>Apls_Prelude\<close>: words, \<open>Result\<close> with early return (\<open>bindE\<close>), checked arithmetic, slices,
    little-endian integers, UTF-8, and the compilation target as a record (pointer width, allocator,
    \<open>cfg\<close> values). Collections \<open>result_simps\<close>, \<open>checked_simps\<close>, \<open>bytes_simps\<close>.
  \<^item> \<open>Vf_Abi\<close>: \<open>vf_abi.rs\<close>. \<open>VfMsgHeader\<close> is the record \<open>vf_msg_header\<close>; \<open>decode\<close>, \<open>encode\<close>,
    \<open>validate_shape\<close> and \<open>payload_end\<close> are \<open>header_decode\<close>, \<open>header_encode\<close> and the two of the
    same name.
  \<^item> \<open>Envelope_Layout\<close>: the \<open>repr(C)\<close> rule for the fields of \<open>VfMsgHeader\<close> and the memory a header
    occupies under it.
  \<^item> \<open>Wire_Codec\<close>: the locale of byte formats whose decoder accepts exactly the encoder's output;
    interpreted on the envelope there and on the launch plan in \<open>Guest_Plan\<close>.
  \<^item> \<open>Sgpu_Frame\<close>: \<open>SgpuFrame\<close> of \<open>sgpu.rs\<close>, its layout, \<open>to_wire\<close>, \<open>try_to_wire\<close>, \<open>from_wire\<close>.
  \<^item> \<open>Handle_Map\<close>: the locale of finite maps with handles as keys, and the association list that
    stands for \<open>HashMap<u64, SgpuResource>\<close>.
  \<^item> \<open>Sgpu_Session\<close>, \<open>Sgpu_Trace\<close>: \<open>SgpuCaps\<close> and \<open>SgpuSession\<close> of \<open>sgpu.rs\<close>, every operation as
    a state transformer, their runs as the inductive relation \<open>session_trace\<close>, and the session
    invariant.
  \<^item> \<open>Session_Memory\<close>: the session over a device whose buffers hold bytes; the locale of such
    devices (\<open>buffer_device\<close>), an example of one, and the runs that also read and write buffers.
  \<^item> \<open>Sgpu_Ledger\<close>: the abstract service, a ledger of live handles and sizes with the step relation
    \<open>ledger_step\<close> on requests and replies; the locale \<open>simulation\<close>, interpreted on
    \<open>SgpuSession::dispatch\<close>.
  \<^item> \<open>Sgpu_Grant\<close>, \<open>Grant_Safety\<close>: \<open>sgpu_grant.rs\<close>, and its properties against an abstract
    root memory of granted objects.
  \<^item> \<open>Frame_Tests\<close>, \<open>Session_Tests\<close>, \<open>Guest_Tests\<close>: the unit tests of \<open>vf_abi.rs\<close>, \<open>sgpu.rs\<close>,
    \<open>guest.rs\<close>, \<open>mode.rs\<close> and \<open>vf_policy.rs\<close>, in the same form as those of \<open>runner.rs\<close> below;
    \<open>Memory_Tests\<close>: the tests of \<open>sgpu.rs\<close> that execute copies between resources; \<open>Grant_Tests\<close>: the
    integration tests of \<open>src/tests/sgpu_grant.rs\<close> that need no execution.
  \<^item> \<open>Error_Texts\<close>: the \<open>Display\<close> texts of every error enum of the crate.
  \<^item> \<open>Grant_Example\<close>, \<open>Vulkan_Program\<close>: \<open>examples/sgpu_grant_vulkan.rs\<close>; first the authored
    message and the nine tampered requests, then the whole program over a record of the calls it
    makes to the GPU crate.
  \<^item> \<open>Vf_Policy\<close>: \<open>vf_policy.rs\<close>.
  \<^item> \<open>Guest_Plan\<close>, \<open>Guest_Backend\<close>: \<open>guest.rs\<close> and \<open>mode.rs\<close>; the trait
    \<open>VirtualizationBackend\<close> is a record of operations with the locale \<open>fail_closed_backend\<close>,
    interpreted on both implementations and on the selected one; the result of the framework probe
    is an argument.
  \<^item> \<open>Runner_Json\<close>, \<open>Runner_Request\<close>, \<open>Runner_Report\<close>, \<open>Runner_Recovery\<close>, \<open>Runner_Samples\<close>,
    \<open>Runner_Verdict\<close>, \<open>Runner_Run\<close>: \<open>runner.rs\<close>. The evaluators are split into one definition per
    binding of the source function; the locale \<open>verdict\<close> is their contract with \<open>run\<close>. A run
    returns its result and the list of file and process events it caused.
  \<^item> \<open>Runner_Evidence\<close>: for every backend the table of report fields that the verdicts of
    \<open>runner.rs\<close> require, each with its condition.
  \<^item> \<open>Runner_Request_Tests\<close>, \<open>Runner_Report_Tests\<close>: the unit tests of \<open>runner.rs\<close> as boolean
    definitions \<open><test>\<close> with the proof \<open><test>_holds\<close>; their fixtures are the samples of
    \<open>Runner_Request\<close> and \<open>Runner_Samples\<close>.
  \<^item> \<open>Runner_Archive\<close>, \<open>Archive_Run\<close>: the verdict and the run of the archived runner under
    \<open>src/research/handoff\<close>, compared with the current ones under the renaming of schema names;
    \<open>Archive_Tests\<close>: its unit tests on reports, carried over along the renaming.
  \<^item> \<open>Run_Host\<close>: \<open>main\<close> of \<open>examples/run_host.rs\<close>, its exit code and its effects.

  \<^bold>\<open>What the lemmas show.\<close> For every decoder and check, the exact set of accepted inputs
  (\<open>_Inr_iff\<close>, \<open>_Ok_iff\<close>); round trips in both directions; refinement of word arithmetic by
  natural-number conditions (no addition wraps in an accepted message); the invariant of the
  session over arbitrary runs, with resource budgets and handles that are never reused, and the room of a
  destroyed resource granted again; the live resources' one-to-one ownership of device buffers, under
  which the session's copies, reads and writes are those of separate byte arrays; the memory image of
  the envelope, which is its wire form on a little-endian target; the
  simulation of every sequence of dispatched frames by the ledger, which grants a creation exactly
  when there is room; the
  mediation of granted submissions: whatever reaches the GPU is exactly the granted range of a
  live grant of the caller; refusal as soon as that one grant is revoked, expires or loses its right,
  whatever the rest of the table holds; the exact condition under which a report of a native worker or
  of a recovery supervisor is a verified boot, and that one corrupted field of 58 (or 16) is fatal to
  it; the agreement of the two generations of the runner, runs and effects included, up to schema
  names; the exact behaviour of the GPU device under which the validation program reports success, and
  its report; the effects of a run in order, each started only after the success of the one before, up
  to a worker that is always reaped; and an exit code 0 that stands for all of this evidence.

  \<^bold>\<open>Bounds.\<close> There is no fuel: every loop of the sources is a structural recursion over its list
  or its counter. Statements over \<open>usize\<close> assume a 32- or 64-bit target (\<open>supported_target\<close>) or
  name the width; a Rust slice is shorter than \<open>2 ^ 63\<close> bytes on a 64-bit target.

  \<^bold>\<open>Parameters.\<close> Code outside the repository is an argument of the definitions: the GPU device, its
  enums and limits (\<open>gpu_device\<close>, \<open>gpu_enums\<close>, \<open>sgpu_limits\<close>), the decoder of command lists, the
  compute session behind grants, the plist parser, SHA-256, the JSON parser, the
  result of the framework probe, and the results of file and process operations (\<open>run_io\<close>). The only assumptions
  on them are that an allocated buffer has the requested size (\<open>alloc_exact\<close>), that a digest has
  32 bytes, that the root binds snapshots to the current bytes of their grants (\<open>faithful\<close>), and,
  for \<open>Session_Memory\<close> and \<open>Memory_Tests\<close> alone, that the device's buffers behave as separate byte
  arrays (\<open>buffer_device\<close>).

  \<^bold>\<open>Not modelled.\<close> The rendering of receipts and reports as JSON text by serde, elapsed time,
  the inside of the GPU crate and with it the tests that encode, decode and execute command lists,
  the framework probe and the \<open>Drop\<close> of the Apple backend, which do not compile on their only target,
  the Objective-C calls that \<open>guest.rs\<close> itself leaves pending, the differential test against a C
  oracle whose source is outside the repository, and the module list of \<open>lib.rs\<close>. The
  request and file handling of the archived \<open>runner.rs\<close> and the tests of it are the text of the current
  one and are not repeated.
\<close>

section \<open>From a granted message to the graphics session\<close>

lemma normalized_opcode:
  assumes "authorize t g hb table caller now = Inr (h, p)"
  shows "opcode (Sgpu_Frame.header (normalized h p)) = VF_SGPU_SUBMIT_COMMAND_LIST"
    and "valid_frame (normalized h p)"
  using assms normalized_valid(1) [OF assms] by (auto simp: normalized_def authorize_Inr_iff)

text \<open>The range clause of the grant policy is the range check of \<open>VfGrant\<close>.\<close>

lemma grants_range_check:
  "grants h g required now \<Longrightarrow>
     range_check (vf_grant_new (object_id (cap g)) (payload_offset h) (ucast (payload_bytes h)))
       (grant_bytes g) = Inr ()"
proof -
  assume "grants h g required now"
  then have fits: "unat (payload_offset h) + unat (payload_bytes h) \<le> unat (grant_bytes g)"
    by (simp add: grants_def)
  then have "unat (payload_offset h) + unat (payload_bytes h) < 2 ^ 64"
    using unat_u64_bound [of "grant_bytes g"] by simp
  then have "checked_add (payload_offset h) (ucast (payload_bytes h)) =
      Some (payload_offset h + ucast (payload_bytes h))"
    and "unat (payload_offset h + ucast (payload_bytes h)) =
      unat (payload_offset h) + unat (payload_bytes h)"
    by (simp_all add: checked_add_def unat_word_ariths)
  with fits show ?thesis by (simp add: range_check_def vf_grant_new_def word_less_nat_alt)
qed

text \<open>C16: A granted request can only submit commands. When a granted message is normalized and
  the frame is dispatched to a graphics session, no resource is created or destroyed and no handle
  is issued, whatever the payload and the device do; a success reports exactly the number of
  commands of the authorized payload, and a payload that is not a command list changes nothing.\<close>

theorem granted_request_confined:
  assumes "supported_target t"
    and "(to_inline t g hb table caller now :: (_, 'e grant_submit_error) result) = Inr f"
    and "dispatch t lim ge D dec f s = (r, s')"
  shows "resources s' = resources s \<and> next_resource_id s' = next_resource_id s \<and>
    (case dec (payload f) of
       None \<Rightarrow> r = Inl Payload \<and> s' = s
     | Some cmds \<Rightarrow> (case r of
           Inl _ \<Rightarrow> True
         | Inr q \<Rightarrow> length cmds \<le> max_commands lim \<and>
             payload q = le_bytes 4 (word_of_nat (length cmds) :: u32) \<and>
             request_id (Sgpu_Frame.header q) = request_id (Sgpu_Frame.header f)))"
proof -
  obtain h p where "authorize t g hb table caller now = Inr (h, p)" "f = normalized h p"
    using to_inline_Inr [OF assms(1,2)] by blast
  then have f: "opcode (Sgpu_Frame.header f) = VF_SGPU_SUBMIT_COMMAND_LIST" "frame_validate t f = Inr ()"
    using normalized_opcode by (simp_all add: frame_validate_Inr_iff [OF assms(1)])
  show ?thesis
  proof (cases "dec (payload f)")
    case None
    then show ?thesis using assms(3) f by (simp add: dispatch_def Let_def)
  next
    case (Some cmds)
    obtain u s'' where u: "submit lim D cmds s = (u, s'')" by (cases "submit lim D cmds s") auto
    then obtain d where "s'' = s\<lparr>device := d\<rparr>" using submit_frame by blast
    moreover have "u = Inr k \<Longrightarrow> k = length cmds \<and> length cmds \<le> max_commands lim" for k
      using u by (auto simp: submit_def split: if_splits sum.splits prod.splits)
    ultimately show ?thesis
      using assms(3) f u Some by (cases u) (auto simp: dispatch_def Let_def)
  qed
qed

lemma granted_request_confined_witness:
  "\<exists>r s'. dispatch mac_target sample_limits sample_enums counting_device (\<lambda>_. Some [Present 1])
     (normalized sample_header [1, 2, 3, 4]) sample_session = (r, s') \<and>
     resources s' = resources sample_session"
proof -
  have f: "(to_inline mac_target sample_grant_session (header_encode sample_header) [sample_snapshot] 42 15
      :: (_, unit grant_submit_error) result) = Inr (normalized sample_header [1, 2, 3, 4])"
    by (rule to_inline_eq) (simp_all add: sample_authorize)
  obtain r s' where d: "dispatch mac_target sample_limits sample_enums counting_device
      (\<lambda>_. Some [Present 1]) (normalized sample_header [1, 2, 3, 4]) sample_session = (r, s')"
    by (rule prod.exhaust)
  from granted_request_confined [OF supported_mac f d] d show ?thesis by blast
qed

end
